(* ===== verification/Iggy_Base.thy ===== *)
theory Iggy_Base
  imports Main "HOL-Library.Word" "HOL-Library.AList"
begin

text \<open>
  The prelude of the development: the names of Rust's fixed-width integers, the checked and
  saturating arithmetic of the standard library that the sources call, results
  (\<open>Result<T, E>\<close> as the sum type \<open>'e + 'a\<close>, with the error on the left), little-endian
  byte strings, and the generic facts on lists, association lists and words that the component
  theories share. The collection \<open>word_nat\<close> turns statements about machine words into
  statements about natural numbers.
\<close>

unbundle bit_operations_syntax

named_theorems word_nat "transfer of word order and arithmetic to the natural numbers"
named_theorems codec_simps "decoding a freshly encoded field"

type_synonym u8 = "8 word"
type_synonym u32 = "32 word"
type_synonym u64 = "64 word"
type_synonym u128 = "128 word"
type_synonym bytes = "u8 list"

section \<open>Results\<close>

abbreviation Err :: "'e \<Rightarrow> 'e + 'a" where "Err \<equiv> Inl"
abbreviation Ok :: "'a \<Rightarrow> 'e + 'a" where "Ok \<equiv> Inr"

text \<open>The question-mark operator of Rust: return early on an error, go on with the value.\<close>

definition rbind :: "'e + 'a \<Rightarrow> ('a \<Rightarrow> 'e + 'b) \<Rightarrow> 'e + 'b" where
  "rbind r f = (case r of Inl e \<Rightarrow> Inl e | Inr a \<Rightarrow> f a)"

lemma rbind_simps [simp]: "rbind (Ok a) f = f a" "rbind (Err e) f = Err e"
  by (simp_all add: rbind_def)

lemma rbind_eq_Ok: "rbind r f = Ok b \<longleftrightarrow> (\<exists>a. r = Ok a \<and> f a = Ok b)"
  by (cases r) auto

definition map_err :: "('e \<Rightarrow> 'f) \<Rightarrow> 'e + 'a \<Rightarrow> 'f + 'a" where
  "map_err g r = (case r of Inl e \<Rightarrow> Inl (g e) | Inr a \<Rightarrow> Inr a)"

lemma map_err_simps [simp]: "map_err g (Ok a) = Ok a" "map_err g (Err e) = Err (g e)"
  by (simp_all add: map_err_def)

lemma map_err_eq_Ok [simp]: "map_err g r = Ok a \<longleftrightarrow> r = Ok a"
  by (cases r) auto

definition ok_or :: "'e \<Rightarrow> 'a option \<Rightarrow> 'e + 'a" where
  "ok_or e x = (case x of None \<Rightarrow> Inl e | Some a \<Rightarrow> Inr a)"

lemma ok_or_simps [simp]: "ok_or e None = Err e" "ok_or e (Some a) = Ok a"
  by (simp_all add: ok_or_def)

section \<open>Checked and saturating arithmetic\<close>

definition checked_sub :: "'w::len word \<Rightarrow> 'w word \<Rightarrow> 'w word option" where
  "checked_sub a b = (if b \<le> a then Some (a - b) else None)"

definition checked_add :: "'w::len word \<Rightarrow> 'w word \<Rightarrow> 'w word option" where
  "checked_add a b = (if a \<le> a + b then Some (a + b) else None)"

definition saturating_sub :: "'w::len word \<Rightarrow> 'w word \<Rightarrow> 'w word" where
  "saturating_sub a b = (if b \<le> a then a - b else 0)"

definition saturating_add :: "'w::len word \<Rightarrow> 'w word \<Rightarrow> 'w word" where
  "saturating_add a b = (if a \<le> a + b then a + b else - 1)"

definition saturating_mul :: "'w::len word \<Rightarrow> 'w word \<Rightarrow> 'w word" where
  "saturating_mul a b =
     (if unat a * unat b < 2 ^ LENGTH('w) then a * b else - 1)"

text \<open>\<open>u32::try_from(n).unwrap_or(u32::MAX)\<close>.\<close>

definition saturate_u32 :: "nat \<Rightarrow> u32" where
  "saturate_u32 n = (if n < 2 ^ 32 then of_nat n else - 1)"

lemma word_less_unat [word_nat]: "a < b \<longleftrightarrow> unat a < unat b"
  by (rule word_less_nat_alt)

lemma word_le_unat [word_nat]: "a \<le> b \<longleftrightarrow> unat a \<le> unat b"
  by (rule word_le_nat_alt)

lemma word_eq_unat: "a = b \<longleftrightarrow> unat a = unat b"
  by (rule word_unat_eq_iff)

lemma unat_sub_le [word_nat]: "b \<le> a \<Longrightarrow> unat (a - b) = unat a - unat b"
  by (rule unat_sub)

lemma unat_max_word: "unat (- 1 :: 'w::len word) = 2 ^ LENGTH('w) - 1"
  by (simp add: unsigned_minus_1_eq_mask mask_eq_exp_minus_1)

lemma unat_ucast_mod:
  "unat (ucast w :: 'b::len word) = unat (w :: 'a::len word) mod 2 ^ LENGTH('b)"
  by (simp add: unsigned_ucast_eq take_bit_eq_mod)

lemma unat_add_one:
  assumes "(a :: 'w::len word) \<noteq> - 1"
  shows "unat (a + 1) = unat a + 1"
proof -
  from assms have "1 + a \<noteq> 0"
    by (metis add.commute add_eq_0_iff)
  then show ?thesis
    by (simp add: unatSuc add.commute)
qed

lemma unat_saturating_sub [simp]: "unat (saturating_sub a b) = unat a - unat b"
  by (auto simp: saturating_sub_def word_le_nat_alt unat_sub)

lemma saturating_sub_le: "saturating_sub a b \<le> a"
  by (simp add: word_le_nat_alt)

lemma unat_saturating_add:
  "unat (saturating_add a (b :: 'w::len word)) = min (unat a + unat b) (2 ^ LENGTH('w) - 1)"
proof (cases "unat a + unat b < 2 ^ LENGTH('w)")
  case True
  then show ?thesis
    by (simp add: saturating_add_def word_le_nat_alt unat_word_ariths)
next
  case False
  let ?N = "2 ^ LENGTH('w) :: nat"
  have a: "unat a < ?N" and b: "unat b < ?N"
    by (rule unsigned_less)+
  then have "unat a + unat b - ?N < ?N"
    by linarith
  with False have "(unat a + unat b) mod ?N = unat a + unat b - ?N"
    by (simp add: le_mod_geq)
  with False b have "\<not> unat a \<le> (unat a + unat b) mod ?N"
    by linarith
  then have "\<not> a \<le> a + b"
    by (simp add: word_le_nat_alt unat_word_ariths)
  with False show ?thesis
    by (simp add: saturating_add_def unat_max_word)
qed

lemma unat_saturating_mul:
  "unat (saturating_mul a (b :: 'w::len word)) = min (unat a * unat b) (2 ^ LENGTH('w) - 1)"
  by (auto simp: saturating_mul_def unat_word_ariths unat_max_word)

section \<open>Little-endian byte strings\<close>

text \<open>
  \<open>to_le_bytes\<close> and \<open>from_le_bytes\<close> of the integer types: \<open>n\<close> bytes, the least
  significant first.
\<close>

fun le_digits :: "nat \<Rightarrow> nat \<Rightarrow> bytes" where
  "le_digits 0 k = []"
| "le_digits (Suc n) k = of_nat (k mod 256) # le_digits n (k div 256)"

fun le_value :: "bytes \<Rightarrow> nat" where
  "le_value [] = 0"
| "le_value (b # bs) = unat b + 256 * le_value bs"

definition to_le_bytes :: "'w::len word \<Rightarrow> bytes" where
  "to_le_bytes w = le_digits (LENGTH('w) div 8) (unat w)"

definition from_le_bytes :: "bytes \<Rightarrow> 'w::len word" where
  "from_le_bytes bs = of_nat (le_value bs)"

lemma length_le_digits [simp]: "length (le_digits n k) = n"
  by (induction n arbitrary: k) auto

lemma le_value_le_digits: "le_value (le_digits n k) = k mod 256 ^ n"
proof (induction n arbitrary: k)
  case 0
  then show ?case by simp
next
  case (Suc n)
  have "unat (of_nat (k mod 256) :: u8) = k mod 256"
    by (simp add: unat_of_nat)
  then show ?case
    by (simp add: Suc.IH mod_mult2_eq)
qed

lemma le_value_bound: "le_value bs < 256 ^ length bs"
proof (induction bs)
  case Nil
  then show ?case by simp
next
  case (Cons b bs)
  have "unat b < 256"
    using unsigned_less [of b] by simp
  with Cons.IH show ?case
    by simp
qed

lemma le_digits_le_value: "le_digits (length bs) (le_value bs) = bs"
proof (induction bs)
  case Nil
  then show ?case by simp
next
  case (Cons b bs)
  have "unat b < 256"
    using unsigned_less [of b] by simp
  with Cons.IH show ?case
    by simp
qed

lemma length_to_le_bytes [simp]: "length (to_le_bytes (w :: 'w::len word)) = LENGTH('w) div 8"
  by (simp add: to_le_bytes_def)

lemma byte_capacity:
  assumes "8 dvd n"
  shows "(256 :: nat) ^ (n div 8) = 2 ^ n"
proof -
  have "(256 :: nat) ^ (n div 8) = (2 ^ 8) ^ (n div 8)"
    by simp
  also have "\<dots> = 2 ^ (8 * (n div 8))"
    by (rule power_mult [symmetric])
  also have "8 * (n div 8) = n"
    using assms by (rule dvd_mult_div_cancel)
  finally show ?thesis .
qed

lemma to_le_bytes_zero: "to_le_bytes (0 :: 'w::len word) = replicate (LENGTH('w) div 8) 0"
proof -
  have "le_digits n 0 = replicate n 0" for n
    by (induction n) simp_all
  then show ?thesis
    by (simp add: to_le_bytes_def)
qed

lemma from_to_le_bytes:
  assumes "8 dvd LENGTH('w)"
  shows "from_le_bytes (to_le_bytes (w :: 'w::len word)) = w"
  using assms
  by (simp add: from_le_bytes_def to_le_bytes_def le_value_le_digits byte_capacity)

text \<open>The instances the codecs use.\<close>

lemma from_to_le_bytes_u8 [simp]: "from_le_bytes (to_le_bytes (w :: u8)) = w"
  and from_to_le_bytes_u32 [simp]: "from_le_bytes (to_le_bytes (w' :: u32)) = w'"
  and from_to_le_bytes_u64 [simp]: "from_le_bytes (to_le_bytes (w'' :: u64)) = w''"
  and from_to_le_bytes_u128 [simp]: "from_le_bytes (to_le_bytes (w3 :: u128)) = w3"
  by (simp_all add: from_to_le_bytes)

lemma to_from_le_bytes:
  assumes "8 dvd LENGTH('w)" and "length bs = LENGTH('w) div 8"
  shows "to_le_bytes (from_le_bytes bs :: 'w::len word) = bs"
proof -
  have "(256 :: nat) ^ (LENGTH('w) div 8) = 2 ^ LENGTH('w)"
    using assms(1) by (rule byte_capacity)
  then have "le_value bs < 2 ^ LENGTH('w)"
    using le_value_bound [of bs] assms(2) by simp
  then have "unat (from_le_bytes bs :: 'w word) = le_value bs"
    by (simp add: from_le_bytes_def unat_of_nat)
  then show ?thesis
    using le_digits_le_value [of bs] assms(2) by (simp add: to_le_bytes_def)
qed

section \<open>Lists and association lists\<close>

text \<open>\<open>Iterator::position\<close>: the index of the first element that satisfies the predicate.\<close>

fun position :: "('a \<Rightarrow> bool) \<Rightarrow> 'a list \<Rightarrow> nat option" where
  "position P [] = None"
| "position P (x # xs) = (if P x then Some 0 else map_option Suc (position P xs))"

lemma position_eq_None: "position P xs = None \<longleftrightarrow> (\<forall>x \<in> set xs. \<not> P x)"
  by (induction xs) auto

lemma position_eq_Some:
  "position P xs = Some i \<longleftrightarrow> i < length xs \<and> P (xs ! i) \<and> (\<forall>j < i. \<not> P (xs ! j))"
proof (induction xs arbitrary: i)
  case Nil
  then show ?case by simp
next
  case (Cons x xs)
  show ?case
    by (cases i) (auto simp: Cons.IH less_Suc_eq_0_disj)
qed

lemma find_position:
  "find P xs = map_option (nth xs) (position P xs)"
  by (induction xs) (auto simp: option.map_comp comp_def)

text \<open>\<open>slice::get\<close>: the element at an index, or nothing past the end.\<close>

definition get_at :: "'a list \<Rightarrow> nat \<Rightarrow> 'a option" where
  "get_at xs i = (if i < length xs then Some (xs ! i) else None)"

lemma get_at_eq_Some: "get_at xs i = Some x \<longleftrightarrow> i < length xs \<and> xs ! i = x"
  by (auto simp: get_at_def)

text \<open>\<open>slice::last\<close> and \<open>slice::first\<close>.\<close>

definition last_opt :: "'a list \<Rightarrow> 'a option" where
  "last_opt xs = (if xs = [] then None else Some (last xs))"

definition first_opt :: "'a list \<Rightarrow> 'a option" where
  "first_opt xs = (case xs of [] \<Rightarrow> None | x # _ \<Rightarrow> Some x)"

lemma last_opt_simps [simp]:
  "last_opt [] = None" "last_opt (xs @ [x]) = Some x" "last_opt [x] = Some x"
  by (simp_all add: last_opt_def)

lemma first_opt_simps [simp]: "first_opt [] = None" "first_opt (x # xs) = Some x"
  by (simp_all add: first_opt_def)

lemma last_opt_eq_Some: "last_opt xs = Some x \<longleftrightarrow> (\<exists>ys. xs = ys @ [x])"
  by (auto simp: last_opt_def intro: append_butlast_last_id [symmetric])

end
