(* ===== verification/Le_Cursor.thy ===== *)
theory Le_Cursor
  imports Iggy_Base
begin

text \<open>
  The little-endian read cursor shared by the hand-rolled codecs of the consensus crate
  (\<open>src/core/consensus/src/le_cursor.rs\<close>) and the trailer check that ends both encodings.
  A cursor is the slice it has not consumed; a read returns the value and the cursor after it.
  The hash \<open>XxHash3_64\<close> is a third-party function, so it is an argument of every definition
  that uses it.

  The locale \<open>codec\<close> is the contract between an encoder and a reader of one field: what was
  written is read back and the rest of the input is untouched. Its client lemmas lift the contract
  to a run of fields, which is what the decode loops rely on.
\<close>

section \<open>The cursor\<close>

datatype Truncated = Truncated

definition lc_take :: "nat \<Rightarrow> bytes \<Rightarrow> Truncated + bytes \<times> bytes" where
  "lc_take len bs = (if length bs < len then Err Truncated else Ok (take len bs, drop len bs))"

definition lc_u8 :: "bytes \<Rightarrow> Truncated + u8 \<times> bytes" where
  "lc_u8 bs = rbind (lc_take 1 bs) (\<lambda>(head, tail). Ok (head ! 0, tail))"

definition lc_u32 :: "bytes \<Rightarrow> Truncated + u32 \<times> bytes" where
  "lc_u32 bs = rbind (lc_take 4 bs) (\<lambda>(head, tail). Ok (from_le_bytes head, tail))"

definition lc_u64 :: "bytes \<Rightarrow> Truncated + u64 \<times> bytes" where
  "lc_u64 bs = rbind (lc_take 8 bs) (\<lambda>(head, tail). Ok (from_le_bytes head, tail))"

definition lc_u128 :: "bytes \<Rightarrow> Truncated + u128 \<times> bytes" where
  "lc_u128 bs = rbind (lc_take 16 bs) (\<lambda>(head, tail). Ok (from_le_bytes head, tail))"

text \<open>
  The trailer: the last eight bytes are the hash of everything before them. The error is
  \<open>None\<close> when the input is too short to hold a trailer and the pair of the stamped and the
  computed hash when they differ.
\<close>

definition split_verified_trailer ::
    "(bytes \<Rightarrow> u64) \<Rightarrow> bytes \<Rightarrow> (u64 \<times> u64) option + bytes" where
  "split_verified_trailer hash bs =
     (if length bs < 8 then Err None
      else let content_len = length bs - 8;
               content = take content_len bs;
               trailer = drop content_len bs;
               expected = from_le_bytes trailer;
               actual = hash content
           in if expected = actual then Ok content else Err (Some (expected, actual)))"

text \<open>\<open>for _ in 0..count { push(read()?) }\<close>: the loop of every decoder.\<close>

fun read_n :: "(bytes \<Rightarrow> 'e + 'a \<times> bytes) \<Rightarrow> nat \<Rightarrow> bytes \<Rightarrow> 'e + 'a list \<times> bytes" where
  "read_n get 0 bs = Ok ([], bs)"
| "read_n get (Suc n) bs =
     rbind (get bs) (\<lambda>(a, rest). rbind (read_n get n rest) (\<lambda>(as, rest'). Ok (a # as, rest')))"

section \<open>The field contract\<close>

locale codec =
  fixes valid :: "'a \<Rightarrow> bool"
    and put :: "'a \<Rightarrow> bytes"
    and get :: "bytes \<Rightarrow> 'e + 'a \<times> bytes"
  assumes get_put: "valid a \<Longrightarrow> get (put a @ rest) = Ok (a, rest)"
begin

lemma read_n_put:
  "(\<And>a. a \<in> set as \<Longrightarrow> valid a) \<Longrightarrow> n = length as \<Longrightarrow>
     read_n get n (concat (map put as) @ rest) = Ok (as, rest)"
proof (induction as arbitrary: n)
  case Nil
  then show ?case by simp
next
  case (Cons a as)
  then have "read_n get (length as) (concat (map put as) @ rest) = Ok (as, rest)"
    by simp
  with Cons.prems show ?case
    by (simp add: get_put)
qed

end

text \<open>An exact codec reads nothing but encodings: what it accepts is what was written.\<close>

locale exact_codec = codec +
  assumes put_get: "get bs = Ok (a, rest) \<Longrightarrow> valid a \<and> bs = put a @ rest"
begin

lemma read_n_exact:
  "read_n get n bs = Ok (as, rest) \<Longrightarrow>
     length as = n \<and> (\<forall>a \<in> set as. valid a) \<and> bs = concat (map put as) @ rest"
proof (induction n arbitrary: bs as)
  case 0
  then show ?case by simp
next
  case (Suc n)
  then obtain a as' mid where
      "get bs = Ok (a, mid)" and rec: "read_n get n mid = Ok (as', rest)" and "as = a # as'"
    by (auto simp: rbind_eq_Ok)
  with put_get [of bs a mid] Suc.IH [OF rec] show ?case
    by auto
qed

end

section \<open>The primitive fields meet the contract\<close>

lemma lc_take_append [simp, codec_simps]:
  "length xs = n \<Longrightarrow> lc_take n (xs @ rest) = Ok (xs, rest)"
  by (simp add: lc_take_def)

lemma lc_take_eq_Ok: "lc_take n bs = Ok (head, tail) \<longleftrightarrow> length head = n \<and> bs = head @ tail"
  by (auto simp: lc_take_def)

interpretation u8_codec: exact_codec "\<lambda>_. True" "\<lambda>b. [b]" lc_u8
  by unfold_locales
    (simp add: lc_u8_def lc_take_def, auto simp: lc_u8_def rbind_eq_Ok lc_take_eq_Ok length_Suc_conv)

lemma le_field_exact:
  assumes "8 dvd LENGTH('w)" and "n = LENGTH('w) div 8"
    and "rbind (lc_take n bs) (\<lambda>(head, tail). Ok (from_le_bytes head :: 'w::len word, tail)) = Ok (w, rest)"
  shows "bs = to_le_bytes w @ rest"
  using assms by (auto simp: rbind_eq_Ok lc_take_eq_Ok to_from_le_bytes)

interpretation u32_codec: exact_codec "\<lambda>_. True" to_le_bytes lc_u32
  by unfold_locales
    (simp add: lc_u32_def, rule conjI [OF TrueI], rule le_field_exact [where n = 4],
     simp_all add: lc_u32_def)

interpretation u64_codec: exact_codec "\<lambda>_. True" to_le_bytes lc_u64
  by unfold_locales
    (simp add: lc_u64_def, rule conjI [OF TrueI], rule le_field_exact [where n = 8],
     simp_all add: lc_u64_def)

interpretation u128_codec: exact_codec "\<lambda>_. True" to_le_bytes lc_u128
  by unfold_locales
    (simp add: lc_u128_def, rule conjI [OF TrueI], rule le_field_exact [where n = 16],
     simp_all add: lc_u128_def)

lemmas lc_get_put [simp, codec_simps] =
  u8_codec.get_put [simplified] u32_codec.get_put [simplified]
  u64_codec.get_put [simplified] u128_codec.get_put [simplified]

lemmas lc_put_get =
  u8_codec.put_get [THEN conjunct2] u32_codec.put_get [THEN conjunct2]
  u64_codec.put_get [THEN conjunct2] u128_codec.put_get [THEN conjunct2]

section \<open>The trailer\<close>

lemma split_verified_trailer_stamp [simp]:
  "split_verified_trailer hash (content @ to_le_bytes (hash content)) = Ok content"
  by (simp add: split_verified_trailer_def)

lemma split_verified_trailer_exact:
  assumes "split_verified_trailer hash bs = Ok content"
  shows "bs = content @ to_le_bytes (hash content)"
proof -
  from assms have len: "\<not> length bs < 8"
      and content: "content = take (length bs - 8) bs"
      and stamp: "from_le_bytes (drop (length bs - 8) bs) = hash content"
    by (auto simp: split_verified_trailer_def Let_def split: if_splits)
  have "to_le_bytes (from_le_bytes (drop (length bs - 8) bs) :: u64) = drop (length bs - 8) bs"
    using len by (intro to_from_le_bytes) simp_all
  with stamp have "to_le_bytes (hash content) = drop (length bs - 8) bs"
    by simp
  with content show ?thesis
    by simp
qed

end
