(* ===== verification/State_Manifest.thy ===== *)
theory State_Manifest
  imports Le_Cursor
begin

text \<open>
  The state-transfer manifest (\<open>src/core/consensus/src/state_manifest.rs\<close>): the list of artifacts
  a serving peer offers, its encoding and its decoder. The main results are the round trip of
  \<open>encode_state_manifest\<close> and an exact description of the byte strings the decoder accepts,
  per-entry fields appended by a later encoder included.
\<close>

section \<open>The model\<close>

record StateArtifact =
  sa_kind :: u8
  sa_frontier :: u64
  sa_len :: u64
  sa_checksum :: u64

definition METADATA_SNAPSHOT :: u8 where "METADATA_SNAPSHOT = 0"
definition CLIENT_TABLE :: u8 where "CLIENT_TABLE = 1"
definition SEGMENT_LOG :: u8 where "SEGMENT_LOG = 2"
definition CONSUMER_OFFSETS :: u8 where "CONSUMER_OFFSETS = 3"

definition state_artifact_checksum :: "(bytes \<Rightarrow> u64) \<Rightarrow> bytes \<Rightarrow> u64" where
  "state_artifact_checksum xxh3 bs = xxh3 bs"

definition for_bytes :: "(bytes \<Rightarrow> u64) \<Rightarrow> u8 \<Rightarrow> u64 \<Rightarrow> bytes \<Rightarrow> StateArtifact" where
  "for_bytes xxh3 kind frontier bs =
     \<lparr>sa_kind = kind, sa_frontier = frontier, sa_len = of_nat (length bs),
      sa_checksum = state_artifact_checksum xxh3 bs\<rparr>"

datatype StateManifestError =
    ManifestTruncated
  | ManifestBadMagic
  | ManifestChecksumMismatch u64 u64
  | ManifestTooManyEntries u32
  | EntryTooShort u8

definition STATE_MANIFEST_MAGIC :: bytes where
  "STATE_MANIFEST_MAGIC = [0x49, 0x53, 0x4D, 0x31]"

definition STATE_MANIFEST_ENTRY_LEN :: u8 where
  "STATE_MANIFEST_ENTRY_LEN = 25"

definition STATE_MANIFEST_ENTRIES_MAX :: u32 where
  "STATE_MANIFEST_ENTRIES_MAX = 65536"

text \<open>One entry: \<open>kind(1) frontier(8) len(8) checksum(8)\<close>.\<close>

definition put_artifact :: "StateArtifact \<Rightarrow> bytes" where
  "put_artifact a = sa_kind a # to_le_bytes (sa_frontier a) @ to_le_bytes (sa_len a)
     @ to_le_bytes (sa_checksum a)"

text \<open>\<open>None\<close> is the panic of the entry-count assertion.\<close>

definition encode_state_manifest :: "(bytes \<Rightarrow> u64) \<Rightarrow> StateArtifact list \<Rightarrow> bytes option" where
  "encode_state_manifest xxh3 artifacts =
     (if length artifacts \<le> unat STATE_MANIFEST_ENTRIES_MAX
      then let out = STATE_MANIFEST_MAGIC @ to_le_bytes (of_nat (length artifacts) :: u32)
                 @ [STATE_MANIFEST_ENTRY_LEN] @ concat (map put_artifact artifacts)
           in Some (out @ to_le_bytes (state_artifact_checksum xxh3 out))
      else None)"

definition truncated :: "Truncated + 'a \<Rightarrow> StateManifestError + 'a" where
  "truncated = map_err (\<lambda>_. ManifestTruncated)"

text \<open>The body of the decode loop: an entry is cut out whole, its known prefix is read.\<close>

definition get_entry :: "u8 \<Rightarrow> bytes \<Rightarrow> StateManifestError + StateArtifact \<times> bytes" where
  "get_entry entry_len reader =
     rbind (truncated (lc_take (unat entry_len) reader)) (\<lambda>(entry, reader').
     rbind (truncated (lc_u8 entry)) (\<lambda>(kind, entry).
     rbind (truncated (lc_u64 entry)) (\<lambda>(frontier, entry).
     rbind (truncated (lc_u64 entry)) (\<lambda>(len, entry).
     rbind (truncated (lc_u64 entry)) (\<lambda>(checksum, entry).
       Ok (\<lparr>sa_kind = kind, sa_frontier = frontier, sa_len = len, sa_checksum = checksum\<rparr>,
           reader'))))))"

definition decode_state_manifest ::
    "(bytes \<Rightarrow> u64) \<Rightarrow> bytes \<Rightarrow> StateManifestError + StateArtifact list" where
  "decode_state_manifest xxh3 bs =
     rbind (map_err (\<lambda>mismatch. case mismatch of
                Some (expected, actual) \<Rightarrow> ManifestChecksumMismatch expected actual
              | None \<Rightarrow> ManifestTruncated)
              (split_verified_trailer (state_artifact_checksum xxh3) bs)) (\<lambda>reader.
     rbind (truncated (lc_take (length STATE_MANIFEST_MAGIC) reader)) (\<lambda>(magic, reader).
     if magic \<noteq> STATE_MANIFEST_MAGIC then Err ManifestBadMagic else
     rbind (truncated (lc_u32 reader)) (\<lambda>(count, reader).
     if count > STATE_MANIFEST_ENTRIES_MAX then Err (ManifestTooManyEntries count) else
     rbind (truncated (lc_u8 reader)) (\<lambda>(entry_len, reader).
     if entry_len < STATE_MANIFEST_ENTRY_LEN then Err (EntryTooShort entry_len) else
     rbind (read_n (get_entry entry_len) (unat count) reader) (\<lambda>(artifacts, reader).
     if reader \<noteq> [] then Err ManifestTruncated else Ok artifacts)))))"

section \<open>The entry format\<close>

text \<open>
  The wire format as a specification: a manifest whose entries are \<open>entry_len\<close> bytes long, each
  the known prefix followed by a tail this version does not know.
\<close>

definition manifest_content :: "u8 \<Rightarrow> (StateArtifact \<times> bytes) list \<Rightarrow> bytes" where
  "manifest_content entry_len entries =
     STATE_MANIFEST_MAGIC @ to_le_bytes (of_nat (length entries) :: u32) @ [entry_len]
     @ concat (map (\<lambda>(a, tail). put_artifact a @ tail) entries)"

definition manifest_format :: "(bytes \<Rightarrow> u64) \<Rightarrow> u8 \<Rightarrow> (StateArtifact \<times> bytes) list \<Rightarrow> bytes" where
  "manifest_format xxh3 entry_len entries =
     manifest_content entry_len entries
     @ to_le_bytes (state_artifact_checksum xxh3 (manifest_content entry_len entries))"

lemma length_put_artifact [simp]: "length (put_artifact a) = 25"
  by (simp add: put_artifact_def)

lemma truncated_simps [simp]:
  "truncated (Ok a) = Ok a" "truncated r = Ok a \<longleftrightarrow> r = Ok a"
  by (simp_all add: truncated_def)

lemma get_entry_put:
  assumes "unat entry_len = 25 + length tail"
  shows "get_entry entry_len (put_artifact a @ tail @ rest) = Ok (a, rest)"
proof -
  have "lc_take (unat entry_len) ((put_artifact a @ tail) @ rest) = Ok (put_artifact a @ tail, rest)"
    using assms by (intro lc_take_append) simp
  then show ?thesis
    by (simp add: get_entry_def put_artifact_def)
qed

lemma get_entry_exact:
  assumes "get_entry entry_len bs = Ok (a, rest)"
  obtains tail where "bs = put_artifact a @ tail @ rest" and "unat entry_len = 25 + length tail"
proof -
  from assms obtain entry tail where
      cut: "lc_take (unat entry_len) bs = Ok (entry, rest)"
      and entry: "entry = put_artifact a @ tail"
    by (auto simp: get_entry_def rbind_eq_Ok put_artifact_def dest!: lc_put_get)
  from cut have "length entry = unat entry_len" and "bs = entry @ rest"
    by (simp_all add: lc_take_eq_Ok)
  with entry show thesis
    by (intro that [of tail]) auto
qed

lemma unat_entry_len [simp]: "unat STATE_MANIFEST_ENTRY_LEN = 25"
  by (simp add: STATE_MANIFEST_ENTRY_LEN_def)

interpretation artifact_codec: exact_codec "\<lambda>_. True" put_artifact "get_entry STATE_MANIFEST_ENTRY_LEN"
proof unfold_locales
  fix a rest
  show "get_entry STATE_MANIFEST_ENTRY_LEN (put_artifact a @ rest) = Ok (a, rest)"
    using get_entry_put [of STATE_MANIFEST_ENTRY_LEN "[]" a rest] by simp
next
  fix bs a rest
  assume "get_entry STATE_MANIFEST_ENTRY_LEN bs = Ok (a, rest)"
  then obtain tail where "bs = put_artifact a @ tail @ rest" "(25 :: nat) = 25 + length tail"
    by (auto elim: get_entry_exact)
  then show "True \<and> bs = put_artifact a @ rest"
    by simp
qed

lemma read_entries_put:
  "(\<And>a tail. (a, tail) \<in> set entries \<Longrightarrow> unat entry_len = 25 + length tail) \<Longrightarrow>
     read_n (get_entry entry_len) (length entries)
       (concat (map (\<lambda>(a, tail). put_artifact a @ tail) entries) @ rest) = Ok (map fst entries, rest)"
  by (induction entries) (force simp: get_entry_put)+

lemma read_entries_exact:
  "read_n (get_entry entry_len) n bs = Ok (as, rest) \<Longrightarrow>
     \<exists>entries. map fst entries = as \<and> length entries = n \<and>
       (\<forall>(a, tail) \<in> set entries. unat entry_len = 25 + length tail) \<and>
       bs = concat (map (\<lambda>(a, tail). put_artifact a @ tail) entries) @ rest"
proof (induction n arbitrary: bs as)
  case 0
  then show ?case by simp
next
  case (Suc n)
  then obtain a as' mid where one: "get_entry entry_len bs = Ok (a, mid)"
      and rec: "read_n (get_entry entry_len) n mid = Ok (as', rest)" and as: "as = a # as'"
    by (auto simp: rbind_eq_Ok)
  from get_entry_exact [OF one] obtain tail where
      tail: "bs = put_artifact a @ tail @ mid" "unat entry_len = 25 + length tail" .
  from Suc.IH [OF rec] obtain entries where
      "map fst entries = as'" "length entries = n"
      "\<forall>(a, tail) \<in> set entries. unat entry_len = 25 + length tail"
      "mid = concat (map (\<lambda>(a, tail). put_artifact a @ tail) entries) @ rest"
    by blast
  with tail as show ?case
    by (intro exI [of _ "(a, tail) # entries"]) auto
qed


lemma unat_entries_max [simp]: "unat STATE_MANIFEST_ENTRIES_MAX = 65536"
  by (simp add: STATE_MANIFEST_ENTRIES_MAX_def)

lemma unat_count [simp]: "n \<le> 65536 \<Longrightarrow> unat (of_nat n :: u32) = n"
  by (simp add: unat_of_nat)

lemma length_manifest_magic [simp]: "length STATE_MANIFEST_MAGIC = 4"
  by (simp add: STATE_MANIFEST_MAGIC_def)

lemma decode_content:
  assumes "read_n (get_entry entry_len) n body = Ok (artifacts, [])"
    and "n \<le> 65536" and "STATE_MANIFEST_ENTRY_LEN \<le> entry_len"
    and content: "content = STATE_MANIFEST_MAGIC @ to_le_bytes (of_nat n :: u32) @ [entry_len] @ body"
  shows "decode_state_manifest xxh3 (content @ to_le_bytes (state_artifact_checksum xxh3 content))
           = Ok artifacts"
proof -
  have "\<not> STATE_MANIFEST_ENTRIES_MAX < of_nat n"
    using assms(2) by (simp add: word_less_nat_alt)
  moreover have "lc_u8 (entry_len # body) = Ok (entry_len, body)"
    using lc_get_put(1) [of entry_len body] by simp
  moreover have "\<not> entry_len < STATE_MANIFEST_ENTRY_LEN"
    using assms(3) by simp
  moreover have "lc_take 4 content = Ok (STATE_MANIFEST_MAGIC, to_le_bytes (of_nat n :: u32) @ entry_len # body)"
    by (simp add: content)
  ultimately show ?thesis
    using assms(1,2) by (simp add: decode_state_manifest_def)
qed

section \<open>Properties\<close>

text \<open>
  C20: the round trip of the manifest. Encoding fails (the assertion of
  \<open>encode_state_manifest\<close>) exactly when there are more artifacts than the format can carry;
  otherwise decoding the encoding gives back the same artifacts in the same order, whatever the
  hash function is.
\<close>

theorem manifest_roundtrip:
  "case encode_state_manifest xxh3 artifacts of
     None \<Rightarrow> unat STATE_MANIFEST_ENTRIES_MAX < length artifacts
   | Some bs \<Rightarrow> decode_state_manifest xxh3 bs = Ok artifacts"
proof (cases "length artifacts \<le> 65536")
  case True
  have entries: "read_n (get_entry STATE_MANIFEST_ENTRY_LEN) (length artifacts)
      (concat (map put_artifact artifacts)) = Ok (artifacts, [])"
    using artifact_codec.read_n_put [of artifacts "length artifacts" "[]"] by simp
  from True show ?thesis
    using decode_content [OF entries True order_refl refl, of xxh3]
    by (simp add: encode_state_manifest_def Let_def)
next
  case False
  then show ?thesis
    by (simp add: encode_state_manifest_def)
qed

text \<open>
  C21: what the decoder accepts. A byte string decodes to \<open>artifacts\<close> exactly when it is a
  manifest in the wire format whose entries carry these artifacts, each followed by a tail of
  unknown fields of the declared entry length. So entries a later version extends decode to the
  fields this version knows, and nothing that is truncated, over-long, mis-stamped or padded is
  accepted.
\<close>

theorem manifest_decode_iff:
  "decode_state_manifest xxh3 bs = Ok artifacts \<longleftrightarrow>
     (\<exists>entry_len entries.
        bs = manifest_format xxh3 entry_len entries \<and> map fst entries = artifacts \<and>
        STATE_MANIFEST_ENTRY_LEN \<le> entry_len \<and>
        length entries \<le> unat STATE_MANIFEST_ENTRIES_MAX \<and>
        list_all (\<lambda>(a, tail). unat entry_len = unat STATE_MANIFEST_ENTRY_LEN + length tail) entries)"
    (is "?decodes \<longleftrightarrow> (\<exists>entry_len entries. ?format entry_len entries)")
proof
  assume ?decodes
  then obtain content count entry_len body where
      split: "split_verified_trailer (state_artifact_checksum xxh3) bs = Ok content"
      and content: "content = STATE_MANIFEST_MAGIC @ to_le_bytes count @ entry_len # body"
      and count: "\<not> STATE_MANIFEST_ENTRIES_MAX < count" "\<not> entry_len < STATE_MANIFEST_ENTRY_LEN"
      and read: "read_n (get_entry entry_len) (unat count) body = Ok (artifacts, [])"
    by (auto simp: decode_state_manifest_def rbind_eq_Ok lc_take_eq_Ok
        split: if_splits dest!: lc_put_get)
  from read_entries_exact [OF read] obtain entries where
      entries: "map fst entries = artifacts" "length entries = unat count"
      "\<forall>(a, tail) \<in> set entries. unat entry_len = 25 + length tail"
      "body = concat (map (\<lambda>(a, tail). put_artifact a @ tail) entries)"
    by auto
  then have "content = manifest_content entry_len entries"
    by (simp add: content manifest_content_def)
  with split_verified_trailer_exact [OF split]
  have "bs = manifest_format xxh3 entry_len entries"
    by (simp add: manifest_format_def)
  with entries count have "?format entry_len entries"
    by (auto simp: list_all_iff word_less_nat_alt word_le_nat_alt)
  then show "\<exists>entry_len entries. ?format entry_len entries" by blast
next
  assume "\<exists>entry_len entries. ?format entry_len entries"
  then obtain entry_len entries where bs: "bs = manifest_format xxh3 entry_len entries"
      and art: "map fst entries = artifacts" and len: "length entries \<le> 65536"
      and known: "STATE_MANIFEST_ENTRY_LEN \<le> entry_len"
      and tails: "\<forall>(a, tail) \<in> set entries. unat entry_len = 25 + length tail"
    by (auto simp: list_all_iff)
  from tails have read: "read_n (get_entry entry_len) (length entries)
      (concat (map (\<lambda>(a, tail). put_artifact a @ tail) entries)) = Ok (artifacts, [])"
    using read_entries_put [of entries entry_len "[]"] art by auto
  show ?decodes
    using decode_content [OF read len known refl, of xxh3]
    by (simp add: bs manifest_format_def manifest_content_def)
qed

end
