(* ===== verification/State_Transfer.thy ===== *)
theory State_Transfer
  imports State_Manifest
begin

text \<open>
  The receiver side of a state transfer (\<open>src/core/consensus/src/state_transfer.rs\<close>): the chunk
  cursor that picks the next request, the guards on a received chunk, and the final check of an
  artifact against its manifest entry. The trait \<open>ChunkProgress\<close>, which both planes implement, is
  the locale \<open>chunk_progress\<close>; \<open>ArtifactProgress\<close> is its interpretation here. The last theorem
  composes the functions into a whole session against a peer that serves the manifest's bytes.
\<close>

section \<open>The model\<close>

definition STATE_TRANSFER_MAX_STALL_RETRIES :: u32 where
  "STATE_TRANSFER_MAX_STALL_RETRIES = 5"

definition STATE_TRANSFER_MAX_DECODE_RETRIES :: u32 where
  "STATE_TRANSFER_MAX_DECODE_RETRIES = 5"

record ArtifactProgress =
  ap_entry :: StateArtifact
  ap_buf :: bytes

definition declared_len :: "ArtifactProgress \<Rightarrow> u64" where
  "declared_len a = sa_len (ap_entry a)"

definition received_len :: "ArtifactProgress \<Rightarrow> u64" where
  "received_len a = of_nat (length (ap_buf a))"

definition extend_from_chunk :: "bytes \<Rightarrow> ArtifactProgress \<Rightarrow> ArtifactProgress" where
  "extend_from_chunk payload a = a\<lparr>ap_buf := ap_buf a @ payload\<rparr>"

text \<open>
  The functions below are generic over the trait, so its methods are arguments: \<open>declared\<close>,
  \<open>received\<close> and \<open>push\<close>. The trait's \<open>complete\<close> has this default body. Reserving capacity
  (\<open>reserve_declared\<close>) changes no observable state.
\<close>

definition complete :: "('a \<Rightarrow> u64) \<Rightarrow> ('a \<Rightarrow> u64) \<Rightarrow> 'a \<Rightarrow> bool" where
  "complete declared received a \<longleftrightarrow> received a = declared a"

definition next_pending_chunk ::
    "('a \<Rightarrow> u64) \<Rightarrow> ('a \<Rightarrow> u64) \<Rightarrow> 'a list \<Rightarrow> u64 \<Rightarrow> (u32 \<times> u64 \<times> u32) option" where
  "next_pending_chunk declared received artifacts chunk_len_max =
     (case position (\<lambda>a. \<not> complete declared received a) artifacts of
        None \<Rightarrow> None
      | Some index \<Rightarrow>
          let artifact = artifacts ! index;
              offset = received artifact;
              remaining = declared artifact - offset;
              len = ucast (min remaining chunk_len_max)
          in Some (of_nat index, offset, len))"

definition append_chunk ::
    "('a \<Rightarrow> u64) \<Rightarrow> ('a \<Rightarrow> u64) \<Rightarrow> (bytes \<Rightarrow> 'a \<Rightarrow> 'a) \<Rightarrow>
     'a list \<Rightarrow> u32 \<Rightarrow> u64 \<Rightarrow> bytes \<Rightarrow> 'a list \<times> bool" where
  "append_chunk declared received push artifacts artifact_index offset payload =
     (if position (\<lambda>a. \<not> complete declared received a) artifacts \<noteq> Some (unat artifact_index)
      then (artifacts, False)
      else case get_at artifacts (unat artifact_index) of
        None \<Rightarrow> (artifacts, False)
      | Some artifact \<Rightarrow>
          if offset \<noteq> received artifact then (artifacts, False)
          else if received artifact + of_nat (length payload) > declared artifact
            then (artifacts, False)
          else if payload = [] then (artifacts, False)
          else (artifacts[unat artifact_index := push payload artifact], True))"

definition verify_state_artifact :: "(bytes \<Rightarrow> u64) \<Rightarrow> StateArtifact \<Rightarrow> bytes \<Rightarrow> bool" where
  "verify_state_artifact xxh3 entry bs \<longleftrightarrow>
     of_nat (length bs) = sa_len entry \<and> state_artifact_checksum xxh3 bs = sa_checksum entry"

section \<open>The progress contract\<close>

text \<open>
  What a slot promises the cursor: a chunk adds its length to what was received and leaves the
  declared length alone. The total number of bytes still missing is the measure of a session.
\<close>

definition missing :: "('a \<Rightarrow> u64) \<Rightarrow> ('a \<Rightarrow> u64) \<Rightarrow> 'a list \<Rightarrow> nat" where
  "missing declared received artifacts =
     (\<Sum>a \<leftarrow> artifacts. unat (declared a) - unat (received a))"

lemma missing_append [simp]:
  "missing declared received (xs @ ys) =
     missing declared received xs + missing declared received ys"
  by (simp add: missing_def)

lemma missing_Cons [simp]:
  "missing declared received (a # as) =
     unat (declared a) - unat (received a) + missing declared received as"
  by (simp add: missing_def)

locale chunk_progress =
  fixes declared :: "'a \<Rightarrow> u64"
    and received :: "'a \<Rightarrow> u64"
    and push :: "bytes \<Rightarrow> 'a \<Rightarrow> 'a"
  assumes declared_extend: "declared (push p a) = declared a"
    and received_extend: "received (push p a) = received a + of_nat (length p)"
begin

text \<open>Only the requested frame lands: every other one leaves the session as it was.\<close>

lemma append_chunk_True_iff:
  "snd (append_chunk declared received push as i off p) \<longleftrightarrow>
     position (\<lambda>a. \<not> complete declared received a) as = Some (unat i) \<and>
     off = received (as ! unat i) \<and>
     received (as ! unat i) + of_nat (length p) \<le> declared (as ! unat i) \<and> p \<noteq> []"
  by (auto simp: append_chunk_def get_at_def position_eq_Some linorder_not_less [where 'a = u64] split: option.splits)

lemma append_chunk_False:
  "\<not> snd (append_chunk declared received push as i off p) \<Longrightarrow>
     fst (append_chunk declared received push as i off p) = as"
  by (auto simp: append_chunk_def split: option.splits if_splits)

lemma append_chunk_True:
  assumes "snd (append_chunk declared received push as i off p)"
  shows "fst (append_chunk declared received push as i off p) =
           as[unat i := push p (as ! unat i)]"
    and "unat i < length as"
  using assms
  by (auto simp: append_chunk_def get_at_def position_eq_Some split: option.splits if_splits)

lemma missing_update:
  assumes "i < length as"
    and "unat (received (as ! i)) + length p \<le> unat (declared (as ! i))"
  shows "missing declared received (as[i := push p (as ! i)]) + length p =
           missing declared received as"
proof -
  have "unat (declared (as ! i)) < 2 ^ 64"
    using unsigned_less [of "declared (as ! i)"] by simp
  with assms(2) have "unat (received (as ! i) + of_nat (length p)) = unat (received (as ! i)) + length p"
    by (simp add: unat_word_ariths unat_of_nat)
  moreover have "as = take i as @ as ! i # drop (Suc i) as"
    using assms(1) by (rule id_take_nth_drop)
  then have "missing declared received as = missing declared received (take i as) +
      (unat (declared (as ! i)) - unat (received (as ! i))) + missing declared received (drop (Suc i) as)"
    by (metis add.assoc missing_Cons missing_append)
  ultimately show ?thesis
    using assms by (simp add: upd_conv_take_nth_drop declared_extend received_extend)
qed

text \<open>The answer to the pending request always lands, and brings the session forward.\<close>

lemma requested_chunk_lands:
  assumes pending: "next_pending_chunk declared received as m = Some (i, off, len)"
    and slots: "length as \<le> 2 ^ 32" and chunk: "0 < m" "unat m < 2 ^ 32"
    and sane: "\<And>a. a \<in> set as \<Longrightarrow> received a \<le> declared a"
  shows "0 < unat len" and "unat i < length as" and "off = received (as ! unat i)"
    and "unat off + unat len \<le> unat (declared (as ! unat i))"
    and "0 < length p \<Longrightarrow> length p \<le> unat len \<Longrightarrow>
           snd (append_chunk declared received push as i off p)"
proof -
  from pending obtain j where
      pos: "position (\<lambda>a. \<not> complete declared received a) as = Some j"
      and i: "i = of_nat j" and off: "off = received (as ! j)"
      and len: "len = ucast (min (declared (as ! j) - received (as ! j)) m)"
    by (auto simp: next_pending_chunk_def Let_def split: option.splits)
  from pos have j: "j < length as" and incomplete: "received (as ! j) \<noteq> declared (as ! j)"
    by (auto simp: position_eq_Some complete_def)
  with slots i have ij: "unat i = j"
    by (simp add: unat_of_nat)
  from j sane have le: "received (as ! j) \<le> declared (as ! j)"
    by simp
  then have rem: "unat (declared (as ! j) - received (as ! j)) =
      unat (declared (as ! j)) - unat (received (as ! j))"
    by (rule unat_sub)
  have "unat (min (declared (as ! j) - received (as ! j)) m) =
      min (unat (declared (as ! j)) - unat (received (as ! j))) (unat m)"
    by (simp add: min_def word_le_nat_alt rem)
  moreover from this chunk(2) have "unat (min (declared (as ! j) - received (as ! j)) m) < 2 ^ 32"
    by simp
  ultimately have l: "unat len = min (unat (declared (as ! j)) - unat (received (as ! j))) (unat m)"
    by (simp add: len unat_ucast_mod)
  from le incomplete have "unat (received (as ! j)) < unat (declared (as ! j))"
    by (metis le_neq_implies_less word_le_nat_alt word_unat_eq_iff)
  moreover from chunk(1) have "0 < unat m"
    by (simp add: word_less_nat_alt)
  ultimately show "0 < unat len"
    by (simp add: l)
  show "unat i < length as" "off = received (as ! unat i)"
    using ij j off by simp_all
  show bound: "unat off + unat len \<le> unat (declared (as ! unat i))"
    using l le ij off by (simp add: word_le_nat_alt)
  assume "0 < length p" "length p \<le> unat len"
  moreover from this bound have "received (as ! j) + of_nat (length p) \<le> declared (as ! j)"
    using ij off unsigned_less [of "declared (as ! j)"]
    by (simp add: word_le_nat_alt unat_word_ariths unat_of_nat)
  ultimately show "snd (append_chunk declared received push as i off p)"
    using pos ij off by (simp add: append_chunk_True_iff)
qed

end

interpretation artifact_progress: chunk_progress declared_len received_len extend_from_chunk
  by unfold_locales (simp_all add: declared_len_def received_len_def extend_from_chunk_def)

section \<open>A whole session\<close>

text \<open>
  A round of a session: ask for the pending chunk and append what the peer serves, the slice of
  the artifact's bytes that the request names. The session starts from the manifest entries
  with empty buffers.
\<close>

definition serve_chunk :: "bytes list \<Rightarrow> u32 \<Rightarrow> u64 \<Rightarrow> u32 \<Rightarrow> bytes" where
  "serve_chunk contents i off len = take (unat len) (drop (unat off) (contents ! unat i))"

definition pull_round :: "bytes list \<Rightarrow> u64 \<Rightarrow> ArtifactProgress list \<Rightarrow> ArtifactProgress list" where
  "pull_round contents m as =
     (case next_pending_chunk declared_len received_len as m of
        None \<Rightarrow> as
      | Some (i, off, len) \<Rightarrow>
          fst (append_chunk declared_len received_len extend_from_chunk as i off
                 (serve_chunk contents i off len)))"

fun pull_rounds :: "nat \<Rightarrow> bytes list \<Rightarrow> u64 \<Rightarrow> ArtifactProgress list \<Rightarrow> ArtifactProgress list" where
  "pull_rounds 0 contents m as = as"
| "pull_rounds (Suc n) contents m as = pull_rounds n contents m (pull_round contents m as)"

text \<open>The session invariant: every buffer holds a prefix of its artifact.\<close>

definition in_step :: "bytes \<Rightarrow> ArtifactProgress \<Rightarrow> bool" where
  "in_step c a \<longleftrightarrow> length c < 2 ^ 64 \<and> declared_len a = of_nat (length c) \<and>
     length (ap_buf a) \<le> length c \<and> take (length (ap_buf a)) c = ap_buf a"

lemma in_stepD:
  assumes "in_step c a"
  shows "unat (declared_len a) = length c" and "unat (received_len a) = length (ap_buf a)"
    and "received_len a \<le> declared_len a"
  using assms by (auto simp: in_step_def received_len_def unat_of_nat word_le_nat_alt)

lemma in_step_extend:
  assumes "in_step c a" and "n \<le> length c - length (ap_buf a)"
  shows "in_step c (extend_from_chunk (take n (drop (length (ap_buf a)) c)) a)"
proof -
  from assms have "ap_buf a @ take n (drop (length (ap_buf a)) c) = take (length (ap_buf a) + n) c"
    by (simp add: in_step_def take_add)
  with assms show ?thesis
    by (auto simp: in_step_def extend_from_chunk_def declared_len_def min_absorb2)
qed

lemma in_step_sane:
  "list_all2 in_step contents as \<Longrightarrow> a \<in> set as \<Longrightarrow> received_len a \<le> declared_len a"
  by (metis in_stepD(3) in_set_conv_nth list_all2_conv_all_nth)

lemma next_pending_None:
  "next_pending_chunk declared received as m = None \<Longrightarrow>
     a \<in> set as \<Longrightarrow> received a = declared a"
  by (auto simp: next_pending_chunk_def Let_def complete_def position_eq_None split: option.splits)

lemma pull_round_step:
  assumes inv: "list_all2 in_step contents as"
    and slots: "length contents \<le> 2 ^ 32" and chunk: "0 < m" "unat m < 2 ^ 32"
  shows "list_all2 in_step contents (pull_round contents m as)"
    and "map ap_entry (pull_round contents m as) = map ap_entry as"
    and "missing declared_len received_len (pull_round contents m as)
           \<le> missing declared_len received_len as - 1"
proof -
  let ?mi = "missing declared_len received_len"
  have "list_all2 in_step contents (pull_round contents m as) \<and>
      map ap_entry (pull_round contents m as) = map ap_entry as \<and>
      ?mi (pull_round contents m as) \<le> ?mi as - 1"
  proof (cases "next_pending_chunk declared_len received_len as m")
    case None
    then have "?mi as = 0"
      by (auto simp: missing_def dest: next_pending_None)
    with inv None show ?thesis
      by (simp add: pull_round_def)
  next
    case (Some r)
    then obtain i off len where
        pending: "next_pending_chunk declared_len received_len as m = Some (i, off, len)"
      by (cases r) auto
    let ?a = "as ! unat i" and ?c = "contents ! unat i" and ?p = "serve_chunk contents i off len"
    from inv slots have slots': "length as \<le> 2 ^ 32"
      by (simp add: list_all2_lengthD)
    note lands = artifact_progress.requested_chunk_lands
      [OF pending slots' chunk in_step_sane [OF inv], simplified]
    from inv lands(2) have step: "in_step ?c ?a"
      by (simp add: list_all2_nthD2)
    note nats = in_stepD [OF step]
    have fits: "length (ap_buf ?a) + unat len \<le> length ?c"
      using lands(3,4) nats by simp
    have p: "?p = take (unat len) (drop (length (ap_buf ?a)) ?c)"
      using lands(3) nats by (simp add: serve_chunk_def)
    have plen: "length ?p = unat len"
      using p fits by simp
    have ok: "snd (append_chunk declared_len received_len extend_from_chunk as i off ?p)"
      using plen lands(1) by (intro lands(5)) auto
    have round: "pull_round contents m as = as[unat i := extend_from_chunk ?p ?a]"
      using artifact_progress.append_chunk_True(1) [OF ok] pending by (simp add: pull_round_def)
    have "in_step ?c (extend_from_chunk ?p ?a)"
      unfolding p using step fits by (intro in_step_extend) auto
    then have "list_all2 in_step contents (pull_round contents m as)"
      unfolding round using list_all2_update_cong [OF inv, of ?c _ "unat i"] by simp
    moreover have "map ap_entry (pull_round contents m as) = map ap_entry as"
      unfolding round using list_update_id [of "map ap_entry as" "unat i"] lands(2)
      by (simp add: map_update extend_from_chunk_def)
    moreover have "?mi (pull_round contents m as) + unat len = ?mi as"
      unfolding round plen [symmetric] using lands(2) fits nats plen
      by (intro artifact_progress.missing_update) simp_all
    ultimately show ?thesis
      using lands(1) by auto
  qed
  then show "list_all2 in_step contents (pull_round contents m as)"
    and "map ap_entry (pull_round contents m as) = map ap_entry as"
    and "?mi (pull_round contents m as) \<le> ?mi as - 1"
    by blast+
qed

lemma pull_rounds_done:
  assumes "list_all2 in_step contents as"
    and "length contents \<le> 2 ^ 32" and "0 < m" "unat m < 2 ^ 32"
    and "missing declared_len received_len as \<le> n"
  shows "list_all2 in_step contents (pull_rounds n contents m as) \<and>
    map ap_entry (pull_rounds n contents m as) = map ap_entry as \<and>
    missing declared_len received_len (pull_rounds n contents m as) = 0"
  using assms
proof (induction n arbitrary: as)
  case (Suc n)
  note step = pull_round_step [OF Suc.prems(1-4)]
  have "missing declared_len received_len (pull_round contents m as) \<le> n"
    using step(3) Suc.prems(5) by linarith
  from Suc.IH [OF step(1) Suc.prems(2-4) this] step(2) show ?case
    by simp
qed simp

lemma in_step_complete:
  assumes "list_all2 in_step contents as" and "missing declared_len received_len as = 0"
  shows "map ap_buf as = contents"
  using assms
proof (induction rule: list_all2_induct)
  case (Cons c cs a as)
  then have "in_step c a" and "length c \<le> length (ap_buf a)"
    by (auto simp: in_stepD)
  then have "ap_buf a = c"
    unfolding in_step_def by (metis take_all)
  with Cons show ?case
    by simp
qed simp

definition session_start :: "(bytes \<Rightarrow> u64) \<Rightarrow> (u8 \<times> u64 \<times> bytes) list \<Rightarrow> ArtifactProgress list" where
  "session_start xxh3 arts =
     map (\<lambda>(k, f, c). \<lparr>ap_entry = for_bytes xxh3 k f c, ap_buf = []\<rparr>) arts"

definition session_contents :: "(u8 \<times> u64 \<times> bytes) list \<Rightarrow> bytes list" where
  "session_contents arts = map (\<lambda>(k, f, c). c) arts"

lemma length_session_contents [simp]: "length (session_contents arts) = length arts"
  by (simp add: session_contents_def)

lemma session_start_in_step:
  "list_all (\<lambda>(k, f, c). length c < 2 ^ 64) arts \<Longrightarrow>
     list_all2 in_step (session_contents arts) (session_start xxh3 arts)"
  by (induction arts)
    (auto simp: session_start_def session_contents_def in_step_def declared_len_def for_bytes_def)

lemma session_start_missing:
  "list_all (\<lambda>(k, f, c). length c < 2 ^ 64) arts \<Longrightarrow>
     missing declared_len received_len (session_start xxh3 arts) =
       sum_list (map length (session_contents arts))"
  by (induction arts)
    (auto simp: session_start_def session_contents_def declared_len_def received_len_def
      for_bytes_def unat_of_nat missing_def)

lemma in_step_no_pending:
  assumes "list_all2 in_step contents as" and "missing declared_len received_len as = 0"
  shows "next_pending_chunk declared_len received_len as m = None"
proof -
  have "received_len a = declared_len a" if "a \<in> set as" for a
    using in_step_sane [OF assms(1) that] assms(2) that
    by (auto simp: missing_def word_le_nat_alt word_unat_eq_iff)
  then have "position (\<lambda>a. \<not> complete declared_len received_len a) as = None"
    by (simp add: position_eq_None complete_def)
  then show ?thesis
    by (simp add: next_pending_chunk_def)
qed

lemma verify_session:
  assumes "map ap_entry as = map ap_entry (map (\<lambda>(k, f, c). \<lparr>ap_entry = for_bytes xxh3 k f c, ap_buf = []\<rparr>) arts)"
    and "map ap_buf as = map (\<lambda>(k, f, c). c) arts"
  shows "list_all (\<lambda>a. verify_state_artifact xxh3 (ap_entry a) (ap_buf a)) as"
  using assms
  by (induction as arbitrary: arts)
    (auto simp: verify_state_artifact_def for_bytes_def Cons_eq_map_conv)

text \<open>
  C11. A state transfer completes. Let a peer offer artifacts through a manifest whose entries
  describe their bytes (\<open>StateArtifact::for_bytes\<close>), and let the receiver start with empty buffers
  and pull chunks of any positive size that fits the request's 32-bit length. Then after at most
  as many rounds as there are bytes there is no pending chunk, every buffer equals the peer's
  bytes, and every artifact passes \<open>verify_state_artifact\<close> against its manifest entry.
\<close>

theorem transfer_completes:
  assumes sizes: "list_all (\<lambda>(k, f, c). length c < 2 ^ 64) arts" "length arts \<le> 2 ^ 32"
    and chunk: "0 < m" "unat m < 2 ^ 32"
    and enough: "sum_list (map length (session_contents arts)) \<le> n"
  shows "let final = pull_rounds n (session_contents arts) m (session_start xxh3 arts)
    in next_pending_chunk declared_len received_len final m = None \<and>
       map ap_buf final = session_contents arts \<and>
       list_all (\<lambda>a. verify_state_artifact xxh3 (ap_entry a) (ap_buf a)) final"
proof -
  define final where "final = pull_rounds n (session_contents arts) m (session_start xxh3 arts)"
  have "list_all2 in_step (session_contents arts) final \<and>
      map ap_entry final = map ap_entry (session_start xxh3 arts) \<and>
      missing declared_len received_len final = 0"
    unfolding final_def using sizes chunk enough
    by (intro pull_rounds_done) (simp_all add: session_start_in_step session_start_missing)
  then have step: "list_all2 in_step (session_contents arts) final"
    and entries: "map ap_entry final = map ap_entry (session_start xxh3 arts)"
    and none: "missing declared_len received_len final = 0"
    by blast+
  have bufs: "map ap_buf final = session_contents arts"
    using step none by (rule in_step_complete)
  have "next_pending_chunk declared_len received_len final m = None"
    using step none by (rule in_step_no_pending)
  moreover have "list_all (\<lambda>a. verify_state_artifact xxh3 (ap_entry a) (ap_buf a)) final"
    using entries bufs unfolding session_start_def session_contents_def
    by (rule verify_session)
  ultimately show ?thesis
    using bufs by (simp add: final_def Let_def)
qed

theorem transfer_completes_witness:
  "let arts = [(1, 7, [1, 2, 3]), (4, 7, []), (2, 9, [5])];
       final = pull_rounds 4 (session_contents arts) 2 (session_start (\<lambda>_. 0) arts)
   in next_pending_chunk declared_len received_len final 2 = None \<and>
      map ap_buf final = session_contents arts \<and>
      list_all (\<lambda>a. verify_state_artifact (\<lambda>_. 0) (ap_entry a) (ap_buf a)) final"
  unfolding Let_def
  by (rule transfer_completes [unfolded Let_def]) (simp_all add: session_contents_def)

end
