(* ===== verification/Vsr_Timeout.thy ===== *)
theory Vsr_Timeout
  imports Iggy_Base
begin

text \<open>
  The tick-driven timers of a replica (\<open>src/core/consensus/src/vsr_timeout.rs\<close>): one countdown
  with jittered exponential backoff, and the manager that holds the seven countdowns of a replica
  with their generator. The generator (\<open>rand_xoshiro\<close>) is the parameter \<open>random_range\<close>, which
  draws from \<open>0..=b\<close> and steps the generator's state, of any type.
\<close>

section \<open>One timeout\<close>

definition TICK_INTERVAL_MILLIS :: nat where
  "TICK_INTERVAL_MILLIS = 10"

record Timeout =
  to_id :: u128
  after :: u64
  ticks_remaining :: u64
  ticking :: bool
  attempts :: u32

definition timeout_new :: "u128 \<Rightarrow> u64 \<Rightarrow> Timeout" where
  "timeout_new i a =
     \<lparr>to_id = i, after = a, ticks_remaining = 0, ticking = False, attempts = 0\<rparr>"

definition timeout_start :: "Timeout \<Rightarrow> Timeout" where
  "timeout_start t = t\<lparr>ticks_remaining := after t, ticking := True, attempts := 0\<rparr>"

definition timeout_stop :: "Timeout \<Rightarrow> Timeout" where
  "timeout_stop t = t\<lparr>ticking := False, ticks_remaining := 0, attempts := 0\<rparr>"

text \<open>
  \<open>reset\<close> as a release build runs it: its \<open>debug_assert\<close> that the timer is ticking is not part of
  the effect, and leaves a stopped timer stopped.
\<close>

definition timeout_reset :: "Timeout \<Rightarrow> Timeout" where
  "timeout_reset t = t\<lparr>ticks_remaining := after t, attempts := 0\<rparr>"

definition timeout_tick :: "Timeout \<Rightarrow> Timeout" where
  "timeout_tick t =
     (if ticking t then t\<lparr>ticks_remaining := saturating_sub (ticks_remaining t) 1\<rparr> else t)"

definition timeout_fired :: "Timeout \<Rightarrow> bool" where
  "timeout_fired t \<longleftrightarrow> ticking t \<and> ticks_remaining t = 0"

definition timeout_backoff :: "(u64 \<Rightarrow> 'g \<Rightarrow> u64 \<times> 'g) \<Rightarrow> 'g \<Rightarrow> Timeout \<Rightarrow> Timeout \<times> 'g" where
  "timeout_backoff random_range g t =
     (let attempts' = attempts t + 1;
          max_backoff = saturating_mul (after t) 16;
          shift = min attempts' 4;
          backoff = min (saturating_mul (after t) (push_bit (unat shift) 1)) max_backoff;
          (jitter, g') = random_range backoff g
      in (t\<lparr>attempts := attempts', ticks_remaining := saturating_add backoff jitter\<rparr>, g'))"

section \<open>The timers of a replica\<close>

datatype TimeoutKind =
    Prepare
  | CommitMessage
  | NormalHeartbeat
  | StartViewChangeMessage
  | ViewChangeStatus
  | DoViewChangeMessage
  | RequestStartViewMessage

record 'g TimeoutManager =
  tm_prepare :: Timeout
  tm_commit_message :: Timeout
  tm_normal_heartbeat :: Timeout
  tm_start_view_change_message :: Timeout
  tm_do_view_change_message :: Timeout
  tm_view_change_status :: Timeout
  tm_request_start_view_message :: Timeout
  tm_prng :: 'g

definition PREPARE_TICKS :: u64 where "PREPARE_TICKS = 25"
definition COMMIT_MESSAGE_TICKS :: u64 where "COMMIT_MESSAGE_TICKS = 50"
definition NORMAL_HEARTBEAT_TICKS :: u64 where "NORMAL_HEARTBEAT_TICKS = 500"
definition START_VIEW_CHANGE_MESSAGE_TICKS :: u64 where "START_VIEW_CHANGE_MESSAGE_TICKS = 50"
definition VIEW_CHANGE_STATUS_TICKS :: u64 where "VIEW_CHANGE_STATUS_TICKS = 500"
definition DO_VIEW_CHANGE_MESSAGE_TICKS :: u64 where "DO_VIEW_CHANGE_MESSAGE_TICKS = 50"
definition REQUEST_START_VIEW_MESSAGE_TICKS :: u64 where "REQUEST_START_VIEW_MESSAGE_TICKS = 100"

definition tm_new :: "(u64 \<Rightarrow> 'g) \<Rightarrow> u128 \<Rightarrow> 'g TimeoutManager" where
  "tm_new seed_from_u64 replica_id =
     \<lparr>tm_prepare = timeout_new replica_id PREPARE_TICKS,
      tm_commit_message = timeout_new replica_id COMMIT_MESSAGE_TICKS,
      tm_normal_heartbeat = timeout_new replica_id NORMAL_HEARTBEAT_TICKS,
      tm_start_view_change_message = timeout_new replica_id START_VIEW_CHANGE_MESSAGE_TICKS,
      tm_do_view_change_message = timeout_new replica_id DO_VIEW_CHANGE_MESSAGE_TICKS,
      tm_view_change_status = timeout_new replica_id VIEW_CHANGE_STATUS_TICKS,
      tm_request_start_view_message = timeout_new replica_id REQUEST_START_VIEW_MESSAGE_TICKS,
      tm_prng = seed_from_u64 (ucast replica_id)\<rparr>"

definition tm_get :: "'g TimeoutManager \<Rightarrow> TimeoutKind \<Rightarrow> Timeout" where
  "tm_get m kind =
     (case kind of
        Prepare \<Rightarrow> tm_prepare m
      | CommitMessage \<Rightarrow> tm_commit_message m
      | NormalHeartbeat \<Rightarrow> tm_normal_heartbeat m
      | StartViewChangeMessage \<Rightarrow> tm_start_view_change_message m
      | ViewChangeStatus \<Rightarrow> tm_view_change_status m
      | DoViewChangeMessage \<Rightarrow> tm_do_view_change_message m
      | RequestStartViewMessage \<Rightarrow> tm_request_start_view_message m)"

text \<open>\<open>get_mut\<close> hands out a mutable reference; here it applies the change \<open>f\<close> made through it.\<close>

definition tm_get_mut :: "TimeoutKind \<Rightarrow> (Timeout \<Rightarrow> Timeout) \<Rightarrow> 'g TimeoutManager \<Rightarrow> 'g TimeoutManager" where
  "tm_get_mut kind f m =
     (case kind of
        Prepare \<Rightarrow> m\<lparr>tm_prepare := f (tm_prepare m)\<rparr>
      | CommitMessage \<Rightarrow> m\<lparr>tm_commit_message := f (tm_commit_message m)\<rparr>
      | NormalHeartbeat \<Rightarrow> m\<lparr>tm_normal_heartbeat := f (tm_normal_heartbeat m)\<rparr>
      | StartViewChangeMessage \<Rightarrow>
          m\<lparr>tm_start_view_change_message := f (tm_start_view_change_message m)\<rparr>
      | ViewChangeStatus \<Rightarrow> m\<lparr>tm_view_change_status := f (tm_view_change_status m)\<rparr>
      | DoViewChangeMessage \<Rightarrow> m\<lparr>tm_do_view_change_message := f (tm_do_view_change_message m)\<rparr>
      | RequestStartViewMessage \<Rightarrow>
          m\<lparr>tm_request_start_view_message := f (tm_request_start_view_message m)\<rparr>)"

definition set_normal_heartbeat_ticks :: "u64 \<Rightarrow> 'g TimeoutManager \<Rightarrow> 'g TimeoutManager" where
  "set_normal_heartbeat_ticks ticks m =
     m\<lparr>tm_normal_heartbeat := timeout_new (to_id (tm_normal_heartbeat m)) ticks\<rparr>"

definition set_commit_message_ticks :: "u64 \<Rightarrow> 'g TimeoutManager \<Rightarrow> 'g TimeoutManager" where
  "set_commit_message_ticks ticks m =
     m\<lparr>tm_commit_message := timeout_new (to_id (tm_commit_message m)) ticks\<rparr>"

definition set_prepare_ticks :: "u64 \<Rightarrow> 'g TimeoutManager \<Rightarrow> 'g TimeoutManager" where
  "set_prepare_ticks ticks m = m\<lparr>tm_prepare := timeout_new (to_id (tm_prepare m)) ticks\<rparr>"

definition set_view_change_retransmit_ticks :: "u64 \<Rightarrow> 'g TimeoutManager \<Rightarrow> 'g TimeoutManager" where
  "set_view_change_retransmit_ticks ticks m =
     m\<lparr>tm_start_view_change_message := timeout_new (to_id (tm_start_view_change_message m)) ticks,
       tm_do_view_change_message := timeout_new (to_id (tm_do_view_change_message m)) ticks\<rparr>"

definition set_view_change_status_ticks :: "u64 \<Rightarrow> 'g TimeoutManager \<Rightarrow> 'g TimeoutManager" where
  "set_view_change_status_ticks ticks m =
     m\<lparr>tm_view_change_status := timeout_new (to_id (tm_view_change_status m)) ticks\<rparr>"

definition set_request_start_view_ticks :: "u64 \<Rightarrow> 'g TimeoutManager \<Rightarrow> 'g TimeoutManager" where
  "set_request_start_view_ticks ticks m =
     m\<lparr>tm_request_start_view_message := timeout_new (to_id (tm_request_start_view_message m)) ticks\<rparr>"

definition tm_tick :: "'g TimeoutManager \<Rightarrow> 'g TimeoutManager" where
  "tm_tick m =
     m\<lparr>tm_prepare := timeout_tick (tm_prepare m),
       tm_commit_message := timeout_tick (tm_commit_message m),
       tm_normal_heartbeat := timeout_tick (tm_normal_heartbeat m),
       tm_start_view_change_message := timeout_tick (tm_start_view_change_message m),
       tm_do_view_change_message := timeout_tick (tm_do_view_change_message m),
       tm_request_start_view_message := timeout_tick (tm_request_start_view_message m),
       tm_view_change_status := timeout_tick (tm_view_change_status m)\<rparr>"

definition tm_fired :: "'g TimeoutManager \<Rightarrow> TimeoutKind \<Rightarrow> bool" where
  "tm_fired m kind = timeout_fired (tm_get m kind)"

definition tm_start :: "TimeoutKind \<Rightarrow> 'g TimeoutManager \<Rightarrow> 'g TimeoutManager" where
  "tm_start kind m = tm_get_mut kind timeout_start m"

definition tm_stop :: "TimeoutKind \<Rightarrow> 'g TimeoutManager \<Rightarrow> 'g TimeoutManager" where
  "tm_stop kind m = tm_get_mut kind timeout_stop m"

definition tm_reset :: "TimeoutKind \<Rightarrow> 'g TimeoutManager \<Rightarrow> 'g TimeoutManager" where
  "tm_reset kind m = tm_get_mut kind timeout_reset m"

definition tm_backoff ::
    "(u64 \<Rightarrow> 'g \<Rightarrow> u64 \<times> 'g) \<Rightarrow> TimeoutKind \<Rightarrow> 'g TimeoutManager \<Rightarrow> 'g TimeoutManager" where
  "tm_backoff random_range kind m =
     (let (timeout, g) = timeout_backoff random_range (tm_prng m) (tm_get m kind)
      in (tm_get_mut kind (\<lambda>_. timeout) m)\<lparr>tm_prng := g\<rparr>)"

definition tm_is_ticking :: "'g TimeoutManager \<Rightarrow> TimeoutKind \<Rightarrow> bool" where
  "tm_is_ticking m kind = ticking (tm_get m kind)"

section \<open>Countdown\<close>

lemma tick_pow_fields:
  "ticking ((timeout_tick ^^ n) t) = ticking t"
  "after ((timeout_tick ^^ n) t) = after t"
  "ticking t \<Longrightarrow> unat (ticks_remaining ((timeout_tick ^^ n) t)) = unat (ticks_remaining t) - n"
  by (induction n) (simp_all add: timeout_tick_def)

lemma fired_after_ticks:
  "timeout_fired ((timeout_tick ^^ n) t) \<longleftrightarrow> ticking t \<and> unat (ticks_remaining t) \<le> n"
proof (cases "ticking t")
  case True
  then have "ticks_remaining ((timeout_tick ^^ n) t) = 0 \<longleftrightarrow> unat (ticks_remaining t) \<le> n"
    by (metis diff_is_0_eq tick_pow_fields(3) unat_eq_0)
  with True show ?thesis
    by (simp add: timeout_fired_def tick_pow_fields)
qed (simp add: timeout_fired_def tick_pow_fields)

lemma tm_get_tick: "tm_get (tm_tick m) k = timeout_tick (tm_get m k)"
  by (cases k) (simp_all add: tm_get_def tm_tick_def)

lemma tm_get_tick_pow: "tm_get ((tm_tick ^^ n) m) k = (timeout_tick ^^ n) (tm_get m k)"
  by (induction n) (simp_all add: tm_get_tick)

lemma tm_get_get_mut: "tm_get (tm_get_mut k f m) k' = (if k' = k then f (tm_get m k') else tm_get m k')"
  by (cases k; cases k') (simp_all add: tm_get_def tm_get_mut_def)

lemma tm_get_prng [simp]: "tm_get (m\<lparr>tm_prng := g\<rparr>) k = tm_get m k"
  by (cases k) (simp_all add: tm_get_def)

lemmas manager_simps = tm_fired_def tm_start_def tm_stop_def tm_reset_def tm_backoff_def
  tm_get_tick_pow tm_get_get_mut

text \<open>
  C22. A started timer fires exactly when its configured number of ticks has passed, for every
  duration that fits 64 bits, and starting it neither delays nor triggers any other timer of the
  replica.
\<close>

theorem timer_fires_exactly:
  "tm_fired ((tm_tick ^^ n) (tm_start k m)) k' \<longleftrightarrow>
     (if k' = k then unat (after (tm_get m k)) \<le> n else tm_fired ((tm_tick ^^ n) m) k')"
  by (auto simp: manager_simps fired_after_ticks timeout_start_def)

text \<open>A stopped timer stays silent, and so does one that was reset while stopped.\<close>

lemma stopped_timer_silent:
  "\<not> tm_fired ((tm_tick ^^ n) (tm_stop k m)) k"
  "\<not> tm_is_ticking m k \<Longrightarrow> \<not> tm_fired ((tm_tick ^^ n) (tm_reset k m)) k"
  by (simp_all add: manager_simps tm_is_ticking_def fired_after_ticks timeout_stop_def timeout_reset_def)

section \<open>Backoff\<close>

text \<open>The base interval of an attempt: the duration doubled at most four times, saturating.\<close>

definition backoff_base :: "u64 \<Rightarrow> u32 \<Rightarrow> nat" where
  "backoff_base a att = min (unat a * 2 ^ min (unat att) 4) (2 ^ 64 - 1)"

lemma unat_shift_le_4: "s \<le> 4 \<Longrightarrow> unat (push_bit (unat (s :: u32)) 1 :: u64) = 2 ^ unat s"
proof -
  assume "s \<le> 4"
  then have "unat s \<in> {0, 1, 2, 3, 4}"
    by (auto simp: word_le_nat_alt)
  then show ?thesis
    by (auto simp: push_bit_eq_mult unat_word_ariths)
qed

lemma backoff_base_eq:
  "unat (min (saturating_mul a (push_bit (unat (min att 4)) 1)) (saturating_mul a 16)) =
     backoff_base a (att :: u32)"
proof -
  have shift: "unat (min att 4) = min (unat att) 4"
    by (simp add: min_def word_le_nat_alt)
  have "unat (push_bit (unat (min att 4)) 1 :: u64) = 2 ^ unat (min att 4)"
    by (rule unat_shift_le_4) simp
  then have "unat (saturating_mul a (push_bit (unat (min att 4)) 1)) = backoff_base a att"
    by (simp add: unat_saturating_mul backoff_base_def shift)
  moreover have "(2 :: nat) ^ min (unat att) 4 \<le> 2 ^ 4"
    by (rule power_increasing) auto
  then have "unat a * 2 ^ min (unat att) 4 \<le> unat a * 16"
    by simp
  then have "backoff_base a att \<le> unat (saturating_mul a 16)"
    unfolding unat_saturating_mul backoff_base_def by (intro min.mono) simp_all
  ultimately show ?thesis
    by (simp add: min_def word_le_nat_alt)
qed

lemma backoff_remaining:
  assumes "\<And>b g. fst (random_range b g) \<le> b"
  shows "backoff_base (after t) (attempts t + 1) \<le>
           unat (ticks_remaining (fst (timeout_backoff random_range g t)))"
    and "unat (ticks_remaining (fst (timeout_backoff random_range g t))) \<le>
           2 * backoff_base (after t) (attempts t + 1)"
proof -
  let ?b = "min (saturating_mul (after t) (push_bit (unat (min (attempts t + 1) 4)) 1))
              (saturating_mul (after t) 16)"
  have r: "ticks_remaining (fst (timeout_backoff random_range g t)) =
      saturating_add ?b (fst (random_range ?b g))"
    by (simp add: timeout_backoff_def Let_def split_beta)
  have j: "unat (fst (random_range ?b g)) \<le> unat ?b"
    using assms by (simp add: word_le_nat_alt)
  have sum: "b \<le> min (b + i) (2 ^ 64 - 1) \<and> min (b + i) (2 ^ 64 - 1) \<le> 2 * b"
    if "i \<le> b" "b < 2 ^ 64" for b i :: nat
    using that by auto
  have "unat ?b < 2 ^ 64"
    using unsigned_less [of ?b] by simp
  with sum [OF j] show "backoff_base (after t) (attempts t + 1) \<le>
           unat (ticks_remaining (fst (timeout_backoff random_range g t)))"
    and "unat (ticks_remaining (fst (timeout_backoff random_range g t))) \<le>
           2 * backoff_base (after t) (attempts t + 1)"
    unfolding r unat_saturating_add backoff_base_eq [symmetric] by auto
qed

text \<open>
  C23. Backing off a running timer delays it by at least the base interval of the attempt and by at
  most twice that interval: the base is the configured duration doubled once per attempt, at most
  four times, saturating at the 64-bit maximum. This holds for every generator that draws from the
  requested range.
\<close>

theorem backoff_window:
  assumes prng: "\<And>b g. fst (random_range b g) \<le> b"
    and running: "tm_is_ticking m k"
    and base: "base = backoff_base (after (tm_get m k)) (attempts (tm_get m k) + 1)"
  shows "(tm_fired ((tm_tick ^^ n) (tm_backoff random_range k m)) k \<longrightarrow> base \<le> n) \<and>
    (2 * base \<le> n \<longrightarrow> tm_fired ((tm_tick ^^ n) (tm_backoff random_range k m)) k)"
proof -
  let ?t = "fst (timeout_backoff random_range (tm_prng m) (tm_get m k))"
  have "tm_fired ((tm_tick ^^ n) (tm_backoff random_range k m)) k \<longleftrightarrow> unat (ticks_remaining ?t) \<le> n"
    using running
    by (simp add: manager_simps split_beta fired_after_ticks tm_is_ticking_def timeout_backoff_def Let_def)
  with backoff_remaining [where random_range = random_range and t = "tm_get m k" and g = "tm_prng m", OF prng] show ?thesis
    unfolding base by linarith
qed

theorem backoff_window_witness:
  "let m = tm_start Prepare (tm_new (\<lambda>s. s) 3);
       rr = (\<lambda>b g :: u64. (drop_bit 1 b, g))
   in (tm_fired ((tm_tick ^^ 40) (tm_backoff rr Prepare m)) Prepare \<longrightarrow> (50 :: nat) \<le> 40) \<and>
      tm_fired ((tm_tick ^^ 100) (tm_backoff rr Prepare m)) Prepare"
proof -
  let ?m = "tm_start Prepare (tm_new (\<lambda>s. s) 3) :: u64 TimeoutManager"
  let ?rr = "\<lambda>b g :: u64. (drop_bit 1 b :: u64, g)"
  have "fst (?rr b g) \<le> b" for b g
    by (simp add: word_le_nat_alt drop_bit_eq_div unat_div)
  moreover have "tm_is_ticking ?m Prepare"
    by (simp add: tm_is_ticking_def tm_start_def tm_get_get_mut timeout_start_def)
  moreover have "50 = backoff_base (after (tm_get ?m Prepare)) (attempts (tm_get ?m Prepare) + 1)"
    by (simp add: tm_start_def tm_get_mut_def timeout_start_def tm_new_def tm_get_def
      timeout_new_def backoff_base_def PREPARE_TICKS_def)
  ultimately show ?thesis
    using backoff_window [of ?rr ?m Prepare 50 40] backoff_window [of ?rr ?m Prepare 50 100]
    unfolding Let_def by simp
qed

end
