(* ===== verification/Wire_Types.thy ===== *)
theory Wire_Types
  imports Iggy_Base
begin

text \<open>
  The discriminants of the consensus wire format: operations
  (\<open>src/core/binary_protocol/src/consensus/operation.rs\<close>) with the predicates that route them to a
  plane, message commands (\<open>command.rs\<close>), decode errors (\<open>error.rs\<close>), and the dispatch table that
  relates operations to client command codes (\<open>src/core/binary_protocol/src/dispatch.rs\<close>).
  Constructors carry the prefixes \<open>Op\<close> and \<open>Cmd\<close>, since both enums have a \<open>Reserved\<close>.
\<close>

section \<open>Operations\<close>

datatype Operation =
    OpReserved | OpRegister | OpNonReplicated | OpLogout | OpCreateTopicWithAssignments
  | OpCreatePartitionsWithAssignments | OpRemoveConsumerGroupMember
  | OpCompleteConsumerGroupRevocation | OpTruncatePartition | OpFinalizeSession
  | OpCompleteLifecycle | OpUpdateStreamResolved | OpUpdateTopicResolved
  | OpUpdateUserResolved | OpRewrapStreamKeys | OpCreateStream | OpDeleteStream
  | OpCreateTopic | OpDeleteTopic | OpCreatePartitions | OpDeletePartitions
  | OpDeleteSegments | OpCreateConsumerGroup | OpDeleteConsumerGroup | OpCreateUser
  | OpDeleteUser | OpChangePassword | OpUpdatePermissions | OpCreatePersonalAccessToken
  | OpDeletePersonalAccessToken | OpJoinConsumerGroup | OpLeaveConsumerGroup
  | OpUpdateResource | OpSendMessages | OpStoreConsumerOffset | OpDeleteConsumerOffset
  | OpRetireSession | OpInstallConsumerGroupOwner | OpTransitionPartitionHistory
  | OpRetireConsumerGroupOwners

text \<open>The discriminant of an operation (\<open>repr(u8)\<close>), and the checked cast back from a byte.\<close>

primrec op_code :: "Operation \<Rightarrow> u8" where
  "op_code OpReserved = 0"
| "op_code OpRegister = 1"
| "op_code OpNonReplicated = 2"
| "op_code OpLogout = 3"
| "op_code OpCreateTopicWithAssignments = 64"
| "op_code OpCreatePartitionsWithAssignments = 65"
| "op_code OpRemoveConsumerGroupMember = 66"
| "op_code OpCompleteConsumerGroupRevocation = 67"
| "op_code OpTruncatePartition = 68"
| "op_code OpFinalizeSession = 70"
| "op_code OpCompleteLifecycle = 71"
| "op_code OpUpdateStreamResolved = 72"
| "op_code OpUpdateTopicResolved = 73"
| "op_code OpUpdateUserResolved = 74"
| "op_code OpRewrapStreamKeys = 75"
| "op_code OpCreateStream = 128"
| "op_code OpDeleteStream = 130"
| "op_code OpCreateTopic = 132"
| "op_code OpDeleteTopic = 134"
| "op_code OpCreatePartitions = 136"
| "op_code OpDeletePartitions = 137"
| "op_code OpDeleteSegments = 138"
| "op_code OpCreateConsumerGroup = 139"
| "op_code OpDeleteConsumerGroup = 140"
| "op_code OpCreateUser = 141"
| "op_code OpDeleteUser = 143"
| "op_code OpChangePassword = 144"
| "op_code OpUpdatePermissions = 145"
| "op_code OpCreatePersonalAccessToken = 146"
| "op_code OpDeletePersonalAccessToken = 147"
| "op_code OpJoinConsumerGroup = 148"
| "op_code OpLeaveConsumerGroup = 149"
| "op_code OpUpdateResource = 150"
| "op_code OpSendMessages = 160"
| "op_code OpStoreConsumerOffset = 161"
| "op_code OpDeleteConsumerOffset = 162"
| "op_code OpRetireSession = 166"
| "op_code OpInstallConsumerGroupOwner = 167"
| "op_code OpTransitionPartitionHistory = 168"
| "op_code OpRetireConsumerGroupOwners = 169"

definition all_operations :: "Operation list" where
  "all_operations =
     [OpReserved, OpRegister, OpNonReplicated, OpLogout, OpCreateTopicWithAssignments,
      OpCreatePartitionsWithAssignments, OpRemoveConsumerGroupMember,
      OpCompleteConsumerGroupRevocation, OpTruncatePartition, OpFinalizeSession,
      OpCompleteLifecycle, OpUpdateStreamResolved, OpUpdateTopicResolved, OpUpdateUserResolved,
      OpRewrapStreamKeys, OpCreateStream, OpDeleteStream, OpCreateTopic, OpDeleteTopic,
      OpCreatePartitions, OpDeletePartitions, OpDeleteSegments, OpCreateConsumerGroup,
      OpDeleteConsumerGroup, OpCreateUser, OpDeleteUser, OpChangePassword, OpUpdatePermissions,
      OpCreatePersonalAccessToken, OpDeletePersonalAccessToken, OpJoinConsumerGroup,
      OpLeaveConsumerGroup, OpUpdateResource, OpSendMessages, OpStoreConsumerOffset,
      OpDeleteConsumerOffset, OpRetireSession, OpInstallConsumerGroupOwner,
      OpTransitionPartitionHistory, OpRetireConsumerGroupOwners]"

definition op_of_code :: "u8 \<Rightarrow> Operation option" where
  "op_of_code code = find (\<lambda>op. op_code op = code) all_operations"

definition is_known_code :: "u8 \<Rightarrow> bool" where
  "is_known_code code \<longleftrightarrow> op_of_code code \<noteq> None"

definition INTERNAL_START :: u8 where "INTERNAL_START = op_code OpCreateTopicWithAssignments"
definition METADATA_START :: u8 where "METADATA_START = op_code OpCreateStream"
definition PARTITION_START :: u8 where "PARTITION_START = op_code OpSendMessages"

definition request_operation :: "Operation \<Rightarrow> Operation" where
  "request_operation op =
     (case op of
        OpCreateTopicWithAssignments \<Rightarrow> OpCreateTopic
      | OpCreatePartitionsWithAssignments \<Rightarrow> OpCreatePartitions
      | OpUpdateStreamResolved \<Rightarrow> OpUpdateResource
      | OpUpdateTopicResolved \<Rightarrow> OpUpdateResource
      | OpUpdateUserResolved \<Rightarrow> OpUpdateResource
      | OpTruncatePartition \<Rightarrow> OpDeleteSegments
      | operation \<Rightarrow> operation)"

definition is_internal :: "Operation \<Rightarrow> bool" where
  "is_internal op \<longleftrightarrow>
     (op_code op \<ge> INTERNAL_START \<and> op_code op < METADATA_START) \<or>
     op \<in> {OpRetireSession, OpInstallConsumerGroupOwner, OpTransitionPartitionHistory,
           OpRetireConsumerGroupOwners}"

definition is_partition_lifecycle :: "Operation \<Rightarrow> bool" where
  "is_partition_lifecycle op \<longleftrightarrow>
     op \<in> {OpInstallConsumerGroupOwner, OpTransitionPartitionHistory, OpRetireConsumerGroupOwners}"

definition is_partition :: "Operation \<Rightarrow> bool" where
  "is_partition op \<longleftrightarrow> op_code op \<ge> PARTITION_START"

definition is_metadata :: "Operation \<Rightarrow> bool" where
  "is_metadata op \<longleftrightarrow>
     (if is_internal op \<and> \<not> is_partition op then True
      else op \<in> {OpCreateStream, OpDeleteStream, OpCreateTopic, OpDeleteTopic, OpCreatePartitions,
            OpDeletePartitions, OpCreateConsumerGroup, OpDeleteConsumerGroup, OpCreateUser,
            OpDeleteUser, OpChangePassword, OpUpdatePermissions, OpCreatePersonalAccessToken,
            OpDeletePersonalAccessToken, OpJoinConsumerGroup, OpLeaveConsumerGroup,
            OpUpdateResource})"

definition is_vsr_reserved :: "Operation \<Rightarrow> bool" where
  "is_vsr_reserved op \<longleftrightarrow> op \<in> {OpReserved, OpRegister, OpLogout, OpNonReplicated}"

definition is_result_framed :: "Operation \<Rightarrow> bool" where
  "is_result_framed op \<longleftrightarrow> is_metadata op \<or> op \<in> {OpStoreConsumerOffset, OpDeleteConsumerOffset}"

definition is_metadata_plane :: "Operation \<Rightarrow> bool" where
  "is_metadata_plane op \<longleftrightarrow> is_metadata op \<or> op \<in> {OpRegister, OpLogout}"

definition is_plane_routable :: "Operation \<Rightarrow> bool" where
  "is_plane_routable op \<longleftrightarrow> is_metadata_plane op \<or> is_partition op"

definition is_client_allowed :: "Operation \<Rightarrow> bool" where
  "is_client_allowed op \<longleftrightarrow> op \<noteq> OpReserved \<and> \<not> is_internal op"

section \<open>The dispatch table\<close>

text \<open>The numerals are the constants of \<open>src/core/binary_protocol/src/codes.rs\<close>.\<close>

record CommandMeta =
  cm_code :: u32
  cm_name :: string
  cm_operation :: "Operation option"

definition is_replicated :: "CommandMeta \<Rightarrow> bool" where
  "is_replicated m \<longleftrightarrow> cm_operation m \<noteq> None"

definition non_replicated :: "u32 \<Rightarrow> string \<Rightarrow> CommandMeta" where
  "non_replicated code name = \<lparr>cm_code = code, cm_name = name, cm_operation = None\<rparr>"

definition replicated :: "u32 \<Rightarrow> string \<Rightarrow> Operation \<Rightarrow> CommandMeta" where
  "replicated code name op = \<lparr>cm_code = code, cm_name = name, cm_operation = Some op\<rparr>"

definition COMMAND_TABLE :: "CommandMeta list" where
  "COMMAND_TABLE =
     [non_replicated 1 ''ping'',
      non_replicated 10 ''stats'',
      non_replicated 11 ''snapshot'',
      non_replicated 12 ''cluster.metadata'',
      non_replicated 20 ''me'',
      non_replicated 21 ''client.get'',
      non_replicated 22 ''client.list'',
      non_replicated 31 ''user.get'',
      non_replicated 32 ''user.list'',
      replicated 33 ''user.create'' OpCreateUser,
      replicated 34 ''user.delete'' OpDeleteUser,
      replicated 36 ''user.permissions'' OpUpdatePermissions,
      replicated 37 ''user.password'' OpChangePassword,
      non_replicated 38 ''user.login'',
      non_replicated 39 ''user.logout'',
      non_replicated 40 ''user.login_register'',
      non_replicated 41 ''personal_access_token.list'',
      replicated 42 ''personal_access_token.create'' OpCreatePersonalAccessToken,
      replicated 43 ''personal_access_token.delete'' OpDeletePersonalAccessToken,
      non_replicated 44 ''personal_access_token.login'',
      non_replicated 100 ''message.poll'',
      replicated 101 ''message.send'' OpSendMessages,
      non_replicated 120 ''consumer_offset.get'',
      replicated 121 ''consumer_offset.store'' OpStoreConsumerOffset,
      replicated 122 ''consumer_offset.delete'' OpDeleteConsumerOffset,
      non_replicated 200 ''stream.get'',
      non_replicated 201 ''stream.list'',
      replicated 202 ''stream.create'' OpCreateStream,
      replicated 203 ''stream.delete'' OpDeleteStream,
      non_replicated 300 ''topic.get'',
      non_replicated 301 ''topic.list'',
      replicated 302 ''topic.create'' OpCreateTopic,
      replicated 303 ''topic.delete'' OpDeleteTopic,
      replicated 402 ''partition.create'' OpCreatePartitions,
      replicated 403 ''partition.delete'' OpDeletePartitions,
      replicated 503 ''segment.delete'' OpDeleteSegments,
      non_replicated 600 ''consumer_group.get'',
      non_replicated 601 ''consumer_group.list'',
      replicated 602 ''consumer_group.create'' OpCreateConsumerGroup,
      replicated 603 ''consumer_group.delete'' OpDeleteConsumerGroup,
      replicated 604 ''consumer_group.join'' OpJoinConsumerGroup,
      replicated 605 ''consumer_group.leave'' OpLeaveConsumerGroup,
      non_replicated 606 ''consumer_group.sync'',
      non_replicated 45 ''user.login_register_with_pat'',
      non_replicated 13 ''options.describe'',
      non_replicated 15 ''session.bind'',
      non_replicated 105 ''partition.route'',
      replicated 16 ''resource.update'' OpUpdateResource,
      non_replicated 17 ''metadata.changes'',
      non_replicated 106 ''message.poll_deferred'',
      non_replicated 107 ''message.wait'',
      non_replicated 108 ''message.cancel_deferred'']"

definition lookup_command_index :: "u32 \<Rightarrow> nat option" where
  "lookup_command_index code =
     map_of [(1, 0), (10, 1), (11, 2), (12, 3), (20, 4), (21, 5), (22, 6), (31, 7), (32, 8),
             (33, 9), (34, 10), (36, 11), (37, 12), (38, 13), (39, 14), (40, 15), (41, 16),
             (42, 17), (43, 18), (44, 19), (100, 20), (101, 21), (120, 22), (121, 23),
             (122, 24), (200, 25), (201, 26), (202, 27), (203, 28), (300, 29), (301, 30),
             (302, 31), (303, 32), (402, 33), (403, 34), (503, 35), (600, 36), (601, 37),
             (602, 38), (603, 39), (604, 40), (605, 41), (606, 42), (45, 43), (13, 44),
             (15, 45), (105, 46), (16, 47), (17, 48), (106, 49), (107, 50), (108, 51)] code"

definition lookup_command :: "u32 \<Rightarrow> CommandMeta option" where
  "lookup_command code = map_option (nth COMMAND_TABLE) (lookup_command_index code)"

definition lookup_by_operation_index :: "Operation \<Rightarrow> nat option" where
  "lookup_by_operation_index op =
     (case op of
        OpCreateUser \<Rightarrow> Some 9
      | OpDeleteUser \<Rightarrow> Some 10
      | OpUpdatePermissions \<Rightarrow> Some 11
      | OpChangePassword \<Rightarrow> Some 12
      | OpCreatePersonalAccessToken \<Rightarrow> Some 17
      | OpDeletePersonalAccessToken \<Rightarrow> Some 18
      | OpSendMessages \<Rightarrow> Some 21
      | OpStoreConsumerOffset \<Rightarrow> Some 23
      | OpDeleteConsumerOffset \<Rightarrow> Some 24
      | OpCreateStream \<Rightarrow> Some 27
      | OpDeleteStream \<Rightarrow> Some 28
      | OpCreateTopic \<Rightarrow> Some 31
      | OpDeleteTopic \<Rightarrow> Some 32
      | OpCreatePartitions \<Rightarrow> Some 33
      | OpDeletePartitions \<Rightarrow> Some 34
      | OpDeleteSegments \<Rightarrow> Some 35
      | OpCreateConsumerGroup \<Rightarrow> Some 38
      | OpDeleteConsumerGroup \<Rightarrow> Some 39
      | OpJoinConsumerGroup \<Rightarrow> Some 40
      | OpLeaveConsumerGroup \<Rightarrow> Some 41
      | OpUpdateResource \<Rightarrow> Some 47
      | _ \<Rightarrow> None)"

definition lookup_by_operation :: "Operation \<Rightarrow> CommandMeta option" where
  "lookup_by_operation op = map_option (nth COMMAND_TABLE) (lookup_by_operation_index op)"

definition to_command_code :: "Operation \<Rightarrow> u32 option" where
  "to_command_code op =
     (if op \<in> {OpReserved, OpRegister, OpLogout, OpNonReplicated,
                OpCreateTopicWithAssignments, OpCreatePartitionsWithAssignments,
                OpUpdateStreamResolved, OpUpdateTopicResolved, OpUpdateUserResolved,
                OpRewrapStreamKeys, OpRemoveConsumerGroupMember,
                OpCompleteConsumerGroupRevocation, OpTruncatePartition, OpFinalizeSession,
                OpCompleteLifecycle, OpRetireSession, OpInstallConsumerGroupOwner,
                OpTransitionPartitionHistory, OpRetireConsumerGroupOwners}
      then None
      else map_option cm_code (lookup_by_operation op))"

definition from_command_code :: "u32 \<Rightarrow> Operation option" where
  "from_command_code code =
     (case lookup_command code of Some m \<Rightarrow> cm_operation m | None \<Rightarrow> None)"

section \<open>Commands\<close>

datatype Command =
    CmdReserved | CmdPing | CmdPong | CmdPingClient | CmdPongClient | CmdRequest | CmdPrepare
  | CmdPrepareOk | CmdReply | CmdCommit | CmdStartViewChange | CmdDoViewChange | CmdStartView
  | CmdEviction | CmdReplicaHello | CmdReplicaChallenge | CmdReplicaFinish
  | CmdRequestStartView | CmdRequestPrepares | CmdRepairPrepare | CmdRepairDone
  | CmdRangeEvicted | CmdRequestStateTransfer | CmdStateTransferTarget | CmdRequestStateChunk
  | CmdStateChunk | CmdForwardRegister | CmdForwardRegisterResult | CmdForwardLogout
  | CmdForwardLogoutResult | CmdConsumerSessionHeartbeat | CmdSessionRetirementProgress
  | CmdForwardCompletion | CmdPrimaryRebalance | CmdSegmentDelete

definition all_commands :: "Command list" where
  "all_commands =
     [CmdReserved, CmdPing, CmdPong, CmdPingClient, CmdPongClient, CmdRequest, CmdPrepare,
      CmdPrepareOk, CmdReply, CmdCommit, CmdStartViewChange, CmdDoViewChange, CmdStartView,
      CmdEviction, CmdReplicaHello, CmdReplicaChallenge, CmdReplicaFinish, CmdRequestStartView,
      CmdRequestPrepares, CmdRepairPrepare, CmdRepairDone, CmdRangeEvicted,
      CmdRequestStateTransfer, CmdStateTransferTarget, CmdRequestStateChunk, CmdStateChunk,
      CmdForwardRegister, CmdForwardRegisterResult, CmdForwardLogout, CmdForwardLogoutResult,
      CmdConsumerSessionHeartbeat, CmdSessionRetirementProgress, CmdForwardCompletion,
      CmdPrimaryRebalance, CmdSegmentDelete]"

primrec cmd_code :: "Command \<Rightarrow> u8" where
  "cmd_code CmdReserved = 0"
| "cmd_code CmdPing = 1"
| "cmd_code CmdPong = 2"
| "cmd_code CmdPingClient = 3"
| "cmd_code CmdPongClient = 4"
| "cmd_code CmdRequest = 5"
| "cmd_code CmdPrepare = 6"
| "cmd_code CmdPrepareOk = 7"
| "cmd_code CmdReply = 8"
| "cmd_code CmdCommit = 9"
| "cmd_code CmdStartViewChange = 10"
| "cmd_code CmdDoViewChange = 11"
| "cmd_code CmdStartView = 12"
| "cmd_code CmdEviction = 13"
| "cmd_code CmdReplicaHello = 14"
| "cmd_code CmdReplicaChallenge = 15"
| "cmd_code CmdReplicaFinish = 16"
| "cmd_code CmdRequestStartView = 17"
| "cmd_code CmdRequestPrepares = 18"
| "cmd_code CmdRepairPrepare = 19"
| "cmd_code CmdRepairDone = 20"
| "cmd_code CmdRangeEvicted = 21"
| "cmd_code CmdRequestStateTransfer = 22"
| "cmd_code CmdStateTransferTarget = 23"
| "cmd_code CmdRequestStateChunk = 24"
| "cmd_code CmdStateChunk = 25"
| "cmd_code CmdForwardRegister = 26"
| "cmd_code CmdForwardRegisterResult = 27"
| "cmd_code CmdForwardLogout = 28"
| "cmd_code CmdForwardLogoutResult = 29"
| "cmd_code CmdConsumerSessionHeartbeat = 30"
| "cmd_code CmdSessionRetirementProgress = 31"
| "cmd_code CmdForwardCompletion = 32"
| "cmd_code CmdPrimaryRebalance = 33"
| "cmd_code CmdSegmentDelete = 34"

definition is_valid_command_bits :: "u8 \<Rightarrow> bool" where
  "is_valid_command_bits bits \<longleftrightarrow> bits \<le> cmd_code CmdSegmentDelete"

definition cmd_of_code :: "u8 \<Rightarrow> Command option" where
  "cmd_of_code bits =
     (if is_valid_command_bits bits then Some (all_commands ! unat bits) else None)"

datatype ConsensusError =
    InvalidCommand Command Command
  | InvalidSize u32 u32
  | InvalidChecksum
  | FrameChecksumMismatch Command u128 u128
  | InvalidCluster
  | InvalidField string
  | PrepareParentPaddingNonZero
  | PrepareRequestChecksumPaddingNonZero
  | CommitInvalidCommand
  | CommitInvalidSize u32
  | ReplyInvalidCommand
  | ReplyRequestChecksumPaddingNonZero
  | ReplyContextPaddingNonZero
  | InvalidBitPattern
  | UnsupportedOperation u8
  | ClientBoundCommand Command

section \<open>Codes\<close>

lemma op_of_code_code [simp]: "op_of_code (op_code op) = Some op"
  by (cases op) (simp_all add: op_of_code_def all_operations_def)

lemma op_of_code_eq_Some: "op_of_code c = Some op \<longleftrightarrow> op_code op = c"
  by (metis (mono_tags, lifting) find_Some_iff op_of_code_code op_of_code_def)

lemma op_code_inject [simp]: "op_code a = op_code b \<longleftrightarrow> a = b"
  by (metis op_of_code_code option.inject)

lemma cmd_of_code_code [simp]: "cmd_of_code (cmd_code c) = Some c"
  by (cases c) (simp_all add: cmd_of_code_def is_valid_command_bits_def all_commands_def)

lemma cmd_code_nth: "i < 35 \<Longrightarrow> cmd_code (all_commands ! i) = of_nat i"
proof -
  have "map cmd_code all_commands = map of_nat [0..<35]"
    by (simp add: all_commands_def upt_conv_Cons)
  moreover have "length all_commands = 35"
    by (simp add: all_commands_def)
  moreover assume "i < 35"
  ultimately show ?thesis
    by (metis (no_types, lifting) add_0 diff_zero length_upt nth_map nth_upt)
qed

lemma cmd_of_code_eq_Some: "cmd_of_code b = Some c \<longleftrightarrow> cmd_code c = b"
proof
  assume "cmd_of_code b = Some c"
  then have b: "unat b < 35" and c: "c = all_commands ! unat b"
    by (auto simp: cmd_of_code_def is_valid_command_bits_def word_le_nat_alt split: if_splits)
  from cmd_code_nth [OF b] show "cmd_code c = b"
    by (simp add: c)
qed auto

section \<open>Routing and dispatch\<close>

text \<open>
  C24. Every operation is routed to at most one plane. No operation belongs to both the metadata
  plane and the partition plane; the only operations that neither claims are the reserved zero, the
  non-replicated envelope and \<open>DeleteSegments\<close>, which is replicated as \<open>TruncatePartition\<close>;
  the operations a client may send are those with a command code, the register and logout
  operations and the non-replicated envelope; and the retry identity of an operation is stable, and
  is the operation itself unless a server-internal operation stands in for a client's.
\<close>

theorem operation_routing:
  "\<not> (is_metadata_plane op \<and> is_partition op) \<and>
   (\<not> is_plane_routable op \<longleftrightarrow> op = OpReserved \<or> op = OpNonReplicated \<or> op = OpDeleteSegments) \<and>
   (is_client_allowed op \<longleftrightarrow> (\<exists>c. to_command_code op = Some c) \<or>
      op = OpRegister \<or> op = OpLogout \<or> op = OpNonReplicated) \<and>
   request_operation (request_operation op) = request_operation op \<and>
   (request_operation op = op \<or> is_internal op \<and> is_client_allowed (request_operation op))"
  by (cases op)
    (simp_all add: is_plane_routable_def is_metadata_plane_def is_metadata_def is_partition_def
      is_internal_def is_client_allowed_def INTERNAL_START_def METADATA_START_def PARTITION_START_def
      request_operation_def to_command_code_def lookup_by_operation_def
      lookup_by_operation_index_def word_le_nat_alt)

text \<open>The two columns of the table that the lookups compare, evaluated once.\<close>

lemma table_codes:
  "map cm_code COMMAND_TABLE =
     [1, 10, 11, 12, 20, 21, 22, 31, 32, 33, 34, 36, 37, 38, 39, 40, 41, 42, 43, 44, 100, 101,
      120, 121, 122, 200, 201, 202, 203, 300, 301, 302, 303, 402, 403, 503, 600, 601, 602, 603,
      604, 605, 606, 45, 13, 15, 105, 16, 17, 106, 107, 108]"
  by (simp add: COMMAND_TABLE_def replicated_def non_replicated_def)

lemma table_operations:
  "map cm_operation COMMAND_TABLE =
     [None, None, None, None, None, None, None, None, None, Some OpCreateUser,
      Some OpDeleteUser, Some OpUpdatePermissions, Some OpChangePassword, None, None, None,
      None, Some OpCreatePersonalAccessToken, Some OpDeletePersonalAccessToken, None, None,
      Some OpSendMessages, None, Some OpStoreConsumerOffset, Some OpDeleteConsumerOffset, None,
      None, Some OpCreateStream, Some OpDeleteStream, None, None, Some OpCreateTopic,
      Some OpDeleteTopic, Some OpCreatePartitions, Some OpDeletePartitions,
      Some OpDeleteSegments, None, None, Some OpCreateConsumerGroup,
      Some OpDeleteConsumerGroup, Some OpJoinConsumerGroup, Some OpLeaveConsumerGroup, None,
      None, None, None, None, Some OpUpdateResource, None, None, None, None]"
  by (simp add: COMMAND_TABLE_def replicated_def non_replicated_def)

lemma length_COMMAND_TABLE: "length COMMAND_TABLE = 52"
  by (simp add: COMMAND_TABLE_def)

lemma table_code_nth: "i < 52 \<Longrightarrow> cm_code (COMMAND_TABLE ! i) = map cm_code COMMAND_TABLE ! i"
  and table_operation_nth:
    "i < 52 \<Longrightarrow> cm_operation (COMMAND_TABLE ! i) = map cm_operation COMMAND_TABLE ! i"
  by (simp_all add: length_COMMAND_TABLE)

lemma map_of_zip_upt:
  assumes "distinct xs"
  shows "map_of (zip xs [0..<length xs]) x = Some i \<longleftrightarrow> i < length xs \<and> xs ! i = x"
  using assms by (auto simp: map_of_eq_Some_iff set_zip)

lemma upt_table:
  "[0..<52] =
     [0, 1, 2, 3, 4, 5, 6, 7, 8, 9, 10, 11, 12, 13, 14, 15, 16, 17, 18, 19, 20, 21, 22, 23, 24,
      25, 26, 27, 28, 29, 30, 31, 32, 33, 34, 35, 36, 37, 38, 39, 40, 41, 42, 43, 44, 45, 46,
      47, 48, 49, 50, 51]"
  by (simp add: upt_conv_Cons)

lemma lookup_command_index_iff:
  "lookup_command_index c = Some i \<longleftrightarrow> i < 52 \<and> cm_code (COMMAND_TABLE ! i) = c"
proof -
  have "lookup_command_index c = map_of (zip (map cm_code COMMAND_TABLE) [0..<52]) c"
    unfolding table_codes lookup_command_index_def by (simp add: upt_table del: map_of.simps)
  moreover have "distinct (map cm_code COMMAND_TABLE)"
    unfolding table_codes by simp
  ultimately show ?thesis
    using map_of_zip_upt [of "map cm_code COMMAND_TABLE" c i]
    by (simp add: length_COMMAND_TABLE cong: conj_cong)
qed

lemma lookup_by_operation_index_iff:
  "lookup_by_operation_index op = Some i \<longleftrightarrow>
     i < 52 \<and> cm_operation (COMMAND_TABLE ! i) = Some op"
proof
  assume "lookup_by_operation_index op = Some i"
  then have "i < 52 \<and> map cm_operation COMMAND_TABLE ! i = Some op"
    unfolding table_operations by (cases op) (auto simp: lookup_by_operation_index_def)
  then show "i < 52 \<and> cm_operation (COMMAND_TABLE ! i) = Some op"
    by (simp add: table_operation_nth del: nth_map)
next
  have "list_all2 (\<lambda>x i. case x of None \<Rightarrow> True | Some op \<Rightarrow> lookup_by_operation_index op = Some i)
      (map cm_operation COMMAND_TABLE) [0..<52]"
    unfolding table_operations by (simp add: lookup_by_operation_index_def upt_table)
  then show "i < 52 \<and> cm_operation (COMMAND_TABLE ! i) = Some op \<Longrightarrow>
      lookup_by_operation_index op = Some i"
    by (auto simp: list_all2_conv_all_nth length_COMMAND_TABLE split: option.splits)
qed

lemma to_command_code_eq: "to_command_code op = map_option cm_code (lookup_by_operation op)"
  by (cases op)
    (simp_all add: to_command_code_def lookup_by_operation_def lookup_by_operation_index_def)

text \<open>
  C25. The dispatch table is a bijection between the replicated operations a client can name and
  their command codes: both lookup functions, which index the table by hand-written positions, read
  the entry they mean, so mapping an operation to its code and back agree in both directions.
\<close>

theorem dispatch_bijection:
  "(to_command_code op = Some c \<longleftrightarrow> from_command_code c = Some op) \<and>
   (lookup_command c = Some m \<longleftrightarrow> m \<in> set COMMAND_TABLE \<and> cm_code m = c)"
proof
  have "to_command_code op = Some c \<longleftrightarrow>
      (\<exists>i < 52. cm_operation (COMMAND_TABLE ! i) = Some op \<and> cm_code (COMMAND_TABLE ! i) = c)"
    by (auto simp: to_command_code_eq lookup_by_operation_def lookup_by_operation_index_iff)
  also have "\<dots> \<longleftrightarrow> from_command_code c = Some op"
    by (auto simp: from_command_code_def lookup_command_def lookup_command_index_iff
      split: option.splits)
      (metis lookup_command_index_iff option.distinct(1) option.inject)+
  finally show "to_command_code op = Some c \<longleftrightarrow> from_command_code c = Some op" .
  show "lookup_command c = Some m \<longleftrightarrow> m \<in> set COMMAND_TABLE \<and> cm_code m = c"
    by (auto simp: lookup_command_def lookup_command_index_iff in_set_conv_nth length_COMMAND_TABLE)
qed

end
