(* ===== verification/Wire_Frame.thy ===== *)
theory Wire_Frame
  imports Wire_Types Le_Cursor "HOL-Library.Monad_Syntax"
begin

text \<open>
  The frame every consensus message shares (\<open>src/core/binary_protocol/src/consensus/header.rs\<close>): a
  header of 256 bytes with a common prefix of nine fields. The prefix is the record \<open>Frame\<close>, which
  the header records extend. A header is laid out in declaration order without padding
  (\<open>repr(C)\<close>, little-endian), so the checked cast from bytes reads the fields one after the other
  and fails on an undefined discriminant. The trait \<open>ConsensusHeader\<close> is the record of its constants and
  methods, \<open>HeaderKind\<close>; the locale \<open>header_layout\<close> states what every implementation owes.
  The hash \<open>XxHash3_64\<close> is the parameter \<open>xxh3\<close>.
\<close>

section \<open>Reading fields\<close>

definition HEADER_SIZE :: nat where "HEADER_SIZE = 256"

definition SIZE_FIELD_OFFSET :: nat where "SIZE_FIELD_OFFSET = 48"

definition read_size_field :: "bytes \<Rightarrow> u32 option" where
  "read_size_field header =
     (if SIZE_FIELD_OFFSET + 4 \<le> length header
      then Some (from_le_bytes (take 4 (drop SIZE_FIELD_OFFSET header)))
      else None)"

definition fld :: "(bytes \<Rightarrow> Truncated + 'a \<times> bytes) \<Rightarrow> bytes \<Rightarrow> ('a \<times> bytes) option" where
  "fld get bs = (case get bs of Inl _ \<Rightarrow> None | Inr r \<Rightarrow> Some r)"

definition fld_u8 :: "bytes \<Rightarrow> (u8 \<times> bytes) option" where "fld_u8 = fld lc_u8"
definition fld_u32 :: "bytes \<Rightarrow> (u32 \<times> bytes) option" where "fld_u32 = fld lc_u32"
definition fld_u64 :: "bytes \<Rightarrow> (u64 \<times> bytes) option" where "fld_u64 = fld lc_u64"
definition fld_u128 :: "bytes \<Rightarrow> (u128 \<times> bytes) option" where "fld_u128 = fld lc_u128"
definition fld_bytes :: "nat \<Rightarrow> bytes \<Rightarrow> (bytes \<times> bytes) option" where "fld_bytes n = fld (lc_take n)"

text \<open>An enum field is one byte, and the cast fails where it is no discriminant.\<close>

definition fld_enum :: "(u8 \<Rightarrow> 'a option) \<Rightarrow> bytes \<Rightarrow> ('a \<times> bytes) option" where
  "fld_enum of_code bs =
     do {
       (b, bs) \<leftarrow> fld_u8 bs;
       x \<leftarrow> of_code b;
       Some (x, bs)
     }"

definition fld_op :: "bytes \<Rightarrow> (Operation \<times> bytes) option" where "fld_op = fld_enum op_of_code"
definition fld_cmd :: "bytes \<Rightarrow> (Command \<times> bytes) option" where "fld_cmd = fld_enum cmd_of_code"

named_theorems cast_simps "what a field reader accepts"

lemma fld_eq_Some: "fld get bs = Some r \<longleftrightarrow> get bs = Ok r"
  by (auto simp: fld_def split: sum.splits)

lemma fld_words [cast_simps]:
  "fld_u8 bs = Some (a, r) \<longleftrightarrow> bs = a # r"
  "fld_u32 bs = Some (b, r) \<longleftrightarrow> bs = to_le_bytes b @ r"
  "fld_u64 bs = Some (c, r) \<longleftrightarrow> bs = to_le_bytes c @ r"
  "fld_u128 bs = Some (d, r) \<longleftrightarrow> bs = to_le_bytes d @ r"
  unfolding fld_u8_def fld_u32_def fld_u64_def fld_u128_def fld_eq_Some
  by (auto dest: lc_put_get)

lemma fld_bytes_eq [cast_simps]:
  "fld_bytes n bs = Some (a, r) \<longleftrightarrow> length a = n \<and> bs = a @ r"
  unfolding fld_bytes_def fld_eq_Some by (auto simp: lc_take_eq_Ok)

lemma fld_op_eq [cast_simps]: "fld_op bs = Some (a, r) \<longleftrightarrow> bs = op_code a # r"
  by (auto simp: fld_op_def fld_enum_def bind_eq_Some_conv fld_words op_of_code_eq_Some)

lemma fld_cmd_eq [cast_simps]: "fld_cmd bs = Some (a, r) \<longleftrightarrow> bs = cmd_code a # r"
  by (auto simp: fld_cmd_def fld_enum_def bind_eq_Some_conv fld_words cmd_of_code_eq_Some)

section \<open>The common prefix\<close>

record Frame =
  fr_checksum :: u128
  fr_checksum_body :: u128
  fr_cluster :: u128
  fr_size :: u32
  fr_view :: u32
  fr_release :: u32
  fr_command :: Command
  fr_replica :: u8
  fr_reserved_frame :: bytes

definition put_frame :: "'x Frame_scheme \<Rightarrow> bytes" where
  "put_frame h =
     to_le_bytes (fr_checksum h) @ to_le_bytes (fr_checksum_body h) @ to_le_bytes (fr_cluster h) @
     to_le_bytes (fr_size h) @ to_le_bytes (fr_view h) @ to_le_bytes (fr_release h) @
     [cmd_code (fr_command h)] @ [fr_replica h] @ fr_reserved_frame h"

definition wf_frame :: "'x Frame_scheme \<Rightarrow> bool" where
  "wf_frame h \<longleftrightarrow> length (fr_reserved_frame h) = 66"

definition get_frame :: "bytes \<Rightarrow> (Frame \<times> bytes) option" where
  "get_frame bs =
     do {
       (checksum, bs) \<leftarrow> fld_u128 bs;
       (checksum_body, bs) \<leftarrow> fld_u128 bs;
       (cluster, bs) \<leftarrow> fld_u128 bs;
       (size, bs) \<leftarrow> fld_u32 bs;
       (view, bs) \<leftarrow> fld_u32 bs;
       (release, bs) \<leftarrow> fld_u32 bs;
       (command, bs) \<leftarrow> fld_cmd bs;
       (replica, bs) \<leftarrow> fld_u8 bs;
       (reserved_frame, bs) \<leftarrow> fld_bytes 66 bs;
       Some (\<lparr>fr_checksum = checksum, fr_checksum_body = checksum_body, fr_cluster = cluster,
              fr_size = size, fr_view = view, fr_release = release, fr_command = command,
              fr_replica = replica, fr_reserved_frame = reserved_frame\<rparr>, bs)
     }"

lemma get_frame_eq [cast_simps]:
  "get_frame bs = Some (f, r) \<longleftrightarrow> wf_frame f \<and> bs = put_frame f @ r"
  by (cases f) (auto simp: get_frame_def put_frame_def wf_frame_def bind_eq_Some_conv cast_simps)

lemma length_put_frame [simp]: "wf_frame h \<Longrightarrow> length (put_frame h) = 128"
  by (simp add: put_frame_def wf_frame_def)

lemma put_frame_payload:
  "drop 16 (put_frame (h\<lparr>fr_checksum := c\<rparr>)) = drop 16 (put_frame h)"
  "length (put_frame (h\<lparr>fr_checksum := c\<rparr>)) = length (put_frame h)"
  by (simp_all add: put_frame_def)

lemma wf_frame_checksum: "wf_frame (h\<lparr>fr_checksum := c\<rparr>) = wf_frame h"
  by (simp add: wf_frame_def)

text \<open>A header is its prefix and the rest.\<close>

lemma frame_extend_eq [cast_simps]:
  "Frame.extend f x = h \<longleftrightarrow> f = Frame.truncate h \<and> x = Frame.more h"
  by (cases h; cases f) (auto simp: Frame.defs)

lemma frame_truncate [cast_simps]:
  "put_frame (Frame.truncate h) = put_frame h" "wf_frame (Frame.truncate h) = wf_frame h"
  by (simp_all add: put_frame_def wf_frame_def Frame.defs)

section \<open>The header trait\<close>

text \<open>
  One value per implementation of \<open>ConsensusHeader\<close>: its associated constants, its checked cast and
  byte image, and its \<open>validate\<close>. The other trait methods read the common prefix. The type
  parameter is the part of the header after the prefix.
\<close>

record 'x HeaderKind =
  COMMAND :: Command
  IDENTITY_CHECKSUMMED :: bool
  OPERATION_OFFSET :: "nat option"
  accepts :: "Command \<Rightarrow> bool"
  FRAME_SEALED :: bool
  validate :: "'x Frame_scheme \<Rightarrow> ConsensusError + unit"
  header_cast :: "bytes \<Rightarrow> 'x Frame_scheme option"
  header_bytes :: "'x Frame_scheme \<Rightarrow> bytes"

definition set_checksum :: "u128 \<Rightarrow> 'x Frame_scheme \<Rightarrow> 'x Frame_scheme" where
  "set_checksum checksum h = h\<lparr>fr_checksum := checksum\<rparr>"

definition frame_checksum_bytes :: "(bytes \<Rightarrow> u64) \<Rightarrow> bytes \<Rightarrow> u128" where
  "frame_checksum_bytes xxh3 header = ucast (xxh3 (drop 16 header))"

definition frame_checksum :: "(bytes \<Rightarrow> u64) \<Rightarrow> 'x HeaderKind \<Rightarrow> 'x Frame_scheme \<Rightarrow> u128" where
  "frame_checksum xxh3 k h = frame_checksum_bytes xxh3 (header_bytes k h)"

definition seal :: "(bytes \<Rightarrow> u64) \<Rightarrow> 'x HeaderKind \<Rightarrow> 'x Frame_scheme \<Rightarrow> 'x Frame_scheme" where
  "seal xxh3 k h = set_checksum (frame_checksum xxh3 k h) h"

definition verify_frame ::
    "(bytes \<Rightarrow> u64) \<Rightarrow> 'x HeaderKind \<Rightarrow> 'x Frame_scheme \<Rightarrow> ConsensusError + unit" where
  "verify_frame xxh3 k h =
     (if \<not> FRAME_SEALED k then Ok ()
      else
        let expected = frame_checksum xxh3 k h;
            found = fr_checksum h
        in if found = expected then Ok ()
           else Err (FrameChecksumMismatch (fr_command h) expected found))"

text \<open>\<open>identity_checksum\<close> over raw bytes: the checksum and the view are blanked.\<close>

definition prepare_identity_checksum_bytes :: "(bytes \<Rightarrow> u64) \<Rightarrow> bytes \<Rightarrow> u128" where
  "prepare_identity_checksum_bytes xxh3 header =
     ucast (xxh3 (replicate 16 0 @ take 36 (drop 16 header) @ replicate 4 0 @ drop 56 header))"

definition frame_body :: "bytes \<Rightarrow> u32 \<Rightarrow> bytes" where
  "frame_body frame sz =
     (if unat sz \<le> HEADER_SIZE \<or> unat sz > length frame then []
      else take (unat sz - HEADER_SIZE) (drop HEADER_SIZE frame))"

section \<open>What every header owes\<close>

text \<open>
  The cast accepts exactly the byte images of well-formed headers, an image has 256 bytes and
  starts with the common prefix, and neither well-formedness nor \<open>validate\<close> depends on the checksum.
\<close>

locale header_layout =
  fixes kind :: "'x HeaderKind"
    and well_formed :: "'x Frame_scheme \<Rightarrow> bool"
  assumes cast_iff: "header_cast kind bs = Some h \<longleftrightarrow> well_formed h \<and> bs = header_bytes kind h"
    and length_bytes: "well_formed h \<Longrightarrow> length (header_bytes kind h) = HEADER_SIZE"
    and prefix: "well_formed h \<Longrightarrow> \<exists>rest. header_bytes kind h = put_frame h @ rest"
    and payload_checksum: "drop 16 (header_bytes kind (h\<lparr>fr_checksum := c\<rparr>)) = drop 16 (header_bytes kind h)"
    and well_formed_checksum: "well_formed (h\<lparr>fr_checksum := c\<rparr>) = well_formed h"
    and well_formed_frame: "well_formed h \<Longrightarrow> wf_frame h"
    and validate_checksum: "validate kind (h\<lparr>fr_checksum := c\<rparr>) = validate kind h"
begin

lemma cast_bytes: "well_formed h \<Longrightarrow> header_cast kind (header_bytes kind h) = Some h"
  by (simp add: cast_iff)

lemma seal_well_formed: "well_formed (seal xxh3 kind h) = well_formed h"
  by (simp add: seal_def set_checksum_def well_formed_checksum)

lemma seal_validate: "validate kind (seal xxh3 kind h) = validate kind h"
  by (simp add: seal_def set_checksum_def validate_checksum)

lemma seal_size: "fr_size (seal xxh3 kind h) = fr_size h"
  and seal_command: "fr_command (seal xxh3 kind h) = fr_command h"
  by (simp_all add: seal_def set_checksum_def)

lemma seal_verifies: "verify_frame xxh3 kind (seal xxh3 kind h) = Ok ()"
  by (simp add: verify_frame_def seal_def set_checksum_def frame_checksum_def
    frame_checksum_bytes_def payload_checksum Let_def)

text \<open>
  A frame that verifies was sealed: its bytes past the checksum hash to the checksum it carries.
  Bytes that differ past the checksum pass only if the hash collides.
\<close>

lemma verified_frame_hash:
  assumes "header_cast kind bs = Some h" and "FRAME_SEALED kind" and "verify_frame xxh3 kind h = Ok ()"
  shows "from_le_bytes (take 16 bs) = (ucast (xxh3 (drop 16 bs)) :: u128)"
proof -
  from assms(1) have wf: "well_formed h" and bs: "bs = header_bytes kind h"
    by (auto simp: cast_iff)
  from prefix [OF wf] bs have "take 16 bs = to_le_bytes (fr_checksum h)"
    by (auto simp: put_frame_def)
  moreover from assms(2,3) have "fr_checksum h = ucast (xxh3 (drop 16 bs))"
    by (auto simp: verify_frame_def frame_checksum_def frame_checksum_bytes_def bs Let_def split: if_splits)
  ultimately show ?thesis
    by simp
qed

end

end
