(* ===== verification/Wire_Headers.thy ===== *)
theory Wire_Headers
  imports Wire_Frame
begin

text \<open>
  The headers of requests, replies, evictions and prepares, and the acknowledgement of a prepare
  (\<open>src/core/binary_protocol/src/consensus/header.rs\<close>). Each header has its record, its byte image
  and checked cast, its defaults and constructors, its \<open>validate\<close>, and its value of \<open>HeaderKind\<close>
  with the layout laws. \<open>RepairPrepareHeader\<close> is a transparent newtype of \<open>PrepareHeader\<close>, so it
  shares the record and has a kind of its own.
\<close>

section \<open>Generic header\<close>

definition RESERVED_COMMAND_LEN :: nat where "RESERVED_COMMAND_LEN = 128"

record GenericHeader = Frame +
  gh_reserved_command :: bytes

definition put_GenericHeader :: "GenericHeader \<Rightarrow> bytes" where
  "put_GenericHeader h =
     put_frame h @ gh_reserved_command h"

definition wf_GenericHeader :: "GenericHeader \<Rightarrow> bool" where
  "wf_GenericHeader h \<longleftrightarrow> wf_frame h \<and>
     length (gh_reserved_command h) = 128"

definition cast_GenericHeader :: "bytes \<Rightarrow> GenericHeader option" where
  "cast_GenericHeader bs0 =
     do {
       (frame, bs0) \<leftarrow> get_frame bs0;
       (ghreserved_command, bs0) \<leftarrow> fld_bytes 128 bs0;
       if bs0 = []
       then Some (Frame.extend frame
         (GenericHeader.fields ghreserved_command))
       else None
     }"

lemma cast_GenericHeader_iff:
  "cast_GenericHeader bs = Some h \<longleftrightarrow> wf_GenericHeader h \<and> bs = put_GenericHeader h"
  by (cases h)
    (auto simp: cast_GenericHeader_def put_GenericHeader_def wf_GenericHeader_def
      bind_eq_Some_conv cast_simps GenericHeader.defs)

lemma length_put_GenericHeader: "wf_GenericHeader h \<Longrightarrow> length (put_GenericHeader h) = 256"
  by (simp add: put_GenericHeader_def wf_GenericHeader_def)

definition generic_kind :: "unit GenericHeader_ext HeaderKind" where
  "generic_kind =
     \<lparr>COMMAND = CmdReserved, IDENTITY_CHECKSUMMED = False, OPERATION_OFFSET = None,
      accepts = (\<lambda>c. c = CmdReserved), FRAME_SEALED = False, validate = (\<lambda>_. Ok ()),
      header_cast = cast_GenericHeader, header_bytes = put_GenericHeader\<rparr>"

interpretation generic_layout: header_layout generic_kind wf_GenericHeader
  by unfold_locales
    (auto simp: generic_kind_def cast_GenericHeader_iff length_put_GenericHeader put_GenericHeader_def
      wf_GenericHeader_def HEADER_SIZE_def put_frame_payload wf_frame_checksum)

section \<open>Requests\<close>

record RequestHeader = Frame +
  rq_client :: u128
  rq_request_checksum :: u128
  rq_timestamp :: u64
  rq_request :: u64
  rq_operation :: Operation
  rq_operation_padding :: bytes
  rq_session :: u64
  rq_user_id :: u32
  rq_reserved :: bytes
  rq_partition_incarnation :: u64
  rq_owner_generation :: u64
  rq_minimum_metadata_op :: u64
  rq_reserved_tail :: bytes

definition put_RequestHeader :: "RequestHeader \<Rightarrow> bytes" where
  "put_RequestHeader h =
     put_frame h @ to_le_bytes (rq_client h) @
     to_le_bytes (rq_request_checksum h) @
     to_le_bytes (rq_timestamp h) @
     to_le_bytes (rq_request h) @
     [op_code (rq_operation h)] @
     rq_operation_padding h @
     to_le_bytes (rq_session h) @
     to_le_bytes (rq_user_id h) @
     rq_reserved h @
     to_le_bytes (rq_partition_incarnation h) @
     to_le_bytes (rq_owner_generation h) @
     to_le_bytes (rq_minimum_metadata_op h) @
     rq_reserved_tail h"

definition wf_RequestHeader :: "RequestHeader \<Rightarrow> bool" where
  "wf_RequestHeader h \<longleftrightarrow> wf_frame h \<and>
     length (rq_operation_padding h) = 7 \<and>
     length (rq_reserved h) = 4 \<and>
     length (rq_reserved_tail h) = 32"

definition cast_RequestHeader :: "bytes \<Rightarrow> RequestHeader option" where
  "cast_RequestHeader bs0 =
     do {
       (frame, bs0) \<leftarrow> get_frame bs0;
       (rqclient, bs0) \<leftarrow> fld_u128 bs0;
       (rqrequest_checksum, bs0) \<leftarrow> fld_u128 bs0;
       (rqtimestamp, bs0) \<leftarrow> fld_u64 bs0;
       (rqrequest, bs0) \<leftarrow> fld_u64 bs0;
       (rqoperation, bs0) \<leftarrow> fld_op bs0;
       (rqoperation_padding, bs0) \<leftarrow> fld_bytes 7 bs0;
       (rqsession, bs0) \<leftarrow> fld_u64 bs0;
       (rquser_id, bs0) \<leftarrow> fld_u32 bs0;
       (rqreserved, bs0) \<leftarrow> fld_bytes 4 bs0;
       (rqpartition_incarnation, bs0) \<leftarrow> fld_u64 bs0;
       (rqowner_generation, bs0) \<leftarrow> fld_u64 bs0;
       (rqminimum_metadata_op, bs0) \<leftarrow> fld_u64 bs0;
       (rqreserved_tail, bs0) \<leftarrow> fld_bytes 32 bs0;
       if bs0 = []
       then Some (Frame.extend frame
         (RequestHeader.fields rqclient rqrequest_checksum rqtimestamp rqrequest rqoperation
            rqoperation_padding rqsession rquser_id rqreserved
            rqpartition_incarnation rqowner_generation
            rqminimum_metadata_op rqreserved_tail))
       else None
     }"

lemma cast_RequestHeader_iff:
  "cast_RequestHeader bs = Some h \<longleftrightarrow> wf_RequestHeader h \<and> bs = put_RequestHeader h"
  by (cases h)
    (auto simp: cast_RequestHeader_def put_RequestHeader_def wf_RequestHeader_def
      bind_eq_Some_conv cast_simps RequestHeader.defs)

lemma length_put_RequestHeader: "wf_RequestHeader h \<Longrightarrow> length (put_RequestHeader h) = 256"
  by (simp add: put_RequestHeader_def wf_RequestHeader_def)

definition default_RequestHeader :: RequestHeader where
  "default_RequestHeader =
     \<lparr>fr_checksum = 0, fr_checksum_body = 0, fr_cluster = 0, fr_size = 0, fr_view = 0,
      fr_release = 0, fr_command = CmdReserved, fr_replica = 0,
      fr_reserved_frame = replicate 66 0, rq_client = 0, rq_request_checksum = 0,
      rq_timestamp = 0, rq_request = 0, rq_operation = OpReserved,
      rq_operation_padding = replicate 7 0, rq_session = 0, rq_user_id = 0,
      rq_reserved = replicate 4 0, rq_partition_incarnation = 0, rq_owner_generation = 0,
      rq_minimum_metadata_op = 0, rq_reserved_tail = replicate 32 0\<rparr>"

record RoutedRequestHeader = Frame +
  rr_client :: u128
  rr_request_checksum :: u128
  rr_timestamp :: u64
  rr_request :: u64
  rr_operation :: Operation
  rr_operation_padding :: bytes
  rr_session :: u64
  rr_user_id :: u32
  rr_reserved :: bytes
  rr_partition_incarnation :: u64
  rr_owner_generation :: u64
  rr_minimum_metadata_op :: u64
  rr_reserved_tail :: bytes
  rr_metadata_watermark :: u64
  rr_group :: u64

definition put_RoutedRequestHeader :: "RoutedRequestHeader \<Rightarrow> bytes" where
  "put_RoutedRequestHeader h =
     put_frame h @ to_le_bytes (rr_client h) @
     to_le_bytes (rr_request_checksum h) @
     to_le_bytes (rr_timestamp h) @
     to_le_bytes (rr_request h) @
     [op_code (rr_operation h)] @
     rr_operation_padding h @
     to_le_bytes (rr_session h) @
     to_le_bytes (rr_user_id h) @
     rr_reserved h @
     to_le_bytes (rr_partition_incarnation h) @
     to_le_bytes (rr_owner_generation h) @
     to_le_bytes (rr_minimum_metadata_op h) @
     rr_reserved_tail h @
     to_le_bytes (rr_metadata_watermark h) @
     to_le_bytes (rr_group h)"

definition wf_RoutedRequestHeader :: "RoutedRequestHeader \<Rightarrow> bool" where
  "wf_RoutedRequestHeader h \<longleftrightarrow> wf_frame h \<and>
     length (rr_operation_padding h) = 7 \<and>
     length (rr_reserved h) = 4 \<and>
     length (rr_reserved_tail h) = 16"

definition cast_RoutedRequestHeader :: "bytes \<Rightarrow> RoutedRequestHeader option" where
  "cast_RoutedRequestHeader bs0 =
     do {
       (frame, bs0) \<leftarrow> get_frame bs0;
       (rrclient, bs0) \<leftarrow> fld_u128 bs0;
       (rrrequest_checksum, bs0) \<leftarrow> fld_u128 bs0;
       (rrtimestamp, bs0) \<leftarrow> fld_u64 bs0;
       (rrrequest, bs0) \<leftarrow> fld_u64 bs0;
       (rroperation, bs0) \<leftarrow> fld_op bs0;
       (rroperation_padding, bs0) \<leftarrow> fld_bytes 7 bs0;
       (rrsession, bs0) \<leftarrow> fld_u64 bs0;
       (rruser_id, bs0) \<leftarrow> fld_u32 bs0;
       (rrreserved, bs0) \<leftarrow> fld_bytes 4 bs0;
       (rrpartition_incarnation, bs0) \<leftarrow> fld_u64 bs0;
       (rrowner_generation, bs0) \<leftarrow> fld_u64 bs0;
       (rrminimum_metadata_op, bs0) \<leftarrow> fld_u64 bs0;
       (rrreserved_tail, bs0) \<leftarrow> fld_bytes 16 bs0;
       (rrmetadata_watermark, bs0) \<leftarrow> fld_u64 bs0;
       (rrgroup, bs0) \<leftarrow> fld_u64 bs0;
       if bs0 = []
       then Some (Frame.extend frame
         (RoutedRequestHeader.fields rrclient rrrequest_checksum rrtimestamp rrrequest rroperation
            rroperation_padding rrsession rruser_id rrreserved
            rrpartition_incarnation rrowner_generation
            rrminimum_metadata_op rrreserved_tail rrmetadata_watermark
            rrgroup))
       else None
     }"

lemma cast_RoutedRequestHeader_iff:
  "cast_RoutedRequestHeader bs = Some h \<longleftrightarrow> wf_RoutedRequestHeader h \<and> bs = put_RoutedRequestHeader h"
  by (cases h)
    (auto simp: cast_RoutedRequestHeader_def put_RoutedRequestHeader_def wf_RoutedRequestHeader_def
      bind_eq_Some_conv cast_simps RoutedRequestHeader.defs)

lemma length_put_RoutedRequestHeader: "wf_RoutedRequestHeader h \<Longrightarrow> length (put_RoutedRequestHeader h) = 256"
  by (simp add: put_RoutedRequestHeader_def wf_RoutedRequestHeader_def)

definition default_RoutedRequestHeader :: RoutedRequestHeader where
  "default_RoutedRequestHeader =
     \<lparr>fr_checksum = 0, fr_checksum_body = 0, fr_cluster = 0, fr_size = 0, fr_view = 0,
      fr_release = 0, fr_command = CmdReserved, fr_replica = 0,
      fr_reserved_frame = replicate 66 0, rr_client = 0, rr_request_checksum = 0,
      rr_timestamp = 0, rr_request = 0, rr_operation = OpReserved,
      rr_operation_padding = replicate 7 0, rr_session = 0, rr_user_id = 0,
      rr_reserved = replicate 4 0, rr_partition_incarnation = 0, rr_owner_generation = 0,
      rr_minimum_metadata_op = 0, rr_reserved_tail = replicate 16 0, rr_metadata_watermark = 0,
      rr_group = 0\<rparr>"

definition validate_request_fields :: "u128 \<Rightarrow> Operation \<Rightarrow> u64 \<Rightarrow> u64 \<Rightarrow> ConsensusError + unit" where
  "validate_request_fields client operation session request =
     (if client = 0 then Err (InvalidField ''request: client must be != 0'')
      else if operation = OpReserved then Err (InvalidField ''operation must not be Reserved'')
      else if operation = OpRegister then
        (if session \<noteq> 0 then Err (InvalidField ''register: session must be 0'')
         else if request \<noteq> 0 then Err (InvalidField ''register: request must be 0'')
         else Ok ())
      else if operation \<noteq> OpNonReplicated then
        (if session = 0 then Err (InvalidField ''non-register: session must be > 0'')
         else if request = 0 then Err (InvalidField ''non-register: request must be > 0'')
         else Ok ())
      else Ok ())"

definition validate_RoutedRequestHeader :: "RoutedRequestHeader \<Rightarrow> ConsensusError + unit" where
  "validate_RoutedRequestHeader h =
     (if fr_command h \<noteq> CmdRequest then Err (InvalidCommand CmdRequest (fr_command h))
      else validate_request_fields (rr_client h) (rr_operation h) (rr_session h) (rr_request h))"

definition validate_RequestHeader :: "RequestHeader \<Rightarrow> ConsensusError + unit" where
  "validate_RequestHeader h =
     (if fr_command h \<noteq> CmdRequest then Err (InvalidCommand CmdRequest (fr_command h))
      else validate_request_fields (rq_client h) (rq_operation h) (rq_session h) (rq_request h))"

definition routed_request_kind :: "unit RoutedRequestHeader_ext HeaderKind" where
  "routed_request_kind =
     \<lparr>COMMAND = CmdRequest, IDENTITY_CHECKSUMMED = False, OPERATION_OFFSET = Some 176,
      accepts = (\<lambda>c. c = CmdRequest), FRAME_SEALED = False, validate = validate_RoutedRequestHeader,
      header_cast = cast_RoutedRequestHeader, header_bytes = put_RoutedRequestHeader\<rparr>"

interpretation routed_request_layout: header_layout routed_request_kind wf_RoutedRequestHeader
  by unfold_locales
    (auto simp: routed_request_kind_def cast_RoutedRequestHeader_iff length_put_RoutedRequestHeader put_RoutedRequestHeader_def
      wf_RoutedRequestHeader_def HEADER_SIZE_def put_frame_payload wf_frame_checksum
      validate_RoutedRequestHeader_def)

definition request_kind :: "unit RequestHeader_ext HeaderKind" where
  "request_kind =
     \<lparr>COMMAND = CmdRequest, IDENTITY_CHECKSUMMED = False, OPERATION_OFFSET = Some 176,
      accepts = (\<lambda>c. c = CmdRequest), FRAME_SEALED = False, validate = validate_RequestHeader,
      header_cast = cast_RequestHeader, header_bytes = put_RequestHeader\<rparr>"

interpretation request_layout: header_layout request_kind wf_RequestHeader
  by unfold_locales
    (auto simp: request_kind_def cast_RequestHeader_iff length_put_RequestHeader put_RequestHeader_def
      wf_RequestHeader_def HEADER_SIZE_def put_frame_payload wf_frame_checksum
      validate_RequestHeader_def)

section \<open>Prepares\<close>

record PrepareHeader = Frame +
  ph_client :: u128
  ph_parent :: u128
  ph_request_checksum :: u128
  ph_op :: u64
  ph_commit :: u64
  ph_timestamp :: u64
  ph_request :: u64
  ph_operation :: Operation
  ph_operation_padding :: bytes
  ph_group :: u64
  ph_user_id :: u32
  ph_retry_capacity :: u32
  ph_partition_incarnation :: u64
  ph_reserved :: bytes
  ph_session :: u64

definition put_PrepareHeader :: "PrepareHeader \<Rightarrow> bytes" where
  "put_PrepareHeader h =
     put_frame h @ to_le_bytes (ph_client h) @
     to_le_bytes (ph_parent h) @
     to_le_bytes (ph_request_checksum h) @
     to_le_bytes (ph_op h) @
     to_le_bytes (ph_commit h) @
     to_le_bytes (ph_timestamp h) @
     to_le_bytes (ph_request h) @
     [op_code (ph_operation h)] @
     ph_operation_padding h @
     to_le_bytes (ph_group h) @
     to_le_bytes (ph_user_id h) @
     to_le_bytes (ph_retry_capacity h) @
     to_le_bytes (ph_partition_incarnation h) @
     ph_reserved h @
     to_le_bytes (ph_session h)"

definition wf_PrepareHeader :: "PrepareHeader \<Rightarrow> bool" where
  "wf_PrepareHeader h \<longleftrightarrow> wf_frame h \<and>
     length (ph_operation_padding h) = 7 \<and>
     length (ph_reserved h) = 8"

definition cast_PrepareHeader :: "bytes \<Rightarrow> PrepareHeader option" where
  "cast_PrepareHeader bs0 =
     do {
       (frame, bs0) \<leftarrow> get_frame bs0;
       (phclient, bs0) \<leftarrow> fld_u128 bs0;
       (phparent, bs0) \<leftarrow> fld_u128 bs0;
       (phrequest_checksum, bs0) \<leftarrow> fld_u128 bs0;
       (phop, bs0) \<leftarrow> fld_u64 bs0;
       (phcommit, bs0) \<leftarrow> fld_u64 bs0;
       (phtimestamp, bs0) \<leftarrow> fld_u64 bs0;
       (phrequest, bs0) \<leftarrow> fld_u64 bs0;
       (phoperation, bs0) \<leftarrow> fld_op bs0;
       (phoperation_padding, bs0) \<leftarrow> fld_bytes 7 bs0;
       (phgroup, bs0) \<leftarrow> fld_u64 bs0;
       (phuser_id, bs0) \<leftarrow> fld_u32 bs0;
       (phretry_capacity, bs0) \<leftarrow> fld_u32 bs0;
       (phpartition_incarnation, bs0) \<leftarrow> fld_u64 bs0;
       (phreserved, bs0) \<leftarrow> fld_bytes 8 bs0;
       (phsession, bs0) \<leftarrow> fld_u64 bs0;
       if bs0 = []
       then Some (Frame.extend frame
         (PrepareHeader.fields phclient phparent phrequest_checksum phop phcommit phtimestamp
            phrequest phoperation phoperation_padding phgroup phuser_id
            phretry_capacity phpartition_incarnation phreserved phsession))
       else None
     }"

lemma cast_PrepareHeader_iff:
  "cast_PrepareHeader bs = Some h \<longleftrightarrow> wf_PrepareHeader h \<and> bs = put_PrepareHeader h"
  by (cases h)
    (auto simp: cast_PrepareHeader_def put_PrepareHeader_def wf_PrepareHeader_def
      bind_eq_Some_conv cast_simps PrepareHeader.defs)

lemma length_put_PrepareHeader: "wf_PrepareHeader h \<Longrightarrow> length (put_PrepareHeader h) = 256"
  by (simp add: put_PrepareHeader_def wf_PrepareHeader_def)

definition default_PrepareHeader :: PrepareHeader where
  "default_PrepareHeader =
     \<lparr>fr_checksum = 0, fr_checksum_body = 0, fr_cluster = 0, fr_size = 0, fr_view = 0,
      fr_release = 0, fr_command = CmdReserved, fr_replica = 0,
      fr_reserved_frame = replicate 66 0, ph_client = 0, ph_parent = 0, ph_request_checksum = 0,
      ph_op = 0, ph_commit = 0, ph_timestamp = 0, ph_request = 0, ph_operation = OpReserved,
      ph_operation_padding = replicate 7 0, ph_group = 0, ph_user_id = 0, ph_retry_capacity = 0,
      ph_partition_incarnation = 0, ph_reserved = replicate 8 0, ph_session = 0\<rparr>"

definition validate_PrepareHeader :: "PrepareHeader \<Rightarrow> ConsensusError + unit" where
  "validate_PrepareHeader h =
     (if fr_command h \<noteq> CmdPrepare then Err (InvalidCommand CmdPrepare (fr_command h))
      else if list_ex (\<lambda>b. b \<noteq> 0) (fr_reserved_frame h)
        then Err (InvalidField ''prepare: reserved_frame bytes must be zero'')
      else if list_ex (\<lambda>b. b \<noteq> 0) (ph_reserved h)
        then Err (InvalidField ''prepare: reserved bytes must be zero'')
      else Ok ())"

definition prepare_kind :: "unit PrepareHeader_ext HeaderKind" where
  "prepare_kind =
     \<lparr>COMMAND = CmdPrepare, IDENTITY_CHECKSUMMED = True, OPERATION_OFFSET = Some 208,
      accepts = (\<lambda>c. c = CmdPrepare), FRAME_SEALED = False, validate = validate_PrepareHeader,
      header_cast = cast_PrepareHeader, header_bytes = put_PrepareHeader\<rparr>"

interpretation prepare_layout: header_layout prepare_kind wf_PrepareHeader
  by unfold_locales
    (auto simp: prepare_kind_def cast_PrepareHeader_iff length_put_PrepareHeader put_PrepareHeader_def
      wf_PrepareHeader_def HEADER_SIZE_def put_frame_payload wf_frame_checksum
      validate_PrepareHeader_def)

definition CHECKSUM_UNSEALED :: u128 where "CHECKSUM_UNSEALED = 0"

definition identity_checksum :: "(bytes \<Rightarrow> u64) \<Rightarrow> PrepareHeader \<Rightarrow> u128" where
  "identity_checksum xxh3 h =
     ucast (xxh3 (put_PrepareHeader (h\<lparr>fr_checksum := 0, fr_view := 0\<rparr>)))"

definition anchors_chain :: "PrepareHeader \<Rightarrow> bool" where
  "anchors_chain h \<longleftrightarrow>
     fr_checksum h \<noteq> CHECKSUM_UNSEALED \<and> (ph_parent h \<noteq> CHECKSUM_UNSEALED \<or> ph_op h = 1)"

definition validate_RepairPrepareHeader :: "PrepareHeader \<Rightarrow> ConsensusError + unit" where
  "validate_RepairPrepareHeader h =
     (if fr_command h \<noteq> CmdRepairPrepare then Err (InvalidCommand CmdRepairPrepare (fr_command h))
      else if list_ex (\<lambda>b. b \<noteq> 0) (fr_reserved_frame h)
        then Err (InvalidField ''repair_prepare: reserved_frame bytes must be zero'')
      else if list_ex (\<lambda>b. b \<noteq> 0) (ph_reserved h)
        then Err (InvalidField ''repair_prepare: reserved bytes must be zero'')
      else Ok ())"

definition repair_prepare_kind :: "unit PrepareHeader_ext HeaderKind" where
  "repair_prepare_kind =
     \<lparr>COMMAND = CmdRepairPrepare, IDENTITY_CHECKSUMMED = True, OPERATION_OFFSET = Some 208,
      accepts = (\<lambda>c. c = CmdRepairPrepare), FRAME_SEALED = False, validate = validate_RepairPrepareHeader,
      header_cast = cast_PrepareHeader, header_bytes = put_PrepareHeader\<rparr>"

interpretation repair_prepare_layout: header_layout repair_prepare_kind wf_PrepareHeader
  by unfold_locales
    (auto simp: repair_prepare_kind_def cast_PrepareHeader_iff length_put_PrepareHeader put_PrepareHeader_def
      wf_PrepareHeader_def HEADER_SIZE_def put_frame_payload wf_frame_checksum
      validate_RepairPrepareHeader_def)

record PrepareOkHeader = Frame +
  po_parent :: u128
  po_prepare_checksum :: u128
  po_op :: u64
  po_commit :: u64
  po_timestamp :: u64
  po_request :: u64
  po_operation :: Operation
  po_operation_padding :: bytes
  po_group :: u64
  po_reserved :: bytes

definition put_PrepareOkHeader :: "PrepareOkHeader \<Rightarrow> bytes" where
  "put_PrepareOkHeader h =
     put_frame h @ to_le_bytes (po_parent h) @
     to_le_bytes (po_prepare_checksum h) @
     to_le_bytes (po_op h) @
     to_le_bytes (po_commit h) @
     to_le_bytes (po_timestamp h) @
     to_le_bytes (po_request h) @
     [op_code (po_operation h)] @
     po_operation_padding h @
     to_le_bytes (po_group h) @
     po_reserved h"

definition wf_PrepareOkHeader :: "PrepareOkHeader \<Rightarrow> bool" where
  "wf_PrepareOkHeader h \<longleftrightarrow> wf_frame h \<and>
     length (po_operation_padding h) = 7 \<and>
     length (po_reserved h) = 48"

definition cast_PrepareOkHeader :: "bytes \<Rightarrow> PrepareOkHeader option" where
  "cast_PrepareOkHeader bs0 =
     do {
       (frame, bs0) \<leftarrow> get_frame bs0;
       (poparent, bs0) \<leftarrow> fld_u128 bs0;
       (poprepare_checksum, bs0) \<leftarrow> fld_u128 bs0;
       (poop, bs0) \<leftarrow> fld_u64 bs0;
       (pocommit, bs0) \<leftarrow> fld_u64 bs0;
       (potimestamp, bs0) \<leftarrow> fld_u64 bs0;
       (porequest, bs0) \<leftarrow> fld_u64 bs0;
       (pooperation, bs0) \<leftarrow> fld_op bs0;
       (pooperation_padding, bs0) \<leftarrow> fld_bytes 7 bs0;
       (pogroup, bs0) \<leftarrow> fld_u64 bs0;
       (poreserved, bs0) \<leftarrow> fld_bytes 48 bs0;
       if bs0 = []
       then Some (Frame.extend frame
         (PrepareOkHeader.fields poparent poprepare_checksum poop pocommit potimestamp porequest
            pooperation pooperation_padding pogroup poreserved))
       else None
     }"

lemma cast_PrepareOkHeader_iff:
  "cast_PrepareOkHeader bs = Some h \<longleftrightarrow> wf_PrepareOkHeader h \<and> bs = put_PrepareOkHeader h"
  by (cases h)
    (auto simp: cast_PrepareOkHeader_def put_PrepareOkHeader_def wf_PrepareOkHeader_def
      bind_eq_Some_conv cast_simps PrepareOkHeader.defs)

lemma length_put_PrepareOkHeader: "wf_PrepareOkHeader h \<Longrightarrow> length (put_PrepareOkHeader h) = 256"
  by (simp add: put_PrepareOkHeader_def wf_PrepareOkHeader_def)

definition default_PrepareOkHeader :: PrepareOkHeader where
  "default_PrepareOkHeader =
     \<lparr>fr_checksum = 0, fr_checksum_body = 0, fr_cluster = 0, fr_size = 0, fr_view = 0,
      fr_release = 0, fr_command = CmdReserved, fr_replica = 0,
      fr_reserved_frame = replicate 66 0, po_parent = 0, po_prepare_checksum = 0, po_op = 0,
      po_commit = 0, po_timestamp = 0, po_request = 0, po_operation = OpReserved,
      po_operation_padding = replicate 7 0, po_group = 0, po_reserved = replicate 48 0\<rparr>"

definition validate_PrepareOkHeader :: "PrepareOkHeader \<Rightarrow> ConsensusError + unit" where
  "validate_PrepareOkHeader h =
     (if fr_command h \<noteq> CmdPrepareOk then Err (InvalidCommand CmdPrepareOk (fr_command h))
      else Ok ())"

definition prepare_ok_kind :: "unit PrepareOkHeader_ext HeaderKind" where
  "prepare_ok_kind =
     \<lparr>COMMAND = CmdPrepareOk, IDENTITY_CHECKSUMMED = False, OPERATION_OFFSET = Some 192,
      accepts = (\<lambda>c. c = CmdPrepareOk), FRAME_SEALED = True, validate = validate_PrepareOkHeader,
      header_cast = cast_PrepareOkHeader, header_bytes = put_PrepareOkHeader\<rparr>"

interpretation prepare_ok_layout: header_layout prepare_ok_kind wf_PrepareOkHeader
  by unfold_locales
    (auto simp: prepare_ok_kind_def cast_PrepareOkHeader_iff length_put_PrepareOkHeader put_PrepareOkHeader_def
      wf_PrepareOkHeader_def HEADER_SIZE_def put_frame_payload wf_frame_checksum
      validate_PrepareOkHeader_def)

section \<open>Replies and evictions\<close>

record ReplyHeader = Frame +
  rp_request_checksum :: u128
  rp_context :: u128
  rp_client :: u128
  rp_op :: u64
  rp_commit :: u64
  rp_timestamp :: u64
  rp_request :: u64
  rp_operation :: Operation
  rp_operation_padding :: bytes
  rp_status :: u32
  rp_reserved :: bytes
  rp_partition_incarnation :: u64
  rp_reserved_tail :: bytes

definition put_ReplyHeader :: "ReplyHeader \<Rightarrow> bytes" where
  "put_ReplyHeader h =
     put_frame h @ to_le_bytes (rp_request_checksum h) @
     to_le_bytes (rp_context h) @
     to_le_bytes (rp_client h) @
     to_le_bytes (rp_op h) @
     to_le_bytes (rp_commit h) @
     to_le_bytes (rp_timestamp h) @
     to_le_bytes (rp_request h) @
     [op_code (rp_operation h)] @
     rp_operation_padding h @
     to_le_bytes (rp_status h) @
     rp_reserved h @
     to_le_bytes (rp_partition_incarnation h) @
     rp_reserved_tail h"

definition wf_ReplyHeader :: "ReplyHeader \<Rightarrow> bool" where
  "wf_ReplyHeader h \<longleftrightarrow> wf_frame h \<and>
     length (rp_operation_padding h) = 7 \<and>
     length (rp_reserved h) = 4 \<and>
     length (rp_reserved_tail h) = 24"

definition cast_ReplyHeader :: "bytes \<Rightarrow> ReplyHeader option" where
  "cast_ReplyHeader bs0 =
     do {
       (frame, bs0) \<leftarrow> get_frame bs0;
       (rprequest_checksum, bs0) \<leftarrow> fld_u128 bs0;
       (rpcontext, bs0) \<leftarrow> fld_u128 bs0;
       (rpclient, bs0) \<leftarrow> fld_u128 bs0;
       (rpop, bs0) \<leftarrow> fld_u64 bs0;
       (rpcommit, bs0) \<leftarrow> fld_u64 bs0;
       (rptimestamp, bs0) \<leftarrow> fld_u64 bs0;
       (rprequest, bs0) \<leftarrow> fld_u64 bs0;
       (rpoperation, bs0) \<leftarrow> fld_op bs0;
       (rpoperation_padding, bs0) \<leftarrow> fld_bytes 7 bs0;
       (rpstatus, bs0) \<leftarrow> fld_u32 bs0;
       (rpreserved, bs0) \<leftarrow> fld_bytes 4 bs0;
       (rppartition_incarnation, bs0) \<leftarrow> fld_u64 bs0;
       (rpreserved_tail, bs0) \<leftarrow> fld_bytes 24 bs0;
       if bs0 = []
       then Some (Frame.extend frame
         (ReplyHeader.fields rprequest_checksum rpcontext rpclient rpop rpcommit rptimestamp
            rprequest rpoperation rpoperation_padding rpstatus rpreserved
            rppartition_incarnation rpreserved_tail))
       else None
     }"

lemma cast_ReplyHeader_iff:
  "cast_ReplyHeader bs = Some h \<longleftrightarrow> wf_ReplyHeader h \<and> bs = put_ReplyHeader h"
  by (cases h)
    (auto simp: cast_ReplyHeader_def put_ReplyHeader_def wf_ReplyHeader_def
      bind_eq_Some_conv cast_simps ReplyHeader.defs)

lemma length_put_ReplyHeader: "wf_ReplyHeader h \<Longrightarrow> length (put_ReplyHeader h) = 256"
  by (simp add: put_ReplyHeader_def wf_ReplyHeader_def)

definition default_ReplyHeader :: ReplyHeader where
  "default_ReplyHeader =
     \<lparr>fr_checksum = 0, fr_checksum_body = 0, fr_cluster = 0, fr_size = 0, fr_view = 0,
      fr_release = 0, fr_command = CmdReserved, fr_replica = 0,
      fr_reserved_frame = replicate 66 0, rp_request_checksum = 0, rp_context = 0, rp_client = 0,
      rp_op = 0, rp_commit = 0, rp_timestamp = 0, rp_request = 0, rp_operation = OpReserved,
      rp_operation_padding = replicate 7 0, rp_status = 0, rp_reserved = replicate 4 0,
      rp_partition_incarnation = 0, rp_reserved_tail = replicate 24 0\<rparr>"

definition COMMITTED_RESULT :: u8 where "COMMITTED_RESULT = 1"

definition from_prepare :: "PrepareHeader \<Rightarrow> u32 \<Rightarrow> ReplyHeader" where
  "from_prepare p sz =
     default_ReplyHeader
       \<lparr>fr_cluster := fr_cluster p, fr_size := sz, fr_view := fr_view p, fr_release := fr_release p,
        fr_command := CmdReply, fr_replica := fr_replica p,
        rp_request_checksum := ph_request_checksum p, rp_client := ph_client p,
        rp_op := ph_op p, rp_commit := ph_op p, rp_timestamp := ph_timestamp p,
        rp_request := ph_request p, rp_operation := ph_operation p,
        rp_reserved := [COMMITTED_RESULT, 0, 0, 0],
        rp_partition_incarnation := ph_partition_incarnation p\<rparr>"

definition echoing :: "RoutedRequestHeader \<Rightarrow> u32 \<Rightarrow> ReplyHeader" where
  "echoing r sz =
     default_ReplyHeader
       \<lparr>fr_cluster := fr_cluster r, fr_size := sz, fr_view := fr_view r, fr_release := fr_release r,
        fr_command := CmdReply, fr_replica := fr_replica r,
        rp_request_checksum := rr_request_checksum r, rp_timestamp := rr_timestamp r,
        rp_request := rr_request r, rp_operation := rr_operation r,
        rp_partition_incarnation := rr_partition_incarnation r\<rparr>"

definition has_committed_result :: "ReplyHeader \<Rightarrow> bool" where
  "has_committed_result h \<longleftrightarrow>
     fr_command h = CmdReply \<and> rp_status h = 0 \<and> rp_reserved h ! 0 = COMMITTED_RESULT"

definition clear_committed_result :: "ReplyHeader \<Rightarrow> ReplyHeader" where
  "clear_committed_result h = h\<lparr>rp_reserved := (rp_reserved h)[0 := 0]\<rparr>"

definition validate_ReplyHeader :: "ReplyHeader \<Rightarrow> ConsensusError + unit" where
  "validate_ReplyHeader h = (if fr_command h \<noteq> CmdReply then Err ReplyInvalidCommand else Ok ())"

definition reply_kind :: "unit ReplyHeader_ext HeaderKind" where
  "reply_kind =
     \<lparr>COMMAND = CmdReply, IDENTITY_CHECKSUMMED = False, OPERATION_OFFSET = Some 208,
      accepts = (\<lambda>c. c = CmdReply), FRAME_SEALED = False, validate = validate_ReplyHeader,
      header_cast = cast_ReplyHeader, header_bytes = put_ReplyHeader\<rparr>"

interpretation reply_layout: header_layout reply_kind wf_ReplyHeader
  by unfold_locales
    (auto simp: reply_kind_def cast_ReplyHeader_iff length_put_ReplyHeader put_ReplyHeader_def
      wf_ReplyHeader_def HEADER_SIZE_def put_frame_payload wf_frame_checksum
      validate_ReplyHeader_def)

datatype EvictionReason =
    EvReserved
  | EvNoSession
  | EvClientReleaseTooLow
  | EvClientReleaseTooHigh
  | EvInvalidRequestOperation
  | EvInvalidRequestBody
  | EvInvalidRequestBodySize
  | EvSessionTooLow
  | EvSessionReleaseMismatch
  | EvInvalidCredentials
  | EvInvalidToken
  | EvUserInactive
  | EvSessionError
  | EvStaleClient
  | EvIncompatibleProtocol
  | EvMalformedLogin

primrec reason_code :: "EvictionReason \<Rightarrow> u8" where
  "reason_code EvReserved = 0"
| "reason_code EvNoSession = 1"
| "reason_code EvClientReleaseTooLow = 2"
| "reason_code EvClientReleaseTooHigh = 3"
| "reason_code EvInvalidRequestOperation = 4"
| "reason_code EvInvalidRequestBody = 5"
| "reason_code EvInvalidRequestBodySize = 6"
| "reason_code EvSessionTooLow = 7"
| "reason_code EvSessionReleaseMismatch = 8"
| "reason_code EvInvalidCredentials = 9"
| "reason_code EvInvalidToken = 10"
| "reason_code EvUserInactive = 11"
| "reason_code EvSessionError = 12"
| "reason_code EvStaleClient = 13"
| "reason_code EvIncompatibleProtocol = 14"
| "reason_code EvMalformedLogin = 15"

definition reason_of_code :: "u8 \<Rightarrow> EvictionReason option" where
  "reason_of_code code =
     find (\<lambda>r. reason_code r = code)
       [EvReserved, EvNoSession, EvClientReleaseTooLow, EvClientReleaseTooHigh,
        EvInvalidRequestOperation, EvInvalidRequestBody, EvInvalidRequestBodySize, EvSessionTooLow,
        EvSessionReleaseMismatch, EvInvalidCredentials, EvInvalidToken, EvUserInactive,
        EvSessionError, EvStaleClient, EvIncompatibleProtocol, EvMalformedLogin]"

definition fld_reason :: "bytes \<Rightarrow> (EvictionReason \<times> bytes) option" where
  "fld_reason = fld_enum reason_of_code"

lemma reason_of_code_code [simp]: "reason_of_code (reason_code r) = Some r"
  by (cases r) (simp_all add: reason_of_code_def)

lemma reason_of_code_eq_Some: "reason_of_code c = Some r \<longleftrightarrow> reason_code r = c"
  by (metis (mono_tags, lifting) find_Some_iff reason_of_code_code reason_of_code_def)

lemma fld_reason_eq [cast_simps]: "fld_reason bs = Some (a, r) \<longleftrightarrow> bs = reason_code a # r"
  by (auto simp: fld_reason_def fld_enum_def bind_eq_Some_conv cast_simps reason_of_code_eq_Some)

record EvictionHeader = Frame +
  ev_client :: u128
  ev_server_protocol_version :: u32
  ev_server_protocol_version_min :: u32
  ev_reserved :: bytes
  ev_reason :: EvictionReason

definition put_EvictionHeader :: "EvictionHeader \<Rightarrow> bytes" where
  "put_EvictionHeader h =
     put_frame h @ to_le_bytes (ev_client h) @
     to_le_bytes (ev_server_protocol_version h) @
     to_le_bytes (ev_server_protocol_version_min h) @
     ev_reserved h @
     [reason_code (ev_reason h)]"

definition wf_EvictionHeader :: "EvictionHeader \<Rightarrow> bool" where
  "wf_EvictionHeader h \<longleftrightarrow> wf_frame h \<and>
     length (ev_reserved h) = 103"

definition cast_EvictionHeader :: "bytes \<Rightarrow> EvictionHeader option" where
  "cast_EvictionHeader bs0 =
     do {
       (frame, bs0) \<leftarrow> get_frame bs0;
       (evclient, bs0) \<leftarrow> fld_u128 bs0;
       (evserver_protocol_version, bs0) \<leftarrow> fld_u32 bs0;
       (evserver_protocol_version_min, bs0) \<leftarrow> fld_u32 bs0;
       (evreserved, bs0) \<leftarrow> fld_bytes 103 bs0;
       (evreason, bs0) \<leftarrow> fld_reason bs0;
       if bs0 = []
       then Some (Frame.extend frame
         (EvictionHeader.fields evclient evserver_protocol_version
            evserver_protocol_version_min evreserved evreason))
       else None
     }"

lemma cast_EvictionHeader_iff:
  "cast_EvictionHeader bs = Some h \<longleftrightarrow> wf_EvictionHeader h \<and> bs = put_EvictionHeader h"
  by (cases h)
    (auto simp: cast_EvictionHeader_def put_EvictionHeader_def wf_EvictionHeader_def
      bind_eq_Some_conv cast_simps EvictionHeader.defs)

lemma length_put_EvictionHeader: "wf_EvictionHeader h \<Longrightarrow> length (put_EvictionHeader h) = 256"
  by (simp add: put_EvictionHeader_def wf_EvictionHeader_def)

text \<open>The \<open>debug_assert\<close>s of \<open>new\<close> on the reason and the replica are not part of a release build.\<close>

definition eviction_new :: "u128 \<Rightarrow> u32 \<Rightarrow> u8 \<Rightarrow> u128 \<Rightarrow> EvictionReason \<Rightarrow> EvictionHeader" where
  "eviction_new cluster view replica client reason =
     \<lparr>fr_checksum = 0, fr_checksum_body = 0, fr_cluster = cluster, fr_size = of_nat HEADER_SIZE,
      fr_view = view, fr_release = 0, fr_command = CmdEviction, fr_replica = replica,
      fr_reserved_frame = replicate 66 0, ev_client = client, ev_server_protocol_version = 0,
      ev_server_protocol_version_min = 0, ev_reserved = replicate 103 0, ev_reason = reason\<rparr>"

definition incompatible_protocol ::
    "u128 \<Rightarrow> u32 \<Rightarrow> u8 \<Rightarrow> u128 \<Rightarrow> u32 \<Rightarrow> u32 \<Rightarrow> EvictionHeader" where
  "incompatible_protocol cluster view replica client version version_min =
     (eviction_new cluster view replica client EvNoSession)
       \<lparr>ev_reason := EvIncompatibleProtocol, ev_server_protocol_version := version,
        ev_server_protocol_version_min := version_min\<rparr>"

definition validate_EvictionHeader :: "EvictionHeader \<Rightarrow> ConsensusError + unit" where
  "validate_EvictionHeader h =
     (if fr_command h \<noteq> CmdEviction then Err (InvalidCommand CmdEviction (fr_command h))
      else if unat (fr_size h) \<noteq> HEADER_SIZE then Err (InvalidSize (of_nat HEADER_SIZE) (fr_size h))
      else if ev_client h = 0 then Err (InvalidField ''eviction: client must be != 0'')
      else if list_ex (\<lambda>b. b \<noteq> 0) (fr_reserved_frame h)
        then Err (InvalidField ''eviction: reserved_frame bytes must be zero'')
      else if list_ex (\<lambda>b. b \<noteq> 0) (ev_reserved h)
        then Err (InvalidField ''eviction: reserved bytes must be zero'')
      else if ev_reason h = EvReserved then Err (InvalidField ''eviction: reason must not be Reserved'')
      else if ev_reason h = EvIncompatibleProtocol then
        (if ev_server_protocol_version_min h = 0 \<or>
            ev_server_protocol_version h < ev_server_protocol_version_min h
         then Err (InvalidField ''eviction: incompatible-protocol window must satisfy 1 <= min <= max'')
         else Ok ())
      else if ev_server_protocol_version h \<noteq> 0 \<or> ev_server_protocol_version_min h \<noteq> 0
        then Err (InvalidField ''eviction: protocol window bytes must be zero'')
      else Ok ())"

definition eviction_kind :: "unit EvictionHeader_ext HeaderKind" where
  "eviction_kind =
     \<lparr>COMMAND = CmdEviction, IDENTITY_CHECKSUMMED = False, OPERATION_OFFSET = None,
      accepts = (\<lambda>c. c = CmdEviction), FRAME_SEALED = False, validate = validate_EvictionHeader,
      header_cast = cast_EvictionHeader, header_bytes = put_EvictionHeader\<rparr>"

interpretation eviction_layout: header_layout eviction_kind wf_EvictionHeader
  by unfold_locales
    (auto simp: eviction_kind_def cast_EvictionHeader_iff length_put_EvictionHeader put_EvictionHeader_def
      wf_EvictionHeader_def HEADER_SIZE_def put_frame_payload wf_frame_checksum
      validate_EvictionHeader_def)

section \<open>The identity of a prepare\<close>

lemma put_frame_blank:
  "put_frame (h\<lparr>fr_checksum := 0, fr_view := 0\<rparr>) =
     replicate 16 0 @ take 36 (drop 16 (put_frame h)) @ replicate 4 0 @ drop 56 (put_frame h)"
  by (simp add: put_frame_def to_le_bytes_zero)

text \<open>
  C26. The identity of a prepare is the same over the typed header and over its raw bytes, so a
  scan of stored frames and a replica agree on it byte for byte. It does not depend on the view or on the
  stored checksum, so a retransmission that re-stamps the view keeps its identity and its place
  in the hash chain.
\<close>

theorem prepare_identity:
  "wf_PrepareHeader h \<Longrightarrow>
     prepare_identity_checksum_bytes xxh3 (put_PrepareHeader h) = identity_checksum xxh3 h \<and>
     identity_checksum xxh3 (h\<lparr>fr_view := v, fr_checksum := c\<rparr>) = identity_checksum xxh3 h"
  by (simp add: prepare_identity_checksum_bytes_def identity_checksum_def put_PrepareHeader_def
    put_frame_blank wf_PrepareHeader_def)

theorem prepare_identity_witness:
  "prepare_identity_checksum_bytes (\<lambda>bs. of_nat (length bs)) (put_PrepareHeader default_PrepareHeader) =
     identity_checksum (\<lambda>bs. of_nat (length bs)) default_PrepareHeader \<and>
   wf_PrepareHeader default_PrepareHeader"
  using prepare_identity [of default_PrepareHeader "\<lambda>bs. of_nat (length bs)"]
  by (simp add: wf_PrepareHeader_def wf_frame_def default_PrepareHeader_def)

end
