(* ===== verification/Wire_Control.thy ===== *)
theory Wire_Control
  imports Wire_Headers
begin

text \<open>
  The replica-to-replica control headers (\<open>src/core/binary_protocol/src/consensus/header.rs\<close>):
  commit, the three view-change messages, journal repair and state transfer. All of them seal
  the frame. \<open>DoViewChange\<close> and \<open>StartView\<close> carry a suffix of prepare headers in their body.
\<close>

section \<open>Error texts\<close>

definition digit_char :: "nat \<Rightarrow> char" where
  "digit_char d = ''0123456789abcdef'' ! d"

fun decimal :: "nat \<Rightarrow> string" where
  "decimal n = (if n < 10 then [digit_char n] else decimal (n div 10) @ [digit_char (n mod 10)])"

declare decimal.simps [simp del]

text \<open>The format \<open>{:#04x}\<close> of a byte: a prefix and two digits.\<close>

definition hex04 :: "u8 \<Rightarrow> string" where
  "hex04 b = ''0x'' @ [digit_char (unat b div 16), digit_char (unat b mod 16)]"

section \<open>Commit\<close>

record CommitHeader = Frame +
  ch_commit_checksum :: u128
  ch_timestamp_monotonic :: u64
  ch_commit :: u64
  ch_checkpoint_op :: u64
  ch_group :: u64
  ch_partition_incarnation :: u64
  ch_reserved :: bytes

definition put_CommitHeader :: "CommitHeader \<Rightarrow> bytes" where
  "put_CommitHeader h =
     put_frame h @ to_le_bytes (ch_commit_checksum h) @
     to_le_bytes (ch_timestamp_monotonic h) @
     to_le_bytes (ch_commit h) @
     to_le_bytes (ch_checkpoint_op h) @
     to_le_bytes (ch_group h) @
     to_le_bytes (ch_partition_incarnation h) @
     ch_reserved h"

definition wf_CommitHeader :: "CommitHeader \<Rightarrow> bool" where
  "wf_CommitHeader h \<longleftrightarrow> wf_frame h \<and>
     length (ch_reserved h) = 72"

definition cast_CommitHeader :: "bytes \<Rightarrow> CommitHeader option" where
  "cast_CommitHeader bs0 =
     do {
       (frame, bs0) \<leftarrow> get_frame bs0;
       (chcommit_checksum, bs0) \<leftarrow> fld_u128 bs0;
       (chtimestamp_monotonic, bs0) \<leftarrow> fld_u64 bs0;
       (chcommit, bs0) \<leftarrow> fld_u64 bs0;
       (chcheckpoint_op, bs0) \<leftarrow> fld_u64 bs0;
       (chgroup, bs0) \<leftarrow> fld_u64 bs0;
       (chpartition_incarnation, bs0) \<leftarrow> fld_u64 bs0;
       (chreserved, bs0) \<leftarrow> fld_bytes 72 bs0;
       if bs0 = []
       then Some (Frame.extend frame
         (CommitHeader.fields chcommit_checksum chtimestamp_monotonic chcommit
            chcheckpoint_op chgroup chpartition_incarnation chreserved))
       else None
     }"

lemma cast_CommitHeader_iff:
  "cast_CommitHeader bs = Some h \<longleftrightarrow> wf_CommitHeader h \<and> bs = put_CommitHeader h"
  by (cases h)
    (auto simp: cast_CommitHeader_def put_CommitHeader_def wf_CommitHeader_def
      bind_eq_Some_conv cast_simps CommitHeader.defs)

lemma length_put_CommitHeader: "wf_CommitHeader h \<Longrightarrow> length (put_CommitHeader h) = 256"
  by (simp add: put_CommitHeader_def wf_CommitHeader_def)

definition validate_CommitHeader :: "CommitHeader \<Rightarrow> ConsensusError + unit" where
  "validate_CommitHeader h =
     (if fr_command h \<noteq> CmdCommit then Err CommitInvalidCommand
      else if fr_size h \<noteq> 256 then Err (CommitInvalidSize (fr_size h))
      else Ok ())"

definition commit_kind :: "unit CommitHeader_ext HeaderKind" where
  "commit_kind =
     \<lparr>COMMAND = CmdCommit, IDENTITY_CHECKSUMMED = False, OPERATION_OFFSET = None,
      accepts = (\<lambda>c. c = CmdCommit), FRAME_SEALED = True, validate = validate_CommitHeader,
      header_cast = cast_CommitHeader, header_bytes = put_CommitHeader\<rparr>"

interpretation commit_layout: header_layout commit_kind wf_CommitHeader
  by unfold_locales
    (auto simp: commit_kind_def cast_CommitHeader_iff length_put_CommitHeader put_CommitHeader_def
      wf_CommitHeader_def HEADER_SIZE_def put_frame_payload wf_frame_checksum
      validate_CommitHeader_def)

section \<open>View change\<close>

record StartViewChangeHeader = Frame +
  svc_group :: u64
  svc_partition_incarnation :: u64
  svc_reserved :: bytes

definition put_StartViewChangeHeader :: "StartViewChangeHeader \<Rightarrow> bytes" where
  "put_StartViewChangeHeader h =
     put_frame h @ to_le_bytes (svc_group h) @
     to_le_bytes (svc_partition_incarnation h) @
     svc_reserved h"

definition wf_StartViewChangeHeader :: "StartViewChangeHeader \<Rightarrow> bool" where
  "wf_StartViewChangeHeader h \<longleftrightarrow> wf_frame h \<and>
     length (svc_reserved h) = 112"

definition cast_StartViewChangeHeader :: "bytes \<Rightarrow> StartViewChangeHeader option" where
  "cast_StartViewChangeHeader bs0 =
     do {
       (frame, bs0) \<leftarrow> get_frame bs0;
       (svcgroup, bs0) \<leftarrow> fld_u64 bs0;
       (svcpartition_incarnation, bs0) \<leftarrow> fld_u64 bs0;
       (svcreserved, bs0) \<leftarrow> fld_bytes 112 bs0;
       if bs0 = []
       then Some (Frame.extend frame
         (StartViewChangeHeader.fields svcgroup svcpartition_incarnation svcreserved))
       else None
     }"

lemma cast_StartViewChangeHeader_iff:
  "cast_StartViewChangeHeader bs = Some h \<longleftrightarrow> wf_StartViewChangeHeader h \<and> bs = put_StartViewChangeHeader h"
  by (cases h)
    (auto simp: cast_StartViewChangeHeader_def put_StartViewChangeHeader_def wf_StartViewChangeHeader_def
      bind_eq_Some_conv cast_simps StartViewChangeHeader.defs)

lemma length_put_StartViewChangeHeader: "wf_StartViewChangeHeader h \<Longrightarrow> length (put_StartViewChangeHeader h) = 256"
  by (simp add: put_StartViewChangeHeader_def wf_StartViewChangeHeader_def)

definition validate_StartViewChangeHeader :: "StartViewChangeHeader \<Rightarrow> ConsensusError + unit" where
  "validate_StartViewChangeHeader h =
     (if fr_command h \<noteq> CmdStartViewChange then Err (InvalidCommand CmdStartViewChange (fr_command h))
      else if fr_release h \<noteq> 0 then Err (InvalidField ''release != 0'')
      else Ok ())"

definition start_view_change_kind :: "unit StartViewChangeHeader_ext HeaderKind" where
  "start_view_change_kind =
     \<lparr>COMMAND = CmdStartViewChange, IDENTITY_CHECKSUMMED = False, OPERATION_OFFSET = None,
      accepts = (\<lambda>c. c = CmdStartViewChange), FRAME_SEALED = True, validate = validate_StartViewChangeHeader,
      header_cast = cast_StartViewChangeHeader, header_bytes = put_StartViewChangeHeader\<rparr>"

interpretation start_view_change_layout: header_layout start_view_change_kind wf_StartViewChangeHeader
  by unfold_locales
    (auto simp: start_view_change_kind_def cast_StartViewChangeHeader_iff length_put_StartViewChangeHeader put_StartViewChangeHeader_def
      wf_StartViewChangeHeader_def HEADER_SIZE_def put_frame_payload wf_frame_checksum
      validate_StartViewChangeHeader_def)

definition DVC_HEADERS_MAX :: nat where "DVC_HEADERS_MAX = 128"

definition suffix_len_of :: "string \<Rightarrow> u32 \<Rightarrow> ConsensusError + nat" where
  "suffix_len_of frame sz =
     (if unat sz < HEADER_SIZE
      then Err (InvalidField (frame @ '': size '' @ decimal (unat sz) @ '' is shorter than the '' @
             decimal HEADER_SIZE @ ''-byte header''))
      else
        let body_len = unat sz - HEADER_SIZE;
            suffix_len = body_len div HEADER_SIZE
        in if body_len mod HEADER_SIZE \<noteq> 0
           then Err (InvalidField (frame @ '': body of '' @ decimal body_len @
                  '' bytes is not a whole number of headers''))
           else if suffix_len > DVC_HEADERS_MAX
           then Err (InvalidField (frame @ '': '' @ decimal suffix_len @
                  '' suffix entries exceeds the maximum '' @ decimal DVC_HEADERS_MAX))
           else Ok suffix_len)"

record DoViewChangeHeader = Frame +
  dvc_op :: u64
  dvc_commit :: u64
  dvc_group :: u64
  dvc_log_view :: u32
  dvc_flags :: u8
  dvc_reserved :: bytes
  dvc_partition_incarnation :: u64
  dvc_nack_bitset :: u128
  dvc_present_bitset :: u128

definition put_DoViewChangeHeader :: "DoViewChangeHeader \<Rightarrow> bytes" where
  "put_DoViewChangeHeader h =
     put_frame h @ to_le_bytes (dvc_op h) @
     to_le_bytes (dvc_commit h) @
     to_le_bytes (dvc_group h) @
     to_le_bytes (dvc_log_view h) @
     [dvc_flags h] @
     dvc_reserved h @
     to_le_bytes (dvc_partition_incarnation h) @
     to_le_bytes (dvc_nack_bitset h) @
     to_le_bytes (dvc_present_bitset h)"

definition wf_DoViewChangeHeader :: "DoViewChangeHeader \<Rightarrow> bool" where
  "wf_DoViewChangeHeader h \<longleftrightarrow> wf_frame h \<and>
     length (dvc_reserved h) = 59"

definition cast_DoViewChangeHeader :: "bytes \<Rightarrow> DoViewChangeHeader option" where
  "cast_DoViewChangeHeader bs0 =
     do {
       (frame, bs0) \<leftarrow> get_frame bs0;
       (dvcop, bs0) \<leftarrow> fld_u64 bs0;
       (dvccommit, bs0) \<leftarrow> fld_u64 bs0;
       (dvcgroup, bs0) \<leftarrow> fld_u64 bs0;
       (dvclog_view, bs0) \<leftarrow> fld_u32 bs0;
       (dvcflags, bs0) \<leftarrow> fld_u8 bs0;
       (dvcreserved, bs0) \<leftarrow> fld_bytes 59 bs0;
       (dvcpartition_incarnation, bs0) \<leftarrow> fld_u64 bs0;
       (dvcnack_bitset, bs0) \<leftarrow> fld_u128 bs0;
       (dvcpresent_bitset, bs0) \<leftarrow> fld_u128 bs0;
       if bs0 = []
       then Some (Frame.extend frame
         (DoViewChangeHeader.fields dvcop dvccommit dvcgroup dvclog_view dvcflags dvcreserved
            dvcpartition_incarnation dvcnack_bitset dvcpresent_bitset))
       else None
     }"

lemma cast_DoViewChangeHeader_iff:
  "cast_DoViewChangeHeader bs = Some h \<longleftrightarrow> wf_DoViewChangeHeader h \<and> bs = put_DoViewChangeHeader h"
  by (cases h)
    (auto simp: cast_DoViewChangeHeader_def put_DoViewChangeHeader_def wf_DoViewChangeHeader_def
      bind_eq_Some_conv cast_simps DoViewChangeHeader.defs)

lemma length_put_DoViewChangeHeader: "wf_DoViewChangeHeader h \<Longrightarrow> length (put_DoViewChangeHeader h) = 256"
  by (simp add: put_DoViewChangeHeader_def wf_DoViewChangeHeader_def)

definition FLAG_UNTRUSTED_LOG :: u8 where "FLAG_UNTRUSTED_LOG = 1"

definition FLAGS_KNOWN :: u8 where "FLAGS_KNOWN = FLAG_UNTRUSTED_LOG"

definition untrusted_log :: "DoViewChangeHeader \<Rightarrow> bool" where
  "untrusted_log h \<longleftrightarrow> dvc_flags h AND FLAG_UNTRUSTED_LOG \<noteq> 0"

definition dvc_suffix_len :: "DoViewChangeHeader \<Rightarrow> ConsensusError + nat" where
  "dvc_suffix_len h = suffix_len_of ''do_view_change'' (fr_size h)"

definition validate_DoViewChangeHeader :: "DoViewChangeHeader \<Rightarrow> ConsensusError + unit" where
  "validate_DoViewChangeHeader h =
     (if fr_command h \<noteq> CmdDoViewChange then Err (InvalidCommand CmdDoViewChange (fr_command h))
      else if fr_release h \<noteq> 0 then Err (InvalidField ''release must be 0'')
      else if dvc_log_view h > fr_view h then Err (InvalidField ''log_view cannot exceed view'')
      else if dvc_commit h > dvc_op h then Err (InvalidField ''commit cannot exceed op'')
      else if dvc_flags h AND NOT FLAGS_KNOWN \<noteq> 0
        then Err (InvalidField (''do_view_change: unknown flag bits '' @
               hex04 (dvc_flags h AND NOT FLAGS_KNOWN)))
      else rbind (dvc_suffix_len h) (\<lambda>suffix_len.
        if suffix_len < DVC_HEADERS_MAX then
          let beyond = NOT (push_bit suffix_len 1 - 1)
          in if dvc_nack_bitset h AND beyond \<noteq> 0 \<or> dvc_present_bitset h AND beyond \<noteq> 0
             then Err (InvalidField (''do_view_change: bitset bits set past the '' @
                    decimal suffix_len @ ''-entry suffix''))
             else Ok ()
        else Ok ()))"

definition do_view_change_kind :: "unit DoViewChangeHeader_ext HeaderKind" where
  "do_view_change_kind =
     \<lparr>COMMAND = CmdDoViewChange, IDENTITY_CHECKSUMMED = False, OPERATION_OFFSET = None,
      accepts = (\<lambda>c. c = CmdDoViewChange), FRAME_SEALED = True, validate = validate_DoViewChangeHeader,
      header_cast = cast_DoViewChangeHeader, header_bytes = put_DoViewChangeHeader\<rparr>"

interpretation do_view_change_layout: header_layout do_view_change_kind wf_DoViewChangeHeader
  by unfold_locales
    (auto simp: do_view_change_kind_def cast_DoViewChangeHeader_iff length_put_DoViewChangeHeader put_DoViewChangeHeader_def
      wf_DoViewChangeHeader_def HEADER_SIZE_def put_frame_payload wf_frame_checksum
      validate_DoViewChangeHeader_def dvc_suffix_len_def Let_def cong: if_cong)

record StartViewHeader = Frame +
  stv_op :: u64
  stv_commit :: u64
  stv_group :: u64
  stv_partition_incarnation :: u64
  stv_reserved :: bytes
  stv_incarnation :: u128

definition put_StartViewHeader :: "StartViewHeader \<Rightarrow> bytes" where
  "put_StartViewHeader h =
     put_frame h @ to_le_bytes (stv_op h) @
     to_le_bytes (stv_commit h) @
     to_le_bytes (stv_group h) @
     to_le_bytes (stv_partition_incarnation h) @
     stv_reserved h @
     to_le_bytes (stv_incarnation h)"

definition wf_StartViewHeader :: "StartViewHeader \<Rightarrow> bool" where
  "wf_StartViewHeader h \<longleftrightarrow> wf_frame h \<and>
     length (stv_reserved h) = 80"

definition cast_StartViewHeader :: "bytes \<Rightarrow> StartViewHeader option" where
  "cast_StartViewHeader bs0 =
     do {
       (frame, bs0) \<leftarrow> get_frame bs0;
       (stvop, bs0) \<leftarrow> fld_u64 bs0;
       (stvcommit, bs0) \<leftarrow> fld_u64 bs0;
       (stvgroup, bs0) \<leftarrow> fld_u64 bs0;
       (stvpartition_incarnation, bs0) \<leftarrow> fld_u64 bs0;
       (stvreserved, bs0) \<leftarrow> fld_bytes 80 bs0;
       (stvincarnation, bs0) \<leftarrow> fld_u128 bs0;
       if bs0 = []
       then Some (Frame.extend frame
         (StartViewHeader.fields stvop stvcommit stvgroup stvpartition_incarnation stvreserved
            stvincarnation))
       else None
     }"

lemma cast_StartViewHeader_iff:
  "cast_StartViewHeader bs = Some h \<longleftrightarrow> wf_StartViewHeader h \<and> bs = put_StartViewHeader h"
  by (cases h)
    (auto simp: cast_StartViewHeader_def put_StartViewHeader_def wf_StartViewHeader_def
      bind_eq_Some_conv cast_simps StartViewHeader.defs)

lemma length_put_StartViewHeader: "wf_StartViewHeader h \<Longrightarrow> length (put_StartViewHeader h) = 256"
  by (simp add: put_StartViewHeader_def wf_StartViewHeader_def)

definition stv_suffix_len :: "StartViewHeader \<Rightarrow> ConsensusError + nat" where
  "stv_suffix_len h = suffix_len_of ''start_view'' (fr_size h)"

definition validate_StartViewHeader :: "StartViewHeader \<Rightarrow> ConsensusError + unit" where
  "validate_StartViewHeader h =
     (if fr_command h \<noteq> CmdStartView then Err (InvalidCommand CmdStartView (fr_command h))
      else if fr_release h \<noteq> 0 then Err (InvalidField ''release must be 0'')
      else if stv_commit h > stv_op h then Err (InvalidField ''commit cannot exceed op'')
      else rbind (stv_suffix_len h) (\<lambda>_. Ok ()))"

definition start_view_kind :: "unit StartViewHeader_ext HeaderKind" where
  "start_view_kind =
     \<lparr>COMMAND = CmdStartView, IDENTITY_CHECKSUMMED = False, OPERATION_OFFSET = None,
      accepts = (\<lambda>c. c = CmdStartView), FRAME_SEALED = True, validate = validate_StartViewHeader,
      header_cast = cast_StartViewHeader, header_bytes = put_StartViewHeader\<rparr>"

interpretation start_view_layout: header_layout start_view_kind wf_StartViewHeader
  by unfold_locales
    (auto simp: start_view_kind_def cast_StartViewHeader_iff length_put_StartViewHeader put_StartViewHeader_def
      wf_StartViewHeader_def HEADER_SIZE_def put_frame_payload wf_frame_checksum
      validate_StartViewHeader_def stv_suffix_len_def)

record RequestStartViewHeader = Frame +
  rsv_group :: u64
  rsv_partition_incarnation :: u64
  rsv_reserved :: bytes
  rsv_incarnation :: u128

definition put_RequestStartViewHeader :: "RequestStartViewHeader \<Rightarrow> bytes" where
  "put_RequestStartViewHeader h =
     put_frame h @ to_le_bytes (rsv_group h) @
     to_le_bytes (rsv_partition_incarnation h) @
     rsv_reserved h @
     to_le_bytes (rsv_incarnation h)"

definition wf_RequestStartViewHeader :: "RequestStartViewHeader \<Rightarrow> bool" where
  "wf_RequestStartViewHeader h \<longleftrightarrow> wf_frame h \<and>
     length (rsv_reserved h) = 96"

definition cast_RequestStartViewHeader :: "bytes \<Rightarrow> RequestStartViewHeader option" where
  "cast_RequestStartViewHeader bs0 =
     do {
       (frame, bs0) \<leftarrow> get_frame bs0;
       (rsvgroup, bs0) \<leftarrow> fld_u64 bs0;
       (rsvpartition_incarnation, bs0) \<leftarrow> fld_u64 bs0;
       (rsvreserved, bs0) \<leftarrow> fld_bytes 96 bs0;
       (rsvincarnation, bs0) \<leftarrow> fld_u128 bs0;
       if bs0 = []
       then Some (Frame.extend frame
         (RequestStartViewHeader.fields rsvgroup rsvpartition_incarnation rsvreserved rsvincarnation))
       else None
     }"

lemma cast_RequestStartViewHeader_iff:
  "cast_RequestStartViewHeader bs = Some h \<longleftrightarrow> wf_RequestStartViewHeader h \<and> bs = put_RequestStartViewHeader h"
  by (cases h)
    (auto simp: cast_RequestStartViewHeader_def put_RequestStartViewHeader_def wf_RequestStartViewHeader_def
      bind_eq_Some_conv cast_simps RequestStartViewHeader.defs)

lemma length_put_RequestStartViewHeader: "wf_RequestStartViewHeader h \<Longrightarrow> length (put_RequestStartViewHeader h) = 256"
  by (simp add: put_RequestStartViewHeader_def wf_RequestStartViewHeader_def)

definition validate_RequestStartViewHeader :: "RequestStartViewHeader \<Rightarrow> ConsensusError + unit" where
  "validate_RequestStartViewHeader h =
     (if fr_command h \<noteq> CmdRequestStartView then Err (InvalidCommand CmdRequestStartView (fr_command h))
      else if fr_release h \<noteq> 0 then Err (InvalidField ''release must be 0'')
      else Ok ())"

definition request_start_view_kind :: "unit RequestStartViewHeader_ext HeaderKind" where
  "request_start_view_kind =
     \<lparr>COMMAND = CmdRequestStartView, IDENTITY_CHECKSUMMED = False, OPERATION_OFFSET = None,
      accepts = (\<lambda>c. c = CmdRequestStartView), FRAME_SEALED = True, validate = validate_RequestStartViewHeader,
      header_cast = cast_RequestStartViewHeader, header_bytes = put_RequestStartViewHeader\<rparr>"

interpretation request_start_view_layout: header_layout request_start_view_kind wf_RequestStartViewHeader
  by unfold_locales
    (auto simp: request_start_view_kind_def cast_RequestStartViewHeader_iff length_put_RequestStartViewHeader put_RequestStartViewHeader_def
      wf_RequestStartViewHeader_def HEADER_SIZE_def put_frame_payload wf_frame_checksum
      validate_RequestStartViewHeader_def)

section \<open>Journal repair\<close>

record RequestPreparesHeader = Frame +
  rqp_nonce :: u128
  rqp_from_op :: u64
  rqp_to_op :: u64
  rqp_group :: u64
  rqp_partition_incarnation :: u64
  rqp_reserved :: bytes

definition put_RequestPreparesHeader :: "RequestPreparesHeader \<Rightarrow> bytes" where
  "put_RequestPreparesHeader h =
     put_frame h @ to_le_bytes (rqp_nonce h) @
     to_le_bytes (rqp_from_op h) @
     to_le_bytes (rqp_to_op h) @
     to_le_bytes (rqp_group h) @
     to_le_bytes (rqp_partition_incarnation h) @
     rqp_reserved h"

definition wf_RequestPreparesHeader :: "RequestPreparesHeader \<Rightarrow> bool" where
  "wf_RequestPreparesHeader h \<longleftrightarrow> wf_frame h \<and>
     length (rqp_reserved h) = 80"

definition cast_RequestPreparesHeader :: "bytes \<Rightarrow> RequestPreparesHeader option" where
  "cast_RequestPreparesHeader bs0 =
     do {
       (frame, bs0) \<leftarrow> get_frame bs0;
       (rqpnonce, bs0) \<leftarrow> fld_u128 bs0;
       (rqpfrom_op, bs0) \<leftarrow> fld_u64 bs0;
       (rqpto_op, bs0) \<leftarrow> fld_u64 bs0;
       (rqpgroup, bs0) \<leftarrow> fld_u64 bs0;
       (rqppartition_incarnation, bs0) \<leftarrow> fld_u64 bs0;
       (rqpreserved, bs0) \<leftarrow> fld_bytes 80 bs0;
       if bs0 = []
       then Some (Frame.extend frame
         (RequestPreparesHeader.fields rqpnonce rqpfrom_op rqpto_op rqpgroup rqppartition_incarnation
            rqpreserved))
       else None
     }"

lemma cast_RequestPreparesHeader_iff:
  "cast_RequestPreparesHeader bs = Some h \<longleftrightarrow> wf_RequestPreparesHeader h \<and> bs = put_RequestPreparesHeader h"
  by (cases h)
    (auto simp: cast_RequestPreparesHeader_def put_RequestPreparesHeader_def wf_RequestPreparesHeader_def
      bind_eq_Some_conv cast_simps RequestPreparesHeader.defs)

lemma length_put_RequestPreparesHeader: "wf_RequestPreparesHeader h \<Longrightarrow> length (put_RequestPreparesHeader h) = 256"
  by (simp add: put_RequestPreparesHeader_def wf_RequestPreparesHeader_def)

definition validate_RequestPreparesHeader :: "RequestPreparesHeader \<Rightarrow> ConsensusError + unit" where
  "validate_RequestPreparesHeader h =
     (if fr_command h \<noteq> CmdRequestPrepares then Err (InvalidCommand CmdRequestPrepares (fr_command h))
      else if rqp_from_op h = 0 \<or> rqp_from_op h > rqp_to_op h
        then Err (InvalidField ''repair range must be non-empty and 1-based'')
      else Ok ())"

definition request_prepares_kind :: "unit RequestPreparesHeader_ext HeaderKind" where
  "request_prepares_kind =
     \<lparr>COMMAND = CmdRequestPrepares, IDENTITY_CHECKSUMMED = False, OPERATION_OFFSET = None,
      accepts = (\<lambda>c. c = CmdRequestPrepares), FRAME_SEALED = True, validate = validate_RequestPreparesHeader,
      header_cast = cast_RequestPreparesHeader, header_bytes = put_RequestPreparesHeader\<rparr>"

interpretation request_prepares_layout: header_layout request_prepares_kind wf_RequestPreparesHeader
  by unfold_locales
    (auto simp: request_prepares_kind_def cast_RequestPreparesHeader_iff length_put_RequestPreparesHeader put_RequestPreparesHeader_def
      wf_RequestPreparesHeader_def HEADER_SIZE_def put_frame_payload wf_frame_checksum
      validate_RequestPreparesHeader_def)

record RepairRangeReplyHeader = Frame +
  rrr_nonce :: u128
  rrr_op :: u64
  rrr_group :: u64
  rrr_partition_incarnation :: u64
  rrr_reserved :: bytes

definition put_RepairRangeReplyHeader :: "RepairRangeReplyHeader \<Rightarrow> bytes" where
  "put_RepairRangeReplyHeader h =
     put_frame h @ to_le_bytes (rrr_nonce h) @
     to_le_bytes (rrr_op h) @
     to_le_bytes (rrr_group h) @
     to_le_bytes (rrr_partition_incarnation h) @
     rrr_reserved h"

definition wf_RepairRangeReplyHeader :: "RepairRangeReplyHeader \<Rightarrow> bool" where
  "wf_RepairRangeReplyHeader h \<longleftrightarrow> wf_frame h \<and>
     length (rrr_reserved h) = 88"

definition cast_RepairRangeReplyHeader :: "bytes \<Rightarrow> RepairRangeReplyHeader option" where
  "cast_RepairRangeReplyHeader bs0 =
     do {
       (frame, bs0) \<leftarrow> get_frame bs0;
       (rrrnonce, bs0) \<leftarrow> fld_u128 bs0;
       (rrrop, bs0) \<leftarrow> fld_u64 bs0;
       (rrrgroup, bs0) \<leftarrow> fld_u64 bs0;
       (rrrpartition_incarnation, bs0) \<leftarrow> fld_u64 bs0;
       (rrrreserved, bs0) \<leftarrow> fld_bytes 88 bs0;
       if bs0 = []
       then Some (Frame.extend frame
         (RepairRangeReplyHeader.fields rrrnonce rrrop rrrgroup rrrpartition_incarnation rrrreserved))
       else None
     }"

lemma cast_RepairRangeReplyHeader_iff:
  "cast_RepairRangeReplyHeader bs = Some h \<longleftrightarrow> wf_RepairRangeReplyHeader h \<and> bs = put_RepairRangeReplyHeader h"
  by (cases h)
    (auto simp: cast_RepairRangeReplyHeader_def put_RepairRangeReplyHeader_def wf_RepairRangeReplyHeader_def
      bind_eq_Some_conv cast_simps RepairRangeReplyHeader.defs)

lemma length_put_RepairRangeReplyHeader: "wf_RepairRangeReplyHeader h \<Longrightarrow> length (put_RepairRangeReplyHeader h) = 256"
  by (simp add: put_RepairRangeReplyHeader_def wf_RepairRangeReplyHeader_def)

definition validate_RepairRangeReplyHeader :: "RepairRangeReplyHeader \<Rightarrow> ConsensusError + unit" where
  "validate_RepairRangeReplyHeader h =
     (if fr_command h \<noteq> CmdRepairDone \<and> fr_command h \<noteq> CmdRangeEvicted
        then Err (InvalidCommand CmdRepairDone (fr_command h))
      else Ok ())"

definition repair_range_reply_kind :: "unit RepairRangeReplyHeader_ext HeaderKind" where
  "repair_range_reply_kind =
     \<lparr>COMMAND = CmdRepairDone, IDENTITY_CHECKSUMMED = False, OPERATION_OFFSET = None,
      accepts = (\<lambda>c. c = CmdRepairDone \<or> c = CmdRangeEvicted), FRAME_SEALED = True, validate = validate_RepairRangeReplyHeader,
      header_cast = cast_RepairRangeReplyHeader, header_bytes = put_RepairRangeReplyHeader\<rparr>"

interpretation repair_range_reply_layout: header_layout repair_range_reply_kind wf_RepairRangeReplyHeader
  by unfold_locales
    (auto simp: repair_range_reply_kind_def cast_RepairRangeReplyHeader_iff length_put_RepairRangeReplyHeader put_RepairRangeReplyHeader_def
      wf_RepairRangeReplyHeader_def HEADER_SIZE_def put_frame_payload wf_frame_checksum
      validate_RepairRangeReplyHeader_def)

section \<open>State transfer\<close>

record RequestStateTransferHeader = Frame +
  rst_nonce :: u128
  rst_group :: u64
  rst_partition_incarnation :: u64
  rst_reserved :: bytes

definition put_RequestStateTransferHeader :: "RequestStateTransferHeader \<Rightarrow> bytes" where
  "put_RequestStateTransferHeader h =
     put_frame h @ to_le_bytes (rst_nonce h) @
     to_le_bytes (rst_group h) @
     to_le_bytes (rst_partition_incarnation h) @
     rst_reserved h"

definition wf_RequestStateTransferHeader :: "RequestStateTransferHeader \<Rightarrow> bool" where
  "wf_RequestStateTransferHeader h \<longleftrightarrow> wf_frame h \<and>
     length (rst_reserved h) = 96"

definition cast_RequestStateTransferHeader :: "bytes \<Rightarrow> RequestStateTransferHeader option" where
  "cast_RequestStateTransferHeader bs0 =
     do {
       (frame, bs0) \<leftarrow> get_frame bs0;
       (rstnonce, bs0) \<leftarrow> fld_u128 bs0;
       (rstgroup, bs0) \<leftarrow> fld_u64 bs0;
       (rstpartition_incarnation, bs0) \<leftarrow> fld_u64 bs0;
       (rstreserved, bs0) \<leftarrow> fld_bytes 96 bs0;
       if bs0 = []
       then Some (Frame.extend frame
         (RequestStateTransferHeader.fields rstnonce rstgroup rstpartition_incarnation rstreserved))
       else None
     }"

lemma cast_RequestStateTransferHeader_iff:
  "cast_RequestStateTransferHeader bs = Some h \<longleftrightarrow> wf_RequestStateTransferHeader h \<and> bs = put_RequestStateTransferHeader h"
  by (cases h)
    (auto simp: cast_RequestStateTransferHeader_def put_RequestStateTransferHeader_def wf_RequestStateTransferHeader_def
      bind_eq_Some_conv cast_simps RequestStateTransferHeader.defs)

lemma length_put_RequestStateTransferHeader: "wf_RequestStateTransferHeader h \<Longrightarrow> length (put_RequestStateTransferHeader h) = 256"
  by (simp add: put_RequestStateTransferHeader_def wf_RequestStateTransferHeader_def)

definition validate_RequestStateTransferHeader :: "RequestStateTransferHeader \<Rightarrow> ConsensusError + unit" where
  "validate_RequestStateTransferHeader h =
     (if fr_command h \<noteq> CmdRequestStateTransfer then Err (InvalidCommand CmdRequestStateTransfer (fr_command h))
      else if unat (fr_size h) \<noteq> HEADER_SIZE then Err (InvalidSize (of_nat HEADER_SIZE) (fr_size h))
      else Ok ())"

definition request_state_transfer_kind :: "unit RequestStateTransferHeader_ext HeaderKind" where
  "request_state_transfer_kind =
     \<lparr>COMMAND = CmdRequestStateTransfer, IDENTITY_CHECKSUMMED = False, OPERATION_OFFSET = None,
      accepts = (\<lambda>c. c = CmdRequestStateTransfer), FRAME_SEALED = True, validate = validate_RequestStateTransferHeader,
      header_cast = cast_RequestStateTransferHeader, header_bytes = put_RequestStateTransferHeader\<rparr>"

interpretation request_state_transfer_layout: header_layout request_state_transfer_kind wf_RequestStateTransferHeader
  by unfold_locales
    (auto simp: request_state_transfer_kind_def cast_RequestStateTransferHeader_iff length_put_RequestStateTransferHeader put_RequestStateTransferHeader_def
      wf_RequestStateTransferHeader_def HEADER_SIZE_def put_frame_payload wf_frame_checksum
      validate_RequestStateTransferHeader_def)

record StateTransferTargetHeader = Frame +
  stt_nonce :: u128
  stt_commit_op :: u64
  stt_group :: u64
  stt_available :: u8
  stt_unavailable_transient :: u8
  stt_reserved_alignment :: bytes
  stt_commit_max :: u64
  stt_partition_incarnation :: u64
  stt_reserved :: bytes

definition put_StateTransferTargetHeader :: "StateTransferTargetHeader \<Rightarrow> bytes" where
  "put_StateTransferTargetHeader h =
     put_frame h @ to_le_bytes (stt_nonce h) @
     to_le_bytes (stt_commit_op h) @
     to_le_bytes (stt_group h) @
     [stt_available h] @
     [stt_unavailable_transient h] @
     stt_reserved_alignment h @
     to_le_bytes (stt_commit_max h) @
     to_le_bytes (stt_partition_incarnation h) @
     stt_reserved h"

definition wf_StateTransferTargetHeader :: "StateTransferTargetHeader \<Rightarrow> bool" where
  "wf_StateTransferTargetHeader h \<longleftrightarrow> wf_frame h \<and>
     length (stt_reserved_alignment h) = 6 \<and>
     length (stt_reserved h) = 72"

definition cast_StateTransferTargetHeader :: "bytes \<Rightarrow> StateTransferTargetHeader option" where
  "cast_StateTransferTargetHeader bs0 =
     do {
       (frame, bs0) \<leftarrow> get_frame bs0;
       (sttnonce, bs0) \<leftarrow> fld_u128 bs0;
       (sttcommit_op, bs0) \<leftarrow> fld_u64 bs0;
       (sttgroup, bs0) \<leftarrow> fld_u64 bs0;
       (sttavailable, bs0) \<leftarrow> fld_u8 bs0;
       (sttunavailable_transient, bs0) \<leftarrow> fld_u8 bs0;
       (sttreserved_alignment, bs0) \<leftarrow> fld_bytes 6 bs0;
       (sttcommit_max, bs0) \<leftarrow> fld_u64 bs0;
       (sttpartition_incarnation, bs0) \<leftarrow> fld_u64 bs0;
       (sttreserved, bs0) \<leftarrow> fld_bytes 72 bs0;
       if bs0 = []
       then Some (Frame.extend frame
         (StateTransferTargetHeader.fields sttnonce sttcommit_op sttgroup sttavailable
            sttunavailable_transient sttreserved_alignment sttcommit_max
            sttpartition_incarnation sttreserved))
       else None
     }"

lemma cast_StateTransferTargetHeader_iff:
  "cast_StateTransferTargetHeader bs = Some h \<longleftrightarrow> wf_StateTransferTargetHeader h \<and> bs = put_StateTransferTargetHeader h"
  by (cases h)
    (auto simp: cast_StateTransferTargetHeader_def put_StateTransferTargetHeader_def wf_StateTransferTargetHeader_def
      bind_eq_Some_conv cast_simps StateTransferTargetHeader.defs)

lemma length_put_StateTransferTargetHeader: "wf_StateTransferTargetHeader h \<Longrightarrow> length (put_StateTransferTargetHeader h) = 256"
  by (simp add: put_StateTransferTargetHeader_def wf_StateTransferTargetHeader_def)

definition validate_StateTransferTargetHeader :: "StateTransferTargetHeader \<Rightarrow> ConsensusError + unit" where
  "validate_StateTransferTargetHeader h =
     (if fr_command h \<noteq> CmdStateTransferTarget then Err (InvalidCommand CmdStateTransferTarget (fr_command h))
      else if stt_available h > 1 then Err (InvalidField ''available must be 0 or 1'')
      else if stt_unavailable_transient h > 1
        then Err (InvalidField ''unavailable_transient must be 0 or 1'')
      else if stt_available h = 1 \<and> stt_unavailable_transient h = 1
        then Err (InvalidField ''unavailable_transient must be 0 on an available offer'')
      else if stt_available h = 0 \<and> unat (fr_size h) \<noteq> HEADER_SIZE
        then Err (InvalidField ''unavailable descriptor must be header-only'')
      else Ok ())"

definition state_transfer_target_kind :: "unit StateTransferTargetHeader_ext HeaderKind" where
  "state_transfer_target_kind =
     \<lparr>COMMAND = CmdStateTransferTarget, IDENTITY_CHECKSUMMED = False, OPERATION_OFFSET = None,
      accepts = (\<lambda>c. c = CmdStateTransferTarget), FRAME_SEALED = True, validate = validate_StateTransferTargetHeader,
      header_cast = cast_StateTransferTargetHeader, header_bytes = put_StateTransferTargetHeader\<rparr>"

interpretation state_transfer_target_layout: header_layout state_transfer_target_kind wf_StateTransferTargetHeader
  by unfold_locales
    (auto simp: state_transfer_target_kind_def cast_StateTransferTargetHeader_iff length_put_StateTransferTargetHeader put_StateTransferTargetHeader_def
      wf_StateTransferTargetHeader_def HEADER_SIZE_def put_frame_payload wf_frame_checksum
      validate_StateTransferTargetHeader_def)

record RequestStateChunkHeader = Frame +
  rsc_nonce :: u128
  rsc_offset :: u64
  rsc_group :: u64
  rsc_len :: u32
  rsc_artifact :: u32
  rsc_partition_incarnation :: u64
  rsc_reserved :: bytes

definition put_RequestStateChunkHeader :: "RequestStateChunkHeader \<Rightarrow> bytes" where
  "put_RequestStateChunkHeader h =
     put_frame h @ to_le_bytes (rsc_nonce h) @
     to_le_bytes (rsc_offset h) @
     to_le_bytes (rsc_group h) @
     to_le_bytes (rsc_len h) @
     to_le_bytes (rsc_artifact h) @
     to_le_bytes (rsc_partition_incarnation h) @
     rsc_reserved h"

definition wf_RequestStateChunkHeader :: "RequestStateChunkHeader \<Rightarrow> bool" where
  "wf_RequestStateChunkHeader h \<longleftrightarrow> wf_frame h \<and>
     length (rsc_reserved h) = 80"

definition cast_RequestStateChunkHeader :: "bytes \<Rightarrow> RequestStateChunkHeader option" where
  "cast_RequestStateChunkHeader bs0 =
     do {
       (frame, bs0) \<leftarrow> get_frame bs0;
       (rscnonce, bs0) \<leftarrow> fld_u128 bs0;
       (rscoffset, bs0) \<leftarrow> fld_u64 bs0;
       (rscgroup, bs0) \<leftarrow> fld_u64 bs0;
       (rsclen, bs0) \<leftarrow> fld_u32 bs0;
       (rscartifact, bs0) \<leftarrow> fld_u32 bs0;
       (rscpartition_incarnation, bs0) \<leftarrow> fld_u64 bs0;
       (rscreserved, bs0) \<leftarrow> fld_bytes 80 bs0;
       if bs0 = []
       then Some (Frame.extend frame
         (RequestStateChunkHeader.fields rscnonce rscoffset rscgroup rsclen rscartifact
            rscpartition_incarnation rscreserved))
       else None
     }"

lemma cast_RequestStateChunkHeader_iff:
  "cast_RequestStateChunkHeader bs = Some h \<longleftrightarrow> wf_RequestStateChunkHeader h \<and> bs = put_RequestStateChunkHeader h"
  by (cases h)
    (auto simp: cast_RequestStateChunkHeader_def put_RequestStateChunkHeader_def wf_RequestStateChunkHeader_def
      bind_eq_Some_conv cast_simps RequestStateChunkHeader.defs)

lemma length_put_RequestStateChunkHeader: "wf_RequestStateChunkHeader h \<Longrightarrow> length (put_RequestStateChunkHeader h) = 256"
  by (simp add: put_RequestStateChunkHeader_def wf_RequestStateChunkHeader_def)

definition validate_RequestStateChunkHeader :: "RequestStateChunkHeader \<Rightarrow> ConsensusError + unit" where
  "validate_RequestStateChunkHeader h =
     (if fr_command h \<noteq> CmdRequestStateChunk then Err (InvalidCommand CmdRequestStateChunk (fr_command h))
      else if rsc_len h = 0 then Err (InvalidField ''chunk len must be non-zero'')
      else if unat (fr_size h) \<noteq> HEADER_SIZE then Err (InvalidSize (of_nat HEADER_SIZE) (fr_size h))
      else Ok ())"

definition request_state_chunk_kind :: "unit RequestStateChunkHeader_ext HeaderKind" where
  "request_state_chunk_kind =
     \<lparr>COMMAND = CmdRequestStateChunk, IDENTITY_CHECKSUMMED = False, OPERATION_OFFSET = None,
      accepts = (\<lambda>c. c = CmdRequestStateChunk), FRAME_SEALED = True, validate = validate_RequestStateChunkHeader,
      header_cast = cast_RequestStateChunkHeader, header_bytes = put_RequestStateChunkHeader\<rparr>"

interpretation request_state_chunk_layout: header_layout request_state_chunk_kind wf_RequestStateChunkHeader
  by unfold_locales
    (auto simp: request_state_chunk_kind_def cast_RequestStateChunkHeader_iff length_put_RequestStateChunkHeader put_RequestStateChunkHeader_def
      wf_RequestStateChunkHeader_def HEADER_SIZE_def put_frame_payload wf_frame_checksum
      validate_RequestStateChunkHeader_def)

record StateChunkHeader = Frame +
  sc_nonce :: u128
  sc_offset :: u64
  sc_group :: u64
  sc_artifact :: u32
  sc_reserved :: bytes
  sc_partition_incarnation :: u64

definition put_StateChunkHeader :: "StateChunkHeader \<Rightarrow> bytes" where
  "put_StateChunkHeader h =
     put_frame h @ to_le_bytes (sc_nonce h) @
     to_le_bytes (sc_offset h) @
     to_le_bytes (sc_group h) @
     to_le_bytes (sc_artifact h) @
     sc_reserved h @
     to_le_bytes (sc_partition_incarnation h)"

definition wf_StateChunkHeader :: "StateChunkHeader \<Rightarrow> bool" where
  "wf_StateChunkHeader h \<longleftrightarrow> wf_frame h \<and>
     length (sc_reserved h) = 84"

definition cast_StateChunkHeader :: "bytes \<Rightarrow> StateChunkHeader option" where
  "cast_StateChunkHeader bs0 =
     do {
       (frame, bs0) \<leftarrow> get_frame bs0;
       (scnonce, bs0) \<leftarrow> fld_u128 bs0;
       (scoffset, bs0) \<leftarrow> fld_u64 bs0;
       (scgroup, bs0) \<leftarrow> fld_u64 bs0;
       (scartifact, bs0) \<leftarrow> fld_u32 bs0;
       (screserved, bs0) \<leftarrow> fld_bytes 84 bs0;
       (scpartition_incarnation, bs0) \<leftarrow> fld_u64 bs0;
       if bs0 = []
       then Some (Frame.extend frame
         (StateChunkHeader.fields scnonce scoffset scgroup scartifact screserved
            scpartition_incarnation))
       else None
     }"

lemma cast_StateChunkHeader_iff:
  "cast_StateChunkHeader bs = Some h \<longleftrightarrow> wf_StateChunkHeader h \<and> bs = put_StateChunkHeader h"
  by (cases h)
    (auto simp: cast_StateChunkHeader_def put_StateChunkHeader_def wf_StateChunkHeader_def
      bind_eq_Some_conv cast_simps StateChunkHeader.defs)

lemma length_put_StateChunkHeader: "wf_StateChunkHeader h \<Longrightarrow> length (put_StateChunkHeader h) = 256"
  by (simp add: put_StateChunkHeader_def wf_StateChunkHeader_def)

definition validate_StateChunkHeader :: "StateChunkHeader \<Rightarrow> ConsensusError + unit" where
  "validate_StateChunkHeader h =
     (if fr_command h \<noteq> CmdStateChunk then Err (InvalidCommand CmdStateChunk (fr_command h))
      else if unat (fr_size h) < HEADER_SIZE
        then Err (InvalidField ''state chunk size below header size'')
      else Ok ())"

definition state_chunk_kind :: "unit StateChunkHeader_ext HeaderKind" where
  "state_chunk_kind =
     \<lparr>COMMAND = CmdStateChunk, IDENTITY_CHECKSUMMED = False, OPERATION_OFFSET = None,
      accepts = (\<lambda>c. c = CmdStateChunk), FRAME_SEALED = True, validate = validate_StateChunkHeader,
      header_cast = cast_StateChunkHeader, header_bytes = put_StateChunkHeader\<rparr>"

interpretation state_chunk_layout: header_layout state_chunk_kind wf_StateChunkHeader
  by unfold_locales
    (auto simp: state_chunk_kind_def cast_StateChunkHeader_iff length_put_StateChunkHeader put_StateChunkHeader_def
      wf_StateChunkHeader_def HEADER_SIZE_def put_frame_payload wf_frame_checksum
      validate_StateChunkHeader_def)

end
