(* ===== verification/Wire_Message.thy ===== *)
theory Wire_Message
  imports Wire_Control
begin

text \<open>
  Messages (\<open>src/core/server_common/src/consensus_message.rs\<close>): a buffer that starts with a header of
  a given kind. \<open>Message<H>\<close> is its bytes; the kind is an argument. \<open>try_from\<close> parses a buffer as a
  message of one kind, \<open>try_into_typed\<close> retypes a received message by its command, and a failed cast is
  classified as a release skew or as damage. Where the code would panic the model returns \<open>None\<close>.
\<close>

section \<open>The model\<close>

definition operation_byte_is_trustworthy :: "(bytes \<Rightarrow> u64) \<Rightarrow> 'x HeaderKind \<Rightarrow> bytes \<Rightarrow> bool" where
  "operation_byte_is_trustworthy xxh3 k bs =
     (if \<not> FRAME_SEALED k \<and> \<not> IDENTITY_CHECKSUMMED k then True
      else if length bs < HEADER_SIZE then False
      else
        let header = take HEADER_SIZE bs;
            expected = (if FRAME_SEALED k then frame_checksum_bytes xxh3 header
                        else prepare_identity_checksum_bytes xxh3 header)
        in from_le_bytes (take 16 header) = expected)"

definition classify_failed_cast :: "(bytes \<Rightarrow> u64) \<Rightarrow> 'x HeaderKind \<Rightarrow> bytes \<Rightarrow> ConsensusError" where
  "classify_failed_cast xxh3 k bs =
     (case OPERATION_OFFSET k of
        Some offset \<Rightarrow>
          (case get_at bs offset of
             Some code \<Rightarrow>
               if \<not> is_known_code code \<and> operation_byte_is_trustworthy xxh3 k bs
               then UnsupportedOperation code else InvalidBitPattern
           | None \<Rightarrow> InvalidBitPattern)
      | None \<Rightarrow> InvalidBitPattern)"

text \<open>The checked cast of a buffer's first 256 bytes, with its error.\<close>

definition cast_header ::
    "(bytes \<Rightarrow> u64) \<Rightarrow> 'x HeaderKind \<Rightarrow> bytes \<Rightarrow> ConsensusError + 'x Frame_scheme" where
  "cast_header xxh3 k bs = ok_or (classify_failed_cast xxh3 k bs) (header_cast k (take HEADER_SIZE bs))"

definition message_try_from :: "(bytes \<Rightarrow> u64) \<Rightarrow> 'x HeaderKind \<Rightarrow> bytes \<Rightarrow> ConsensusError + bytes" where
  "message_try_from xxh3 k bs =
     (if length bs < HEADER_SIZE then Err (InvalidCommand (COMMAND k) CmdReserved)
      else
        rbind (cast_header xxh3 k bs) (\<lambda>header.
        rbind (validate k header) (\<lambda>_.
        if unat (fr_size header) < HEADER_SIZE then Err (InvalidCommand (COMMAND k) CmdReserved)
        else if length bs < unat (fr_size header) then Err (InvalidCommand (COMMAND k) CmdReserved)
        else Ok bs)))"

definition message_header :: "'x HeaderKind \<Rightarrow> bytes \<Rightarrow> 'x Frame_scheme option" where
  "message_header k bs = header_cast k (take HEADER_SIZE bs)"

definition message_body :: "'x HeaderKind \<Rightarrow> bytes \<Rightarrow> bytes option" where
  "message_body k bs =
     do {
       header \<leftarrow> message_header k bs;
       let end = unat (fr_size header) in
       if HEADER_SIZE \<le> end \<and> end \<le> length bs
       then Some (take (end - HEADER_SIZE) (drop HEADER_SIZE bs))
       else None
     }"

definition try_into_typed ::
    "(bytes \<Rightarrow> u64) \<Rightarrow> 'x HeaderKind \<Rightarrow> bytes \<Rightarrow> (ConsensusError + bytes) option" where
  "try_into_typed xxh3 k bs =
     (if length bs < HEADER_SIZE then Some (Err (InvalidCommand (COMMAND k) CmdReserved))
      else case message_header generic_kind bs of
        None \<Rightarrow> None
      | Some generic \<Rightarrow>
          Some
            (if \<not> accepts k (fr_command generic)
             then Err (InvalidCommand (COMMAND k) (fr_command generic))
             else
               rbind (cast_header xxh3 k bs) (\<lambda>typed.
               rbind (verify_frame xxh3 k typed) (\<lambda>_.
               rbind (validate k typed) (\<lambda>_.
               Ok bs)))))"

text \<open>
  \<open>into_routed\<close> clears the bytes where the server-internal layout keeps the metadata watermark and
  the group, 240 to 256, and parses the buffer as that layout.
\<close>

definition into_routed :: "(bytes \<Rightarrow> u64) \<Rightarrow> bytes \<Rightarrow> bytes option" where
  "into_routed xxh3 bs =
     (case message_try_from xxh3 routed_request_kind
             (take 240 bs @ replicate 16 0 @ drop 256 bs) of
        Inl _ \<Rightarrow> None
      | Inr routed \<Rightarrow> Some routed)"

section \<open>What a receiver accepts\<close>

context header_layout
begin

lemma generic_cast:
  assumes "well_formed h"
  shows "\<exists>rest. header_cast generic_kind (header_bytes kind h) =
           Some (Frame.extend (Frame.truncate h) (GenericHeader.fields rest))"
proof -
  obtain rest where rest: "header_bytes kind h = put_frame h @ rest"
    using prefix [OF assms] by blast
  moreover have "wf_frame h"
    using assms by (rule well_formed_frame)
  moreover from this have "length rest = 128"
    using length_bytes [OF assms] rest by (simp add: HEADER_SIZE_def)
  ultimately have "header_cast generic_kind (header_bytes kind h) =
      Some (Frame.extend (Frame.truncate h) (GenericHeader.fields rest))"
    by (simp add: generic_layout.cast_iff wf_GenericHeader_def)
      (simp add: generic_kind_def put_GenericHeader_def GenericHeader.defs Frame.defs put_frame_def wf_frame_def)
  then show ?thesis ..
qed

lemma message_header_bytes: "well_formed h \<Longrightarrow> message_header kind (header_bytes kind h @ body) = Some h"
  by (simp add: message_header_def length_bytes cast_bytes)

lemma generic_header:
  assumes "well_formed h"
  shows "\<exists>g. message_header generic_kind (header_bytes kind h @ body) = Some g \<and>
           fr_command g = fr_command h \<and> fr_size g = fr_size h"
  using generic_cast [OF assms]
  by (auto simp: message_header_def length_bytes [OF assms] Frame.defs)

lemma message_roundtrip:
  assumes "well_formed h" and "validate kind h = Ok ()"
    and "unat (fr_size h) = HEADER_SIZE + length body"
  shows "message_try_from xxh3 kind (header_bytes kind h @ body) = Ok (header_bytes kind h @ body)"
    and "message_body kind (header_bytes kind h @ body) = Some body"
  using assms
  by (simp_all add: message_try_from_def cast_header_def cast_bytes length_bytes
    message_body_def message_header_bytes)

lemma try_into_typed_sealed:
  assumes "well_formed h" and "validate kind h = Ok ()" and "accepts kind (fr_command h)"
  shows "try_into_typed xxh3 kind (header_bytes kind (seal xxh3 kind h) @ body) =
           Some (Ok (header_bytes kind (seal xxh3 kind h) @ body))"
proof -
  have wf: "well_formed (seal xxh3 kind h)"
    using assms(1) by (simp add: seal_well_formed)
  from generic_header [OF wf, of body] show ?thesis
    using assms
    by (auto simp: try_into_typed_def cast_header_def cast_bytes [OF wf]
      length_bytes [OF wf] seal_command seal_verifies seal_validate)
qed

lemma try_into_typed_Ok:
  assumes "try_into_typed xxh3 kind bs = Some (Ok bs')"
  shows "bs' = bs"
    and "\<exists>h. message_header kind bs = Some h \<and> validate kind h = Ok () \<and>
           verify_frame xxh3 kind h = Ok ()"
  using assms
  by (auto simp: try_into_typed_def cast_header_def message_header_def rbind_eq_Ok ok_or_def
    split: if_splits option.splits)

lemma generic_roundtrip:
  assumes "well_formed h" and "unat (fr_size h) = HEADER_SIZE + length body"
  shows "message_try_from xxh3 generic_kind (header_bytes kind h @ body) = Ok (header_bytes kind h @ body)"
proof -
  obtain g where "message_header generic_kind (header_bytes kind h @ body) = Some g"
      and "fr_size g = fr_size h"
    using generic_header [OF assms(1)] by blast
  moreover have "validate generic_kind g = Ok ()"
    by (simp add: generic_kind_def)
  ultimately show ?thesis
    using assms by (simp add: message_try_from_def cast_header_def message_header_def length_bytes)
qed

lemma typed_frame_hash:
  assumes "try_into_typed xxh3 kind bs = Some (Ok bs')" and "FRAME_SEALED kind"
  shows "from_le_bytes (take 16 bs) = (ucast (xxh3 (take 240 (drop 16 bs))) :: u128)"
proof -
  obtain h where "header_cast kind (take HEADER_SIZE bs) = Some h" and "verify_frame xxh3 kind h = Ok ()"
    using try_into_typed_Ok(2) [OF assms(1)] by (auto simp: message_header_def)
  from verified_frame_hash [OF this(1) assms(2) this(2)] show ?thesis
    by (simp add: HEADER_SIZE_def drop_take)
qed

end

text \<open>
  C18. A view-change vote survives the link or is refused. A \<open>DoViewChange\<close> frame that its sender
  validated and sealed is parsed by the receiver as that header and that body, first as a generic
  message and then as a typed one. Conversely a frame the receiver accepts as a \<open>DoViewChange\<close> carries
  the hash of all its header bytes past the checksum, so a change of any of those bytes is accepted
  only on a collision of the hash, and its header passes \<open>validate\<close>.
\<close>

theorem do_view_change_frame:
  fixes h :: DoViewChangeHeader
  assumes "wf_DoViewChangeHeader h" and "validate_DoViewChangeHeader h = Ok ()"
    and "unat (fr_size h) = HEADER_SIZE + length body"
    and frame: "frame = put_DoViewChangeHeader (seal xxh3 do_view_change_kind h) @ body"
  shows "message_try_from xxh3 generic_kind frame = Ok frame \<and>
    try_into_typed xxh3 do_view_change_kind frame = Some (Ok frame) \<and>
    message_header do_view_change_kind frame = Some (seal xxh3 do_view_change_kind h) \<and>
    message_body do_view_change_kind frame = Some body \<and>
    (try_into_typed xxh3 do_view_change_kind bs = Some (Ok bs') \<longrightarrow>
       from_le_bytes (take 16 bs) = (ucast (xxh3 (take 240 (drop 16 bs))) :: u128) \<and>
       (\<exists>h'. message_header do_view_change_kind bs = Some h' \<and> validate_DoViewChangeHeader h' = Ok ()))"
proof -
  have valid: "validate do_view_change_kind h = Ok ()"
    using assms(2) by (simp add: do_view_change_kind_def)
  have put: "put_DoViewChangeHeader = header_bytes do_view_change_kind"
    by (simp add: do_view_change_kind_def)
  note wf = do_view_change_layout.seal_well_formed [THEN iffD2, OF assms(1)]
  have size: "unat (fr_size (seal xxh3 do_view_change_kind h)) = HEADER_SIZE + length body"
    using assms(3) by (simp add: do_view_change_layout.seal_size)
  have "accepts do_view_change_kind (fr_command h)"
    using assms(2)
    by (auto simp: do_view_change_kind_def validate_DoViewChangeHeader_def split: if_splits)
  then have typed: "try_into_typed xxh3 do_view_change_kind frame = Some (Ok frame)"
    unfolding frame put by (intro do_view_change_layout.try_into_typed_sealed assms(1) valid)
  have received: "from_le_bytes (take 16 bs) = (ucast (xxh3 (take 240 (drop 16 bs))) :: u128) \<and>
      (\<exists>h'. message_header do_view_change_kind bs = Some h' \<and> validate_DoViewChangeHeader h' = Ok ())"
    if "try_into_typed xxh3 do_view_change_kind bs = Some (Ok bs')"
    using do_view_change_layout.typed_frame_hash [OF that]
      do_view_change_layout.try_into_typed_Ok(2) [OF that]
    by (auto simp: do_view_change_kind_def)
  have "message_header do_view_change_kind frame = Some (seal xxh3 do_view_change_kind h)"
    unfolding frame put using wf by (rule do_view_change_layout.message_header_bytes)
  moreover have "message_body do_view_change_kind frame = Some body"
    unfolding frame put using wf valid size
    by (intro do_view_change_layout.message_roundtrip(2)) (simp_all add: do_view_change_layout.seal_validate)
  moreover have "message_try_from xxh3 generic_kind frame = Ok frame"
    unfolding frame put using wf size by (rule do_view_change_layout.generic_roundtrip)
  ultimately show ?thesis
    using typed received by blast
qed

definition sample_dvc :: DoViewChangeHeader where
  "sample_dvc =
     \<lparr>fr_checksum = 0, fr_checksum_body = 0, fr_cluster = 7, fr_size = 256, fr_view = 3, fr_release = 0,
      fr_command = CmdDoViewChange, fr_replica = 1, fr_reserved_frame = replicate 66 0,
      dvc_op = 9, dvc_commit = 4, dvc_group = 0, dvc_log_view = 2, dvc_flags = 1,
      dvc_reserved = replicate 59 0, dvc_partition_incarnation = 0, dvc_nack_bitset = 0,
      dvc_present_bitset = 0\<rparr>"

theorem do_view_change_frame_witness:
  "let frame = put_DoViewChangeHeader (seal (\<lambda>bs. of_nat (length bs)) do_view_change_kind sample_dvc)
   in message_try_from (\<lambda>bs. of_nat (length bs)) generic_kind frame = Ok frame \<and>
      try_into_typed (\<lambda>bs. of_nat (length bs)) do_view_change_kind frame = Some (Ok frame)"
proof -
  have "wf_DoViewChangeHeader sample_dvc"
    by (simp add: sample_dvc_def wf_DoViewChangeHeader_def wf_frame_def)
  moreover have "validate_DoViewChangeHeader sample_dvc = Ok ()"
    by (simp add: sample_dvc_def validate_DoViewChangeHeader_def dvc_suffix_len_def suffix_len_of_def
      HEADER_SIZE_def DVC_HEADERS_MAX_def FLAGS_KNOWN_def FLAG_UNTRUSTED_LOG_def)
  moreover have "unat (fr_size sample_dvc) = HEADER_SIZE + length []"
    by (simp add: sample_dvc_def HEADER_SIZE_def)
  ultimately show ?thesis
    using do_view_change_frame [of sample_dvc "[]" _ "\<lambda>bs. of_nat (length bs)", OF _ _ _ refl]
    by (simp add: Let_def)
qed

section \<open>Crossing into the server\<close>

text \<open>What promotion means on the header: every client field is kept, the routing fields are zero.\<close>

definition routed_of :: "RequestHeader \<Rightarrow> RoutedRequestHeader" where
  "routed_of h =
     Frame.extend (Frame.truncate h)
       (RoutedRequestHeader.fields (rq_client h) (rq_request_checksum h) (rq_timestamp h)
          (rq_request h) (rq_operation h) (rq_operation_padding h) (rq_session h) (rq_user_id h)
          (rq_reserved h) (rq_partition_incarnation h) (rq_owner_generation h)
          (rq_minimum_metadata_op h) (take 16 (rq_reserved_tail h)) 0 0)"

lemma put_routed_of:
  assumes "wf_RequestHeader h"
  shows "take 240 (put_RequestHeader h @ rest) @ replicate 16 0 @ drop 256 (put_RequestHeader h @ rest) =
           put_RoutedRequestHeader (routed_of h) @ rest"
proof -
  have zeros: "replicate 16 0 = replicate 8 (0 :: u8) @ replicate 8 0"
    by (simp flip: replicate_add)
  show ?thesis
    using assms
    by (simp add: put_RequestHeader_def put_RoutedRequestHeader_def wf_RequestHeader_def
      routed_of_def Frame.defs RoutedRequestHeader.defs put_frame_def wf_frame_def
      to_le_bytes_zero zeros)
qed

lemma wf_routed_of: "wf_RequestHeader h \<Longrightarrow> wf_RoutedRequestHeader (routed_of h)"
  by (simp add: wf_RequestHeader_def wf_RoutedRequestHeader_def routed_of_def Frame.defs
    RoutedRequestHeader.defs wf_frame_def)

lemma validate_routed_of: "validate_RoutedRequestHeader (routed_of h) = validate_RequestHeader h"
  by (simp add: validate_RoutedRequestHeader_def validate_RequestHeader_def routed_of_def Frame.defs
    RoutedRequestHeader.defs)

text \<open>
  C17. A client cannot choose where its request is routed. Every message that parses as a client
  request is promoted without a panic; the promoted header has a zero group and a zero metadata
  watermark, whatever the client put in the bytes that the server layout claims, and keeps every
  other field and the body.
\<close>

theorem into_routed_safe:
  assumes "message_try_from xxh3 request_kind bs = Ok bs'"
  shows "\<exists>h r. message_header request_kind bs = Some h \<and> into_routed xxh3 bs = Some r \<and>
    message_header routed_request_kind r = Some (routed_of h) \<and>
    rr_group (routed_of h) = 0 \<and> rr_metadata_watermark (routed_of h) = 0 \<and>
    message_body routed_request_kind r = message_body request_kind bs"
proof -
  from assms obtain h where cast: "header_cast request_kind (take HEADER_SIZE bs) = Some h"
      and valid: "validate request_kind h = Ok ()"
      and size: "HEADER_SIZE \<le> unat (fr_size h)" "unat (fr_size h) \<le> length bs"
    by (auto simp: message_try_from_def cast_header_def rbind_eq_Ok ok_or_def
      split: if_splits option.splits)
  then have wf: "wf_RequestHeader h" and "take HEADER_SIZE bs = put_RequestHeader h"
    by (auto simp: request_layout.cast_iff) (simp add: request_kind_def)
  then obtain rest where bs: "bs = put_RequestHeader h @ rest"
    by (metis append_take_drop_id)
  let ?r = "put_RoutedRequestHeader (routed_of h) @ rest"
  have header: "message_header routed_request_kind ?r = Some (routed_of h)"
    using routed_request_layout.message_header_bytes [OF wf_routed_of [OF wf]]
    by (simp add: routed_request_kind_def)
  have same_size: "fr_size (routed_of h) = fr_size h"
    by (simp add: routed_of_def Frame.defs)
  have len: "length (put_RoutedRequestHeader (routed_of h)) = HEADER_SIZE"
      "length (put_RequestHeader h) = HEADER_SIZE"
    using wf by (simp_all add: length_put_RoutedRequestHeader wf_routed_of length_put_RequestHeader HEADER_SIZE_def)
  have "message_try_from xxh3 routed_request_kind ?r = Ok ?r"
    using header valid size len
    by (simp add: message_try_from_def cast_header_def message_header_def same_size bs
      routed_request_kind_def request_kind_def validate_routed_of)
  then have "into_routed xxh3 bs = Some ?r"
    unfolding into_routed_def bs put_routed_of [OF wf] by simp
  moreover have "message_body routed_request_kind ?r = message_body request_kind bs"
    using header cast len by (simp add: message_body_def message_header_def same_size bs Let_def)
  moreover have "rr_group (routed_of h) = 0" "rr_metadata_watermark (routed_of h) = 0"
    by (simp_all add: routed_of_def Frame.defs RoutedRequestHeader.defs)
  ultimately show ?thesis
    using header cast unfolding message_header_def by blast
qed

definition sample_request :: RequestHeader where
  "sample_request =
     default_RequestHeader
       \<lparr>fr_size := 258, fr_command := CmdRequest, rq_client := 5, rq_session := 3, rq_request := 8,
        rq_operation := OpSendMessages, rq_reserved_tail := replicate 32 255\<rparr>"

theorem into_routed_safe_witness:
  "\<exists>h r. message_header request_kind (put_RequestHeader sample_request @ [1, 2]) = Some h \<and>
     into_routed (\<lambda>_. 0) (put_RequestHeader sample_request @ [1, 2]) = Some r \<and>
     message_header routed_request_kind r = Some (routed_of h)"
proof -
  have "message_try_from (\<lambda>_. 0) request_kind (header_bytes request_kind sample_request @ [1, 2]) =
      Ok (header_bytes request_kind sample_request @ [1, 2])"
    by (rule request_layout.message_roundtrip(1))
      (simp_all add: sample_request_def default_RequestHeader_def wf_RequestHeader_def wf_frame_def
        request_kind_def validate_RequestHeader_def validate_request_fields_def HEADER_SIZE_def)
  then show ?thesis
    using into_routed_safe [of "\<lambda>_. 0" "put_RequestHeader sample_request @ [1, 2]"]
    by (auto simp: request_kind_def)
qed

end
