(* ===== verification/Vsr_Quorum.thy ===== *)
theory Vsr_Quorum
  imports Iggy_Base
begin

text \<open>
  The quorum sizes of a replica (\<open>src/core/consensus/src/impls.rs\<close>): how many acknowledgements
  commit an op, how many votes start a view, how many nacks prove an op uncommitted. They are
  functions of the cluster size, a byte. The locale \<open>quorum_pair\<close> is what the protocol needs of two of
  them: any two quorums share a replica.
\<close>

section \<open>The model\<close>

definition REPLICAS_MAX :: nat where "REPLICAS_MAX = 32"

definition QUORUM_REPLICATION_MAX :: nat where "QUORUM_REPLICATION_MAX = 3"

definition max_faulty :: "u8 \<Rightarrow> nat" where
  "max_faulty replica_count = (unat replica_count - 1) div 2"

definition quorum_replication :: "u8 \<Rightarrow> nat" where
  "quorum_replication replica_count =
     (if replica_count = 2 then 2
      else
        let half_rounded_up = (unat replica_count + 1) div 2
        in if half_rounded_up < QUORUM_REPLICATION_MAX then half_rounded_up
           else QUORUM_REPLICATION_MAX)"

definition quorum_view_change :: "u8 \<Rightarrow> nat" where
  "quorum_view_change replica_count =
     (if replica_count = 2 then 2
      else unat replica_count - quorum_replication replica_count + 1)"

definition quorum_nack_prepare :: "u8 \<Rightarrow> nat" where
  "quorum_nack_prepare replica_count = unat replica_count - quorum_replication replica_count + 1"

section \<open>Intersection\<close>

lemma card_inter_nonempty:
  assumes "A \<subseteq> {..<n}" and "B \<subseteq> {..<n}" and "n < card A + card B"
  shows "A \<inter> B \<noteq> {}"
proof
  assume "A \<inter> B = {}"
  moreover have "finite A" "finite B"
    using assms(1,2) by (auto intro: finite_subset)
  ultimately have "card A + card B = card (A \<union> B)"
    by (simp add: card_Un_disjoint)
  also have "\<dots> \<le> card {..<n}"
    using assms(1,2) by (intro card_mono) auto
  finally show False
    using assms(3) by simp
qed

locale quorum_pair =
  fixes size1 :: "u8 \<Rightarrow> nat" and size2 :: "u8 \<Rightarrow> nat"
  assumes attainable: "0 < n \<Longrightarrow> size1 n \<le> unat n \<and> size2 n \<le> unat n"
    and positive: "0 < n \<Longrightarrow> 0 < size1 n \<and> 0 < size2 n"
    and overlap: "0 < n \<Longrightarrow> unat n < size1 n + size2 n"
begin

lemma intersect:
  assumes "0 < n" and "A \<subseteq> {..<unat n}" and "B \<subseteq> {..<unat n}"
    and "size1 n \<le> card A" and "size2 n \<le> card B"
  shows "A \<inter> B \<noteq> {}"
  using assms overlap [of n] by (intro card_inter_nonempty [of _ "unat n"]) simp_all

text \<open>The complement of a quorum of the first kind is too small for a quorum of the second.\<close>

lemma complement_small:
  assumes "0 < n" and "A \<subseteq> {..<unat n}" and "size1 n \<le> card A" and "B \<subseteq> {..<unat n} - A"
  shows "card B < size2 n"
proof (rule ccontr)
  assume "\<not> card B < size2 n"
  then have "A \<inter> B \<noteq> {}"
    using assms by (intro intersect [of n]) auto
  with assms(4) show False
    by blast
qed

end

lemma replica_count_cases: "0 < (n :: u8) \<Longrightarrow> n = 2 \<or> unat n \<noteq> 2 \<and> 0 < unat n"
  using word_unat_eq_iff [of n 2] by (auto simp: word_less_nat_alt)

lemmas quorum_defs = quorum_replication_def quorum_view_change_def quorum_nack_prepare_def
  QUORUM_REPLICATION_MAX_def Let_def

interpretation replication_view_change: quorum_pair quorum_replication quorum_view_change
  by unfold_locales (auto simp: quorum_defs dest!: replica_count_cases)

interpretation replication_nack: quorum_pair quorum_replication quorum_nack_prepare
  by unfold_locales (auto simp: quorum_defs dest!: replica_count_cases)

interpretation view_change_view_change: quorum_pair quorum_view_change quorum_view_change
  by unfold_locales (auto simp: quorum_defs dest!: replica_count_cases)

text \<open>
  C12. The quorums of a cluster of any size fit the cluster and intersect: any replicas whose acks
  commit an op share one with any replicas whose votes start a view, and so do two sets of votes
  for views; and when an op is committed, the replicas that did not acknowledge it are too few to
  be a nack quorum against it.
\<close>

theorem quorums_intersect:
  assumes "0 < n" and "acks \<subseteq> {..<unat n}" and "quorum_replication n \<le> card acks"
    and "votes \<subseteq> {..<unat n}" and "quorum_view_change n \<le> card votes"
    and "votes' \<subseteq> {..<unat n}" and "quorum_view_change n \<le> card votes'"
    and "nackers \<subseteq> {..<unat n} - acks"
  shows "quorum_replication n \<le> unat n \<and> quorum_view_change n \<le> unat n \<and>
    acks \<inter> votes \<noteq> {} \<and> votes \<inter> votes' \<noteq> {} \<and> card nackers < quorum_nack_prepare n"
  using replication_view_change.attainable [OF assms(1)]
    replication_view_change.intersect [OF assms(1,2,4,3,5)]
    view_change_view_change.intersect [OF assms(1,4,6,5,7)]
    replication_nack.complement_small [OF assms(1-3) assms(8)]
  by blast

theorem quorums_intersect_witness:
  "{0, 1} \<inter> {1, 2} \<noteq> ({} :: nat set) \<and> card {2 :: nat} < quorum_nack_prepare 3"
proof -
  have sizes: "quorum_replication 3 = 2" "quorum_view_change 3 = 2"
    by (simp_all add: quorum_defs)
  have u: "{..<unat (3 :: u8)} = {0, 1, 2}"
    by auto
  from quorums_intersect [of 3 "{0, 1}" "{1, 2}" "{0, 2}" "{2}"] show ?thesis
    by (simp add: sizes u)
qed

end
