(* ===== verification/View_Change_Quorum.thy ===== *)
theory View_Change_Quorum
  imports Wire_Message Vsr_Quorum
begin

text \<open>
  The votes of a view change (\<open>src/core/consensus/src/view_change_quorum.rs\<close>): the suffix of prepare
  headers a vote carries with its nack and body bits, the array of received votes, and the decoder
  of a suffix from the body of a frame.
\<close>

section \<open>Suffixes\<close>

text \<open>\<open>dst_len\<close> is the length of the destination buffer; the \<open>assert_eq\<close> on it panics otherwise.\<close>

definition encode_prepare_headers :: "PrepareHeader list \<Rightarrow> nat \<Rightarrow> bytes option" where
  "encode_prepare_headers headers dst_len =
     (if dst_len = length headers * HEADER_SIZE
      then Some (concat (map put_PrepareHeader headers)) else None)"

definition dvc_blank :: "u64 \<Rightarrow> PrepareHeader" where
  "dvc_blank op =
     default_PrepareHeader\<lparr>fr_command := CmdPrepare, ph_operation := OpReserved, ph_op := op\<rparr>"

datatype DvcHeaderKind = Blank | Valid

definition dvc_header_kind :: "PrepareHeader \<Rightarrow> DvcHeaderKind" where
  "dvc_header_kind header = (if header = dvc_blank (ph_op header) then Blank else Valid)"

record DvcSuffix =
  sf_headers :: "PrepareHeader list"
  sf_nack_bitset :: u128
  sf_present_bitset :: u128

text \<open>The bits a suffix of \<open>n\<close> entries must not set.\<close>

definition bits_beyond :: "nat \<Rightarrow> u128" where
  "bits_beyond n = NOT (push_bit n 1 - 1)"

definition suffix_new :: "PrepareHeader list \<Rightarrow> u128 \<Rightarrow> u128 \<Rightarrow> DvcSuffix option" where
  "suffix_new headers nack present =
     (if length headers > DVC_HEADERS_MAX then None
      else if length headers < DVC_HEADERS_MAX \<and>
        (nack AND bits_beyond (length headers) \<noteq> 0 \<or> present AND bits_beyond (length headers) \<noteq> 0)
      then None
      else Some \<lparr>sf_headers = headers, sf_nack_bitset = nack, sf_present_bitset = present\<rparr>)"

definition suffix_empty :: DvcSuffix where
  "suffix_empty = \<lparr>sf_headers = [], sf_nack_bitset = 0, sf_present_bitset = 0\<rparr>"

definition suffix_len :: "DvcSuffix \<Rightarrow> nat" where
  "suffix_len s = length (sf_headers s)"

definition suffix_is_empty :: "DvcSuffix \<Rightarrow> bool" where
  "suffix_is_empty s \<longleftrightarrow> sf_headers s = []"

definition encoded_len :: "DvcSuffix \<Rightarrow> nat" where
  "encoded_len s = length (sf_headers s) * HEADER_SIZE"

definition encode_into :: "DvcSuffix \<Rightarrow> nat \<Rightarrow> bytes option" where
  "encode_into s dst_len = encode_prepare_headers (sf_headers s) dst_len"

definition index_of :: "DvcSuffix \<Rightarrow> u64 \<Rightarrow> u64 \<Rightarrow> nat option" where
  "index_of s head_op op =
     (case checked_sub head_op op of
        None \<Rightarrow> None
      | Some distance \<Rightarrow> if unat distance < length (sf_headers s) then Some (unat distance) else None)"

definition valid_header_at :: "DvcSuffix \<Rightarrow> nat \<Rightarrow> PrepareHeader option" where
  "valid_header_at s index =
     (case get_at (sf_headers s) index of
        None \<Rightarrow> None
      | Some header \<Rightarrow> if dvc_header_kind header = Valid then Some header else None)"

definition nacks :: "DvcSuffix \<Rightarrow> nat \<Rightarrow> bool" where
  "nacks s index \<longleftrightarrow>
     index < length (sf_headers s) \<and> sf_nack_bitset s AND push_bit index 1 \<noteq> 0"

definition offers_body :: "DvcSuffix \<Rightarrow> nat \<Rightarrow> bool" where
  "offers_body s index \<longleftrightarrow>
     index < length (sf_headers s) \<and> sf_present_bitset s AND push_bit index 1 \<noteq> 0"

section \<open>Received votes\<close>

record StoredDvc =
  sd_replica :: u8
  sd_log_view :: u32
  sd_op :: u64
  sd_commit :: u64
  sd_suffix :: DvcSuffix
  sd_untrusted_log :: bool

definition is_empty_vote :: "StoredDvc \<Rightarrow> bool" where
  "is_empty_vote d \<longleftrightarrow>
     sd_untrusted_log d \<and> sd_log_view d = 0 \<and> sd_op d = 0 \<and> sd_commit d = 0 \<and>
     suffix_is_empty (sd_suffix d)"

type_synonym DvcQuorumArray = "StoredDvc option list"

definition dvc_quorum_array_empty :: DvcQuorumArray where
  "dvc_quorum_array_empty = replicate REPLICAS_MAX None"

text \<open>Indexing the array past its end panics, which is \<open>None\<close> here.\<close>

definition dvc_record :: "DvcQuorumArray \<Rightarrow> StoredDvc \<Rightarrow> (DvcQuorumArray \<times> bool) option" where
  "dvc_record array dvc =
     (case get_at array (unat (sd_replica dvc)) of
        None \<Rightarrow> None
      | Some slot \<Rightarrow>
          if (case slot of None \<Rightarrow> False
              | Some seated \<Rightarrow> \<not> is_empty_vote seated \<or> is_empty_vote dvc)
          then Some (array, False)
          else Some (array[unat (sd_replica dvc) := Some dvc], True))"

definition dvc_iter :: "DvcQuorumArray \<Rightarrow> StoredDvc list" where
  "dvc_iter array = List.map_filter id array"

definition dvc_count :: "DvcQuorumArray \<Rightarrow> nat" where
  "dvc_count array = length (filter (\<lambda>m. m \<noteq> None) array)"

definition dvc_reset :: "DvcQuorumArray \<Rightarrow> DvcQuorumArray" where
  "dvc_reset array = dvc_quorum_array_empty"

section \<open>Decoding a suffix\<close>

datatype DvcSuffixError =
    NotHeaderMultiple nat
  | SuffixTooManyEntries nat
  | MalformedHeader nat
  | OpOutOfOrder nat u64 u64
  | BitsetBeyondSuffix nat
  | SuffixChecksumMismatch nat
  | TimestampNotDecreasing nat
  | ChainBreak nat

text \<open>
  The body of the decode loop for one entry, given the nearest valid entry above it: first the
  checks of the entry itself, then those against the entry above. The result is the entry and the
  new nearest valid entry.
\<close>

definition chain_entry ::
    "(bytes \<Rightarrow> u64) \<Rightarrow> nat \<Rightarrow> PrepareHeader option \<Rightarrow> PrepareHeader \<Rightarrow>
     DvcSuffixError + PrepareHeader \<times> PrepareHeader option" where
  "chain_entry xxh3 index child header =
     (if dvc_header_kind header = Valid then
        (if fr_checksum header \<noteq> CHECKSUM_UNSEALED \<and>
            identity_checksum xxh3 header \<noteq> fr_checksum header
         then Err (SuffixChecksumMismatch index)
         else case child of
           None \<Rightarrow> Ok (header, Some header)
         | Some c \<Rightarrow>
             if ph_timestamp header \<ge> ph_timestamp c then Err (TimestampNotDecreasing index)
             else if ph_op header + 1 = ph_op c \<and> fr_checksum header \<noteq> CHECKSUM_UNSEALED \<and>
               ph_parent c \<noteq> fr_checksum header
             then Err (ChainBreak index)
             else Ok (header, Some header))
      else Ok (header, child))"

definition decode_entry ::
    "(bytes \<Rightarrow> u64) \<Rightarrow> bytes \<Rightarrow> u64 \<Rightarrow> nat \<Rightarrow> PrepareHeader option \<Rightarrow>
     DvcSuffixError + PrepareHeader \<times> PrepareHeader option" where
  "decode_entry xxh3 body head_op index child =
     rbind (ok_or (MalformedHeader index)
              (cast_PrepareHeader (take HEADER_SIZE (drop (index * HEADER_SIZE) body)))) (\<lambda>header.
     rbind (map_err (\<lambda>_. MalformedHeader index) (validate_PrepareHeader header)) (\<lambda>_.
     rbind (ok_or (OpOutOfOrder index 0 (ph_op header)) (checked_sub head_op (of_nat index))) (\<lambda>expected.
     if ph_op header \<noteq> expected then Err (OpOutOfOrder index expected (ph_op header))
     else chain_entry xxh3 index child header)))"

fun decode_entries ::
    "(bytes \<Rightarrow> u64) \<Rightarrow> bytes \<Rightarrow> u64 \<Rightarrow> nat list \<Rightarrow> PrepareHeader option \<Rightarrow>
     DvcSuffixError + PrepareHeader list" where
  "decode_entries xxh3 body head_op [] child = Ok []"
| "decode_entries xxh3 body head_op (index # indices) child =
     rbind (decode_entry xxh3 body head_op index child) (\<lambda>(header, child).
     rbind (decode_entries xxh3 body head_op indices child) (\<lambda>headers.
     Ok (header # headers)))"

text \<open>The outer option is the panic of the final \<open>DvcSuffix::new\<close>.\<close>

definition dvc_suffix_decode ::
    "(bytes \<Rightarrow> u64) \<Rightarrow> bytes \<Rightarrow> u64 \<Rightarrow> u128 \<Rightarrow> u128 \<Rightarrow> (DvcSuffixError + DvcSuffix) option" where
  "dvc_suffix_decode xxh3 body head_op nack present =
     (if length body mod HEADER_SIZE \<noteq> 0 then Some (Err (NotHeaderMultiple (length body)))
      else
        let count = length body div HEADER_SIZE in
        if count > DVC_HEADERS_MAX then Some (Err (SuffixTooManyEntries count))
        else if count < DVC_HEADERS_MAX \<and>
          (nack AND bits_beyond count \<noteq> 0 \<or> present AND bits_beyond count \<noteq> 0)
        then Some (Err (BitsetBeyondSuffix count))
        else case decode_entries xxh3 body head_op [0..<count] None of
          Inl e \<Rightarrow> Some (Err e)
        | Inr headers \<Rightarrow> map_option Ok (suffix_new headers nack present))"

section \<open>What the decoder accepts\<close>

text \<open>
  An entry that stands for itself: a well-formed prepare of the op its position says, with its own
  identity in the checksum unless it is blank or unsealed.
\<close>

definition entry_ok :: "(bytes \<Rightarrow> u64) \<Rightarrow> u64 \<Rightarrow> nat \<Rightarrow> PrepareHeader \<Rightarrow> bool" where
  "entry_ok xxh3 head_op index h \<longleftrightarrow>
     wf_PrepareHeader h \<and> validate_PrepareHeader h = Ok () \<and>
     index \<le> unat head_op \<and> ph_op h = head_op - of_nat index \<and>
     (dvc_header_kind h = Blank \<or> fr_checksum h = CHECKSUM_UNSEALED \<or>
      identity_checksum xxh3 h = fr_checksum h)"

text \<open>An entry below another in one log: earlier, and its parent if it is adjacent and sealed.\<close>

definition below :: "PrepareHeader \<Rightarrow> PrepareHeader \<Rightarrow> bool" where
  "below c h \<longleftrightarrow>
     ph_timestamp h < ph_timestamp c \<and>
     (ph_op h + 1 \<noteq> ph_op c \<or> fr_checksum h = CHECKSUM_UNSEALED \<or> ph_parent c = fr_checksum h)"

definition real_entries :: "PrepareHeader list \<Rightarrow> PrepareHeader list" where
  "real_entries hs = filter (\<lambda>h. dvc_header_kind h = Valid) hs"

definition suffix_bits_ok :: "DvcSuffix \<Rightarrow> bool" where
  "suffix_bits_ok s \<longleftrightarrow>
     suffix_len s \<le> DVC_HEADERS_MAX \<and>
     (suffix_len s = DVC_HEADERS_MAX \<or>
      sf_nack_bitset s AND bits_beyond (suffix_len s) = 0 \<and>
      sf_present_bitset s AND bits_beyond (suffix_len s) = 0)"

definition describes_log :: "(bytes \<Rightarrow> u64) \<Rightarrow> u64 \<Rightarrow> DvcSuffix \<Rightarrow> bool" where
  "describes_log xxh3 head_op s \<longleftrightarrow>
     suffix_bits_ok s \<and>
     list_all2 (entry_ok xxh3 head_op) [0..<suffix_len s] (sf_headers s) \<and>
     successively below (real_entries (sf_headers s))"

lemma header_kind_cases: "dvc_header_kind h \<noteq> Valid \<longleftrightarrow> dvc_header_kind h = Blank"
  by (cases "dvc_header_kind h") simp_all

lemma checked_sub_index:
  "index < 2 ^ 64 \<Longrightarrow> checked_sub (head_op :: u64) (of_nat index) = Some e \<longleftrightarrow>
     index \<le> unat head_op \<and> e = head_op - of_nat index"
  by (auto simp: checked_sub_def word_le_nat_alt unat_of_nat)

lemma ok_or_eq_Ok: "ok_or e x = Ok a \<longleftrightarrow> x = Some a"
  by (auto simp: ok_or_def split: option.splits)

lemma chain_entry_iff:
  "chain_entry xxh3 index child header = Ok (h, child') \<longleftrightarrow>
     h = header \<and>
     (dvc_header_kind h = Blank \<or> fr_checksum h = CHECKSUM_UNSEALED \<or>
      identity_checksum xxh3 h = fr_checksum h) \<and>
     (if dvc_header_kind h = Valid
      then (case child of None \<Rightarrow> True | Some c \<Rightarrow> below c h) \<and> child' = Some h
      else child' = child)"
  by (cases child; cases "dvc_header_kind header") (auto simp: chain_entry_def below_def)

lemma decode_entry_iff:
  assumes "index < 2 ^ 64"
  shows "decode_entry xxh3 body head_op index child = Ok (h, child') \<longleftrightarrow>
    take HEADER_SIZE (drop (index * HEADER_SIZE) body) = put_PrepareHeader h \<and>
    entry_ok xxh3 head_op index h \<and>
    (if dvc_header_kind h = Valid
     then (case child of None \<Rightarrow> True | Some c \<Rightarrow> below c h) \<and> child' = Some h
     else child' = child)"
proof -
  have "decode_entry xxh3 body head_op index child = Ok (h, child') \<longleftrightarrow>
      (\<exists>header. wf_PrepareHeader header \<and>
         take HEADER_SIZE (drop (index * HEADER_SIZE) body) = put_PrepareHeader header \<and>
         validate_PrepareHeader header = Ok () \<and> index \<le> unat head_op \<and>
         ph_op header = head_op - of_nat index \<and> chain_entry xxh3 index child header = Ok (h, child'))"
    by (simp add: decode_entry_def rbind_eq_Ok ok_or_eq_Ok cast_PrepareHeader_iff
      checked_sub_index [OF assms]) metis
  then show ?thesis
    unfolding chain_entry_iff entry_ok_def by metis
qed

lemma decode_entries_Cons:
  "decode_entries xxh3 body head_op (i # is) child = Ok hs \<longleftrightarrow>
     (\<exists>h hs' child'. hs = h # hs' \<and> decode_entry xxh3 body head_op i child = Ok (h, child') \<and>
        decode_entries xxh3 body head_op is child' = Ok hs')"
  by (auto simp: rbind_eq_Ok)

lemma decode_entries_iff:
  "list_all (\<lambda>i. i < 2 ^ 64) is \<Longrightarrow>
   decode_entries xxh3 body head_op is child = Ok hs \<longleftrightarrow>
     list_all2 (\<lambda>i h. take HEADER_SIZE (drop (i * HEADER_SIZE) body) = put_PrepareHeader h \<and>
       entry_ok xxh3 head_op i h) is hs \<and>
     successively below ((case child of None \<Rightarrow> [] | Some c \<Rightarrow> [c]) @ real_entries hs)"
proof (induction "is" arbitrary: child hs)
  case Nil
  then show ?case
    by (auto simp: real_entries_def split: option.splits)
next
  case (Cons i "is")
  then have i: "i < 2 ^ 64" and IH: "\<And>child hs. decode_entries xxh3 body head_op is child = Ok hs \<longleftrightarrow>
     list_all2 (\<lambda>i h. take HEADER_SIZE (drop (i * HEADER_SIZE) body) = put_PrepareHeader h \<and>
       entry_ok xxh3 head_op i h) is hs \<and>
     successively below ((case child of None \<Rightarrow> [] | Some c \<Rightarrow> [c]) @ real_entries hs)"
    by simp_all
  show ?case
  proof (cases hs)
    case Nil
    then show ?thesis
      by (simp add: decode_entries_Cons del: decode_entries.simps)
  next
    case (Cons h hs')
    show ?thesis
      unfolding Cons decode_entries_Cons decode_entry_iff [OF i] IH
      by (cases "dvc_header_kind h"; cases child) (auto simp: real_entries_def)
  qed
qed

text \<open>Cutting the body at multiples of the header size gives back its headers.\<close>

lemma chunks_iff:
  assumes "list_all wf_PrepareHeader hs" and "length body = length hs * HEADER_SIZE"
  shows "list_all2 (\<lambda>i h. take HEADER_SIZE (drop (i * HEADER_SIZE) body) = put_PrepareHeader h) [0..<length hs] hs
    \<longleftrightarrow> body = concat (map put_PrepareHeader hs)"
  using assms
proof (induction hs arbitrary: body)
  case Nil
  then show ?case by simp
next
  case (Cons h hs)
  have shift: "list_all2 P [Suc 0..<Suc (length hs)] hs \<longleftrightarrow> list_all2 (\<lambda>i. P (Suc i)) [0..<length hs] hs"
    for P :: "nat \<Rightarrow> PrepareHeader \<Rightarrow> bool"
    by (simp add: list_all2_conv_all_nth del: upt_Suc)
  have len: "length (put_PrepareHeader h) = HEADER_SIZE"
    using Cons.prems(1) by (simp add: length_put_PrepareHeader HEADER_SIZE_def)
  have split: "body = put_PrepareHeader h @ rest \<longleftrightarrow>
      take HEADER_SIZE body = put_PrepareHeader h \<and> drop HEADER_SIZE body = rest" for rest
    using len by (metis append_eq_conv_conj append_take_drop_id)
  have "list_all2 (\<lambda>i h. take HEADER_SIZE (drop (i * HEADER_SIZE) (drop HEADER_SIZE body)) = put_PrepareHeader h)
      [0..<length hs] hs \<longleftrightarrow> drop HEADER_SIZE body = concat (map put_PrepareHeader hs)"
    using Cons.prems by (intro Cons.IH) simp_all
  moreover have "[0..<length (h # hs)] = 0 # [Suc 0..<Suc (length hs)]"
    by (simp add: upt_conv_Cons del: upt_Suc)
  ultimately show ?case
    by (simp add: split shift add.commute del: upt_Suc)
qed

lemma suffix_new_eq:
  "suffix_new hs nack present =
     (let s = \<lparr>sf_headers = hs, sf_nack_bitset = nack, sf_present_bitset = present\<rparr>
      in if suffix_bits_ok s then Some s else None)"
  by (auto simp: suffix_new_def suffix_bits_ok_def suffix_len_def Let_def)

lemma decode_body_iff:
  assumes "length body = count * HEADER_SIZE" and "count \<le> DVC_HEADERS_MAX"
  shows "decode_entries xxh3 body head_op [0..<count] None = Ok hs \<longleftrightarrow>
    length hs = count \<and> body = concat (map put_PrepareHeader hs) \<and>
    list_all2 (entry_ok xxh3 head_op) [0..<length hs] hs \<and> successively below (real_entries hs)"
proof -
  have "list_all (\<lambda>i. i < 2 ^ 64) [0..<count]"
    using assms(2) by (auto simp: list_all_iff DVC_HEADERS_MAX_def)
  note decode = decode_entries_iff [OF this, of xxh3 body head_op None hs]
  have wf: "list_all wf_PrepareHeader hs" if "list_all2 (entry_ok xxh3 head_op) [0..<count] hs"
    using that by (auto simp: list_all2_conv_all_nth list_all_length entry_ok_def)
  have both: "list_all2 (\<lambda>i h. P i h \<and> Q i h) is hs \<longleftrightarrow> list_all2 P is hs \<and> list_all2 Q is hs"
    for P Q :: "nat \<Rightarrow> PrepareHeader \<Rightarrow> bool" and "is"
    by (auto simp: list_all2_conv_all_nth)
  show ?thesis
  proof (cases "length hs = count")
    case True
    with assms(1) wf chunks_iff [of hs body] show ?thesis
      unfolding decode both by auto
  next
    case False
    then show ?thesis
      unfolding decode by (auto dest: list_all2_lengthD)
  qed
qed

text \<open>The guards before the loop, on the entry count of the body.\<close>

definition body_count :: "bytes \<Rightarrow> nat" where
  "body_count body = length body div HEADER_SIZE"

definition body_ok :: "bytes \<Rightarrow> u128 \<Rightarrow> u128 \<Rightarrow> bool" where
  "body_ok body nack present \<longleftrightarrow>
     length body mod HEADER_SIZE = 0 \<and> body_count body \<le> DVC_HEADERS_MAX \<and>
     (body_count body = DVC_HEADERS_MAX \<or>
      nack AND bits_beyond (body_count body) = 0 \<and> present AND bits_beyond (body_count body) = 0)"

lemma body_ok_length: "body_ok body nack present \<Longrightarrow> length body = body_count body * HEADER_SIZE"
  unfolding body_ok_def body_count_def by (metis dvd_div_mult_self mod_0_imp_dvd)

lemma encoding_iff:
  "sf_nack_bitset s = nack \<and> sf_present_bitset s = present \<and>
   encode_into s (length body) = Some body \<and> describes_log xxh3 head_op s \<longleftrightarrow>
   body_ok body nack present \<and> sf_nack_bitset s = nack \<and> sf_present_bitset s = present \<and>
   decode_entries xxh3 body head_op [0..<body_count body] None = Ok (sf_headers s)"
  (is "?L \<longleftrightarrow> ?R")
proof
  assume ?L
  then have len: "length body = suffix_len s * HEADER_SIZE"
    by (auto simp: encode_into_def encode_prepare_headers_def suffix_len_def split: if_splits)
  then have "body_count body = suffix_len s"
    by (simp add: body_count_def HEADER_SIZE_def)
  with \<open>?L\<close> len show ?R
    using decode_body_iff [of body "body_count body" xxh3 head_op "sf_headers s"]
    by (auto simp: body_ok_def describes_log_def suffix_bits_ok_def suffix_len_def encode_into_def
      encode_prepare_headers_def split: if_splits)
next
  assume R: ?R
  then have ok: "body_ok body nack present"
    by blast
  note len = body_ok_length [OF ok]
  have le: "body_count body \<le> DVC_HEADERS_MAX"
    using ok by (simp add: body_ok_def)
  from R have "decode_entries xxh3 body head_op [0..<body_count body] None = Ok (sf_headers s)"
    by blast
  from this [unfolded decode_body_iff [OF len le]]
  have count: "suffix_len s = body_count body" and body: "concat (map put_PrepareHeader (sf_headers s)) = body"
    and entries: "list_all2 (entry_ok xxh3 head_op) [0..<suffix_len s] (sf_headers s)"
      "successively below (real_entries (sf_headers s))"
    unfolding suffix_len_def by metis+
  have "suffix_bits_ok s"
    using R by (simp add: suffix_bits_ok_def count body_ok_def)
  moreover have "encode_into s (length body) = Some body"
    unfolding encode_into_def encode_prepare_headers_def body using len count
    by (simp add: suffix_len_def)
  ultimately show ?L
    using R entries by (simp add: describes_log_def)
qed

lemma dvc_suffix_decode_body_ok:
  assumes "body_ok body nack present"
  shows "dvc_suffix_decode xxh3 body head_op nack present =
    Some (rbind (decode_entries xxh3 body head_op [0..<body_count body] None) (\<lambda>hs.
      Ok \<lparr>sf_headers = hs, sf_nack_bitset = nack, sf_present_bitset = present\<rparr>))"
proof -
  have unfold: "dvc_suffix_decode xxh3 body head_op nack present =
      (case decode_entries xxh3 body head_op [0..<body_count body] None of
         Inl e \<Rightarrow> Some (Err e) | Inr headers \<Rightarrow> map_option Ok (suffix_new headers nack present))"
    using assms unfolding dvc_suffix_decode_def body_count_def [symmetric] body_ok_def Let_def by auto
  show ?thesis
  proof (cases "decode_entries xxh3 body head_op [0..<body_count body] None")
    case (Inl e)
    then show ?thesis
      by (simp add: unfold)
  next
    case (Inr hs)
    then have "length hs = body_count body"
      using decode_body_iff [of body "body_count body" xxh3 head_op hs] body_ok_length [OF assms] assms
      by (simp add: body_ok_def)
    with assms have "suffix_new hs nack present =
        Some \<lparr>sf_headers = hs, sf_nack_bitset = nack, sf_present_bitset = present\<rparr>"
      by (auto simp: suffix_new_def body_ok_def)
    with Inr show ?thesis
      by (simp add: unfold)
  qed
qed

lemma dvc_suffix_decode_body_bad:
  "\<not> body_ok body nack present \<Longrightarrow>
     \<exists>e. dvc_suffix_decode xxh3 body head_op nack present = Some (Err e)"
  by (auto simp: dvc_suffix_decode_def body_count_def [symmetric] body_ok_def Let_def)

text \<open>
  C16. The decoder of a vote's suffix accepts exactly the bodies that some sender could have written
  for a log: it never panics, and it returns a suffix if and only if the body is that suffix's encoding, the
  entries are well-formed prepares of consecutive ops down from the head, blanks included, every
  sealed entry carries its own identity, entries get older and hash-chain down the log, and no bit
  addresses an entry that is not there. In particular what a sender encodes is decoded unchanged.
\<close>

theorem suffix_decode_exact:
  "dvc_suffix_decode xxh3 body head_op nack present \<noteq> None \<and>
   (dvc_suffix_decode xxh3 body head_op nack present = Some (Ok s) \<longleftrightarrow>
      sf_nack_bitset s = nack \<and> sf_present_bitset s = present \<and>
      encode_into s (length body) = Some body \<and> describes_log xxh3 head_op s)"
proof (cases "body_ok body nack present")
  case True
  then show ?thesis
    unfolding encoding_iff dvc_suffix_decode_body_ok [OF True]
    by (cases s) (auto simp: rbind_eq_Ok)
next
  case False
  with dvc_suffix_decode_body_bad [OF False, of xxh3 head_op] show ?thesis
    unfolding encoding_iff by auto
qed

section \<open>Counting votes\<close>

fun record_all :: "DvcQuorumArray \<Rightarrow> StoredDvc list \<Rightarrow> DvcQuorumArray option" where
  "record_all array [] = Some array"
| "record_all array (dvc # dvcs) =
     (case dvc_record array dvc of None \<Rightarrow> None | Some (array, _) \<Rightarrow> record_all array dvcs)"

text \<open>The vote a sender ends up with: its first real one, or its first if it sent only empty ones.\<close>

definition seated :: "StoredDvc list \<Rightarrow> nat \<Rightarrow> StoredDvc option" where
  "seated dvcs r =
     (case find (\<lambda>d. unat (sd_replica d) = r \<and> \<not> is_empty_vote d) dvcs of
        Some d \<Rightarrow> Some d
      | None \<Rightarrow> find (\<lambda>d. unat (sd_replica d) = r) dvcs)"

definition seats :: "StoredDvc list \<Rightarrow> DvcQuorumArray" where
  "seats dvcs = map (seated dvcs) [0..<REPLICAS_MAX]"

lemma find_append: "find P (xs @ ys) = (case find P xs of Some x \<Rightarrow> Some x | None \<Rightarrow> find P ys)"
  by (induction xs) auto

lemma seated_snoc_other: "r \<noteq> unat (sd_replica d) \<Longrightarrow> seated (dvcs @ [d]) r = seated dvcs r"
  by (auto simp: seated_def find_append split: option.splits)

lemma find_SomeD: "find P xs = Some x \<Longrightarrow> P x \<and> x \<in> set xs"
  by (auto simp: find_Some_iff)

lemma seated_snoc:
  "seated (dvcs @ [d]) (unat (sd_replica d)) =
     (case seated dvcs (unat (sd_replica d)) of
        None \<Rightarrow> Some d
      | Some s \<Rightarrow> if \<not> is_empty_vote s \<or> is_empty_vote d then Some s else Some d)"
proof (cases "find (\<lambda>x. unat (sd_replica x) = unat (sd_replica d) \<and> \<not> is_empty_vote x) dvcs")
  case None
  then have "is_empty_vote s" if "find (\<lambda>x. unat (sd_replica x) = unat (sd_replica d)) dvcs = Some s" for s
    using find_SomeD [OF that] by (auto simp: find_None_iff)
  with None show ?thesis
    by (auto simp: seated_def find_append split: option.splits)
next
  case (Some s)
  with find_SomeD [OF Some] show ?thesis
    by (simp add: seated_def find_append)
qed

lemma dvc_record_seats:
  assumes "unat (sd_replica d) < REPLICAS_MAX"
  shows "\<exists>new. dvc_record (seats dvcs) d = Some (seats (dvcs @ [d]), new)"
proof -
  let ?r = "unat (sd_replica d)"
  have slot: "get_at (seats dvcs) ?r = Some (seated dvcs ?r)"
    using assms by (simp add: get_at_def seats_def)
  have new: "seats (dvcs @ [d]) = (seats dvcs)[?r := seated (dvcs @ [d]) ?r]"
    using assms by (auto simp: seats_def list_eq_iff_nth_eq nth_list_update seated_snoc_other)
  have same: "seats dvcs = (seats dvcs)[?r := x]" if "seated dvcs ?r = x" for x
    using assms that by (auto simp: seats_def list_eq_iff_nth_eq nth_list_update)
  show ?thesis
    unfolding new by (auto simp: dvc_record_def slot seated_snoc intro: same split: option.splits)
qed

lemma record_all_seats:
  "list_all (\<lambda>d. unat (sd_replica d) < REPLICAS_MAX) new \<Longrightarrow>
     record_all (seats old) new = Some (seats (old @ new))"
proof (induction new arbitrary: old)
  case (Cons d new)
  obtain fresh where "dvc_record (seats old) d = Some (seats (old @ [d]), fresh)"
    using dvc_record_seats [of d old] Cons.prems by auto
  with Cons show ?case
    by simp
qed simp

lemma seated_None: "seated dvcs r = None \<longleftrightarrow> (\<forall>d \<in> set dvcs. unat (sd_replica d) \<noteq> r)"
  by (auto simp: seated_def find_None_iff split: option.splits dest: find_SomeD)

lemma dvc_count_seats:
  assumes "list_all (\<lambda>d. unat (sd_replica d) < REPLICAS_MAX) dvcs"
  shows "dvc_count (seats dvcs) = card ((\<lambda>d. unat (sd_replica d)) ` set dvcs)"
proof -
  have "dvc_count (seats dvcs) = length (filter (\<lambda>r. seated dvcs r \<noteq> None) [0..<REPLICAS_MAX])"
    by (simp add: dvc_count_def seats_def filter_map comp_def)
  also have "\<dots> = card (set (filter (\<lambda>r. seated dvcs r \<noteq> None) [0..<REPLICAS_MAX]))"
    by (rule distinct_card [symmetric]) simp
  also have "set (filter (\<lambda>r. seated dvcs r \<noteq> None) [0..<REPLICAS_MAX]) = (\<lambda>d. unat (sd_replica d)) ` set dvcs"
    using assms by (force simp: seated_None list_all_iff)
  finally show ?thesis .
qed

lemma seats_Nil: "seats [] = dvc_quorum_array_empty"
proof -
  have "seated [] = (\<lambda>_. None)"
    by (simp add: seated_def fun_eq_iff)
  then show ?thesis
    by (simp add: seats_def dvc_quorum_array_empty_def map_replicate_const)
qed

text \<open>
  C19. Recording votes in the array never counts a sender twice and never loses a real vote. After
  any sequence of votes from replicas of the cluster, the slot of each sender holds its first vote that carries
  a log, or its first vote if all were empty, no slot holds another sender's vote, and the count is
  the number of distinct senders.
\<close>

theorem votes_recorded:
  assumes "list_all (\<lambda>d. unat (sd_replica d) < REPLICAS_MAX) dvcs"
  shows "\<exists>array. record_all dvc_quorum_array_empty dvcs = Some array \<and>
    array = map (seated dvcs) [0..<REPLICAS_MAX] \<and>
    dvc_count array = card ((\<lambda>d. unat (sd_replica d)) ` set dvcs)"
  using record_all_seats [OF assms, of "[]"] dvc_count_seats [OF assms]
  by (simp add: seats_Nil) (simp add: seats_def)

theorem votes_recorded_witness:
  "let empty = \<lparr>sd_replica = 2, sd_log_view = 0, sd_op = 0, sd_commit = 0, sd_suffix = suffix_empty,
                sd_untrusted_log = True\<rparr>;
       vote = empty\<lparr>sd_log_view := 3, sd_op := 9\<rparr>
   in \<exists>array. record_all dvc_quorum_array_empty [empty, vote, empty] = Some array \<and>
      array ! 2 = Some vote \<and> dvc_count array = 1"
  unfolding Let_def
proof -
  define e where "e = \<lparr>sd_replica = 2, sd_log_view = 0, sd_op = 0, sd_commit = 0,
    sd_suffix = suffix_empty, sd_untrusted_log = True\<rparr>"
  define v where "v = e\<lparr>sd_log_view := 3, sd_op := 9\<rparr>"
  have kinds: "is_empty_vote e" "\<not> is_empty_vote v"
    by (simp_all add: e_def v_def is_empty_vote_def suffix_is_empty_def suffix_empty_def)
  have replica: "sd_replica e = 2" "sd_replica v = 2"
    by (simp_all add: e_def v_def)
  have "list_all (\<lambda>d. unat (sd_replica d) < REPLICAS_MAX) [e, v, e]"
    by (simp add: replica REPLICAS_MAX_def)
  from votes_recorded [OF this] show "\<exists>array. record_all dvc_quorum_array_empty [e, v, e] = Some array \<and>
      array ! 2 = Some v \<and> dvc_count array = 1"
    by (auto simp: seated_def replica kinds REPLICAS_MAX_def)
qed

end
