(* ===== verification/Dvc_Merge.thy ===== *)
theory Dvc_Merge
  imports View_Change_Quorum
begin

text \<open>
  Merging the votes of a view change into the log of the new view
  (\<open>src/core/consensus/src/dvc_merge.rs\<close>): which ops are kept, which are proved dead by a nack quorum,
  and when the view has to wait. References into the votes are the headers themselves. The log
  messages of the code have no effect and are left out.
\<close>

section \<open>Sizes and outcomes\<close>

definition PREPARE_QUEUE_CEILING :: nat where
  "PREPARE_QUEUE_CEILING = DVC_HEADERS_MAX - 1"

record MergeQuorums =
  mq_view_change :: nat
  mq_nack_prepare :: nat
  mq_replica_count :: nat
  mq_prepare_queue_ceiling :: u64
  mq_absence_nacks :: bool

definition merge_quorums :: "u8 \<Rightarrow> MergeQuorums" where
  "merge_quorums replica_count =
     \<lparr>mq_view_change = quorum_view_change replica_count,
      mq_nack_prepare = quorum_nack_prepare replica_count,
      mq_replica_count = unat replica_count,
      mq_prepare_queue_ceiling = of_nat PREPARE_QUEUE_CEILING,
      mq_absence_nacks = True\<rparr>"

record MergedLog =
  ml_op_head :: u64
  ml_commit_max :: u64
  ml_headers :: "PrepareHeader list"
  ml_committed_elsewhere :: "PrepareHeader list"

datatype MergeOutcome =
    AwaitingQuorum
  | AwaitingRepair u64
  | Deadlocked u64
  | Ready MergedLog

definition from_start_view ::
    "(bytes \<Rightarrow> u64) \<Rightarrow> StartViewHeader \<Rightarrow> bytes \<Rightarrow> (DvcSuffixError + MergedLog) option" where
  "from_start_view xxh3 header suffix_body =
     map_option (\<lambda>r. rbind r (\<lambda>suffix.
       Ok \<lparr>ml_op_head = stv_op header, ml_commit_max = stv_commit header,
           ml_headers = sf_headers suffix, ml_committed_elsewhere = []\<rparr>))
     (dvc_suffix_decode xxh3 suffix_body (stv_op header) 0 0)"

section \<open>The verdict on one op\<close>

definition commit_bound :: "u64 \<Rightarrow> u64 \<Rightarrow> StoredDvc \<Rightarrow> u64" where
  "commit_bound ceiling commit_max dvc =
     (let commit_max = max commit_max (sd_commit dvc);
          commit_max = max commit_max (saturating_sub (sd_op dvc) ceiling)
      in case first_opt (sf_headers (sd_suffix dvc)) of
           None \<Rightarrow> commit_max
         | Some head \<Rightarrow> max commit_max (ph_commit head))"

definition merge_commit_max :: "DvcQuorumArray \<Rightarrow> u64 \<Rightarrow> u64" where
  "merge_commit_max quorum ceiling = foldl (commit_bound ceiling) 0 (dvc_iter quorum)"

definition log_view_canonical :: "DvcQuorumArray \<Rightarrow> u32 option" where
  "log_view_canonical quorum =
     (case map sd_log_view (dvc_iter quorum) of [] \<Rightarrow> None | v # vs \<Rightarrow> Some (foldl max v vs))"

record CanonicalAt =
  ca_header :: "PrepareHeader option"
  ca_conflict :: bool
  ca_abstained :: bool

definition consult :: "u64 \<Rightarrow> CanonicalAt \<Rightarrow> StoredDvc \<Rightarrow> CanonicalAt" where
  "consult op at dvc =
     (case index_of (sd_suffix dvc) (sd_op dvc) op of
        None \<Rightarrow> at
      | Some index \<Rightarrow>
          (case valid_header_at (sd_suffix dvc) index of
             None \<Rightarrow> at\<lparr>ca_abstained := ca_abstained at \<or> \<not> nacks (sd_suffix dvc) index\<rparr>
           | Some candidate \<Rightarrow>
               (case ca_header at of
                  Some existing \<Rightarrow>
                    if fr_checksum existing \<noteq> fr_checksum candidate then at\<lparr>ca_conflict := True\<rparr>
                    else at
                | None \<Rightarrow> at\<lparr>ca_header := Some candidate\<rparr>)))"

definition canonical_header_at :: "StoredDvc list \<Rightarrow> u64 \<Rightarrow> CanonicalAt" where
  "canonical_header_at canonical_senders op =
     foldl (consult op) \<lparr>ca_header = None, ca_conflict = False, ca_abstained = False\<rparr>
       canonical_senders"

record OpVerdict =
  ov_canonical :: "PrepareHeader option"
  ov_copies :: nat
  ov_nacks :: nat
  ov_conflict :: bool

text \<open>One sender's contribution: whether it adds a copy, and whether it adds a nack.\<close>

definition sender_copies :: "PrepareHeader option \<Rightarrow> u64 \<Rightarrow> StoredDvc \<Rightarrow> bool" where
  "sender_copies canonical op dvc =
     (if sd_op dvc < op then False
      else case index_of (sd_suffix dvc) (sd_op dvc) op of
        None \<Rightarrow> False
      | Some index \<Rightarrow>
          (case (valid_header_at (sd_suffix dvc) index, canonical) of
             (Some held, Some c) \<Rightarrow>
               offers_body (sd_suffix dvc) index \<and> fr_checksum held = fr_checksum c
           | _ \<Rightarrow> False))"

definition sender_nacks ::
    "PrepareHeader option \<Rightarrow> bool \<Rightarrow> u32 \<Rightarrow> bool \<Rightarrow> u64 \<Rightarrow> StoredDvc \<Rightarrow> bool" where
  "sender_nacks canonical abstained canonical_log_view absence_nacks op dvc =
     (if sd_op dvc < op then absence_nacks
      else case index_of (sd_suffix dvc) (sd_op dvc) op of
        None \<Rightarrow> False
      | Some index \<Rightarrow>
          if nacks (sd_suffix dvc) index then True
          else case valid_header_at (sd_suffix dvc) index of
            None \<Rightarrow> False
          | Some held \<Rightarrow>
              if \<not> offers_body (sd_suffix dvc) index \<and> op > sd_commit dvc then True
              else
                let may_nack_implicitly = sd_log_view dvc < canonical_log_view in
                (case canonical of
                   Some c \<Rightarrow> may_nack_implicitly \<and> fr_checksum held \<noteq> fr_checksum c
                 | None \<Rightarrow> may_nack_implicitly \<and> \<not> abstained))"

definition tally_op ::
    "DvcQuorumArray \<Rightarrow> StoredDvc list \<Rightarrow> u32 \<Rightarrow> u64 \<Rightarrow> bool \<Rightarrow> OpVerdict" where
  "tally_op quorum canonical_senders canonical_log_view op absence_nacks =
     (let at = canonical_header_at canonical_senders op;
          canonical = ca_header at
      in \<lparr>ov_canonical = canonical,
          ov_copies = length (filter (sender_copies canonical op) (dvc_iter quorum)),
          ov_nacks = length (filter (sender_nacks canonical (ca_abstained at) canonical_log_view
                       absence_nacks op) (dvc_iter quorum)),
          ov_conflict = ca_conflict at\<rparr>)"

section \<open>The canonical headers\<close>

lemma unat_pred: "\<not> op \<le> (floor :: u64) \<Longrightarrow> unat (op - 1) = unat op - 1"
  by (rule unat_minus_one) auto

text \<open>
  The loop body pushes the header of \<open>op\<close> and goes on below it until the floor. The recursion
  returns the headers from \<open>op\<close> down; \<open>None\<close> is the early return.
\<close>

function collect_headers ::
    "StoredDvc list \<Rightarrow> u64 \<Rightarrow> PrepareHeader option \<Rightarrow> u64 \<Rightarrow> PrepareHeader list option" where
  "collect_headers canonical_senders floor child op =
     (let at = canonical_header_at canonical_senders op in
      if ca_conflict at then None
      else case ca_header at of
        None \<Rightarrow> None
      | Some header \<Rightarrow>
          if (case child of None \<Rightarrow> False | Some c \<Rightarrow> ph_parent c \<noteq> fr_checksum header) then None
          else if op \<le> floor then Some [header]
          else map_option (Cons header) (collect_headers canonical_senders floor (Some header) (op - 1)))"
  by pat_completeness auto

termination
  by (relation "measure (\<lambda>(cs, floor, child, op). unat op)")
    (auto simp: unat_pred word_le_nat_alt)

declare collect_headers.simps [simp del]

definition canonical_headers :: "StoredDvc list \<Rightarrow> u64 \<Rightarrow> u64 \<Rightarrow> PrepareHeader list option" where
  "canonical_headers canonical_senders op_head commit_max =
     (if op_head = 0 then Some []
      else collect_headers canonical_senders (max commit_max 1) None op_head)"

section \<open>Ops committed elsewhere\<close>

text \<open>
  The first loop gathers the claims of one sender's suffix, entry by entry; \<open>None\<close> is the early return on a
  disagreement.
\<close>

fun claim_entries ::
    "StoredDvc \<Rightarrow> PrepareHeader list \<Rightarrow> nat \<Rightarrow> PrepareHeader list \<Rightarrow> PrepareHeader list \<Rightarrow>
     PrepareHeader list option" where
  "claim_entries dvc installed index [] claimed = Some claimed"
| "claim_entries dvc installed index (header # headers) claimed =
     (if ph_op header > sd_commit dvc \<or> valid_header_at (sd_suffix dvc) index = None \<or>
         list_ex (\<lambda>i. ph_op i = ph_op header) installed
      then claim_entries dvc installed (Suc index) headers claimed
      else case find (\<lambda>queued. ph_op queued = ph_op header) claimed of
        Some queued \<Rightarrow>
          if fr_checksum queued \<noteq> fr_checksum header then None
          else claim_entries dvc installed (Suc index) headers claimed
      | None \<Rightarrow> claim_entries dvc installed (Suc index) headers (claimed @ [header]))"

fun claim_all ::
    "PrepareHeader list \<Rightarrow> StoredDvc list \<Rightarrow> PrepareHeader list \<Rightarrow> PrepareHeader list option" where
  "claim_all installed [] claimed = Some claimed"
| "claim_all installed (dvc # dvcs) claimed =
     (case claim_entries dvc installed 0 (sf_headers (sd_suffix dvc)) claimed of
        None \<Rightarrow> None
      | Some claimed \<Rightarrow> claim_all installed dvcs claimed)"

text \<open>The second loop keeps a claim only if the entry above it names it as its parent.\<close>

fun corroborate :: "PrepareHeader list \<Rightarrow> PrepareHeader list \<Rightarrow> PrepareHeader list \<Rightarrow> PrepareHeader list" where
  "corroborate installed [] extra = extra"
| "corroborate installed (header # headers) extra =
     (case find (\<lambda>candidate. ph_op candidate = ph_op header + 1) (installed @ extra) of
        None \<Rightarrow> corroborate installed headers extra
      | Some child \<Rightarrow>
          if ph_parent child \<noteq> fr_checksum header \<and> ph_parent child \<noteq> CHECKSUM_UNSEALED \<and>
             fr_checksum header \<noteq> CHECKSUM_UNSEALED
          then corroborate installed headers extra
          else corroborate installed headers (extra @ [header]))"

definition committed_elsewhere ::
    "DvcQuorumArray \<Rightarrow> u32 \<Rightarrow> PrepareHeader list \<Rightarrow> PrepareHeader list option" where
  "committed_elsewhere quorum canonical_log_view installed =
     (case claim_all installed
             (filter (\<lambda>dvc. sd_log_view dvc < canonical_log_view) (dvc_iter quorum)) [] of
        None \<Rightarrow> None
      | Some claimed \<Rightarrow> Some (corroborate installed (rev (sort_key ph_op claimed)) []))"

section \<open>The merge\<close>

text \<open>
  The walk up from the commit point. It ends with an outcome, or with the head of the kept log. The
  outer \<open>None\<close> is the overflow of \<open>op += 1\<close> at the largest op number, which aborts a build with
  overflow checks.
\<close>

datatype WalkResult = WalkReturn MergeOutcome | WalkHead u64

definition undecided :: "nat \<Rightarrow> MergeQuorums \<Rightarrow> u64 \<Rightarrow> MergeOutcome" where
  "undecided received quorums op =
     (if received < mq_replica_count quorums then AwaitingRepair op else Deadlocked op)"

function merge_walk ::
    "DvcQuorumArray \<Rightarrow> MergeQuorums \<Rightarrow> StoredDvc list \<Rightarrow> u32 \<Rightarrow> u64 \<Rightarrow> u64 \<Rightarrow> u64 \<Rightarrow> WalkResult option" where
  "merge_walk quorum quorums canonical_senders canonical_log_view commit_max op_head_max op =
     (if \<not> op \<le> op_head_max then Some (WalkHead op_head_max)
      else
        let verdict = tally_op quorum canonical_senders canonical_log_view op (mq_absence_nacks quorums)
        in
        if ov_nacks verdict \<ge> mq_nack_prepare quorums then
          (if op \<le> commit_max then Some (WalkReturn (Deadlocked op)) else Some (WalkHead (op - 1)))
        else if ov_conflict verdict then
          Some (WalkReturn (undecided (dvc_count quorum) quorums op))
        else if ov_canonical verdict = None \<or> ov_copies verdict = 0 then
          Some (WalkReturn (undecided (dvc_count quorum) quorums op))
        else if op = - 1 then None
        else merge_walk quorum quorums canonical_senders canonical_log_view commit_max op_head_max (op + 1))"
  by pat_completeness auto

termination
  by (relation "measure (\<lambda>(q, qs, cs, v, c, m, op). Suc (unat m) - unat op)")
    (auto simp: unat_add_one word_le_nat_alt)

declare merge_walk.simps [simp del]

definition op_head_max_of :: "StoredDvc list \<Rightarrow> u64 \<Rightarrow> u64" where
  "op_head_max_of canonical_senders commit_max =
     max (case map sd_op canonical_senders of [] \<Rightarrow> commit_max | o1 # os \<Rightarrow> foldl max o1 os) commit_max"

definition merge_dvc_quorum :: "DvcQuorumArray \<Rightarrow> MergeQuorums \<Rightarrow> MergeOutcome option" where
  "merge_dvc_quorum quorum quorums =
     (if dvc_count quorum < mq_view_change quorums then Some AwaitingQuorum
      else case log_view_canonical quorum of
        None \<Rightarrow> Some AwaitingQuorum
      | Some canonical_log_view \<Rightarrow>
          let canonical_senders =
                filter (\<lambda>dvc. sd_log_view dvc = canonical_log_view) (dvc_iter quorum);
              commit_max = merge_commit_max quorum (mq_prepare_queue_ceiling quorums);
              op_head_max = op_head_max_of canonical_senders commit_max
          in
          if op_head_max = 0 then
            Some (Ready \<lparr>ml_op_head = 0, ml_commit_max = 0, ml_headers = [], ml_committed_elsewhere = []\<rparr>)
          else
            (case merge_walk quorum quorums canonical_senders canonical_log_view commit_max op_head_max
                    (max commit_max 1) of
               None \<Rightarrow> None
             | Some (WalkReturn outcome) \<Rightarrow> Some outcome
             | Some (WalkHead op_head) \<Rightarrow>
                 (case canonical_headers canonical_senders op_head commit_max of
                    None \<Rightarrow> Some (Deadlocked op_head)
                  | Some headers \<Rightarrow>
                      (case committed_elsewhere quorum canonical_log_view headers of
                         None \<Rightarrow> Some (Deadlocked op_head)
                       | Some extra \<Rightarrow>
                           Some (Ready \<lparr>ml_op_head = op_head, ml_commit_max = commit_max,
                                        ml_headers = headers, ml_committed_elsewhere = extra\<rparr>)))))"

text \<open>Copying the trusted votes into a fresh array; the record of each cannot panic.\<close>

definition trusted_only :: "DvcQuorumArray \<Rightarrow> DvcQuorumArray option" where
  "trusted_only quorum =
     record_all dvc_quorum_array_empty (filter (\<lambda>dvc. \<not> sd_untrusted_log dvc) (dvc_iter quorum))"

definition is_ready :: "MergeOutcome \<Rightarrow> bool" where
  "is_ready outcome \<longleftrightarrow> (case outcome of Ready _ \<Rightarrow> True | _ \<Rightarrow> False)"

definition merge_all :: "DvcQuorumArray \<Rightarrow> MergeQuorums \<Rightarrow> MergeOutcome option" where
  "merge_all quorum quorums =
     merge_dvc_quorum quorum
       (quorums\<lparr>mq_view_change := mq_replica_count quorums, mq_absence_nacks := False\<rparr>)"

definition merge_view_change :: "DvcQuorumArray \<Rightarrow> MergeQuorums \<Rightarrow> MergeOutcome option" where
  "merge_view_change quorum quorums =
     (let received = dvc_count quorum;
          trusted = length (filter (\<lambda>dvc. \<not> sd_untrusted_log dvc) (dvc_iter quorum))
      in
      if trusted \<ge> mq_view_change quorums then
        let trusted_quorums = quorums\<lparr>mq_absence_nacks := True\<rparr>;
            result =
              (if trusted = received then merge_dvc_quorum quorum trusted_quorums
               else case trusted_only quorum of
                 None \<Rightarrow> None
               | Some only \<Rightarrow> merge_dvc_quorum only trusted_quorums)
        in (case result of
              None \<Rightarrow> None
            | Some outcome \<Rightarrow>
                if is_ready outcome \<or> received < mq_replica_count quorums \<or> trusted = received
                then Some outcome
                else merge_all quorum quorums)
      else if received < mq_replica_count quorums then Some AwaitingQuorum
      else merge_all quorum quorums)"

section \<open>What the canonical senders say\<close>

text \<open>The header a sender reports for an op, and whether it is silent about it.\<close>

definition candidate :: "u64 \<Rightarrow> StoredDvc \<Rightarrow> PrepareHeader option" where
  "candidate op d = Option.bind (index_of (sd_suffix d) (sd_op d) op) (valid_header_at (sd_suffix d))"

definition abstains :: "u64 \<Rightarrow> StoredDvc \<Rightarrow> bool" where
  "abstains op d \<longleftrightarrow>
     (case index_of (sd_suffix d) (sd_op d) op of
        None \<Rightarrow> False
      | Some i \<Rightarrow> valid_header_at (sd_suffix d) i = None \<and> \<not> nacks (sd_suffix d) i)"

definition candidates :: "u64 \<Rightarrow> StoredDvc list \<Rightarrow> PrepareHeader list" where
  "candidates op ds = List.map_filter (candidate op) ds"

lemma candidates_simps [simp]:
  "candidates op [] = []"
  "candidates op (ds @ [d]) =
     candidates op ds @ (case candidate op d of None \<Rightarrow> [] | Some h \<Rightarrow> [h])"
  by (simp_all add: candidates_def map_filter_def split: option.splits)

lemma in_candidates: "h \<in> set (candidates op ds) \<longleftrightarrow> (\<exists>d \<in> set ds. candidate op d = Some h)"
  by (force simp: candidates_def map_filter_def)

lemma canonical_header_at_eq:
  "canonical_header_at ds op =
     \<lparr>ca_header = first_opt (candidates op ds),
      ca_conflict = (\<exists>h \<in> set (candidates op ds). fr_checksum h \<noteq> fr_checksum (hd (candidates op ds))),
      ca_abstained = (\<exists>d \<in> set ds. abstains op d)\<rparr>"
proof (induction ds rule: rev_induct)
  case Nil
  then show ?case
    by (simp add: canonical_header_at_def first_opt_def)
next
  case (snoc d ds)
  have "canonical_header_at (ds @ [d]) op = consult op (canonical_header_at ds op) d"
    by (simp add: canonical_header_at_def)
  also have "\<dots> = \<lparr>ca_header = first_opt (candidates op (ds @ [d])),
      ca_conflict = (\<exists>h \<in> set (candidates op (ds @ [d])).
        fr_checksum h \<noteq> fr_checksum (hd (candidates op (ds @ [d])))),
      ca_abstained = (\<exists>d \<in> set (ds @ [d]). abstains op d)\<rparr>"
    unfolding snoc
    by (cases "candidates op ds")
      (auto simp: consult_def candidate_def abstains_def first_opt_def split: option.splits)
  finally show ?case .
qed

text \<open>A verdict that lets the walk go on, and the sender's share in it.\<close>

definition settled :: "MergeQuorums \<Rightarrow> OpVerdict \<Rightarrow> bool" where
  "settled quorums v \<longleftrightarrow>
     ov_nacks v < mq_nack_prepare quorums \<and> \<not> ov_conflict v \<and> ov_canonical v \<noteq> None \<and> 0 < ov_copies v"

lemma word_pred_succ: "(x :: u64) - 1 + 1 = x"
  by simp

lemma merge_walk_Head:
  assumes "merge_walk q qs cs v c m op = Some (WalkHead h)" and "0 < op"
  shows "(\<forall>o1. op \<le> o1 \<and> o1 \<le> h \<longrightarrow> settled qs (tally_op q cs v o1 (mq_absence_nacks qs))) \<and>
    (if op \<le> m then h \<le> m \<and> unat op \<le> unat h + 1 else h = m) \<and>
    (h < m \<and> op \<le> m \<longrightarrow>
      c < h + 1 \<and> mq_nack_prepare qs \<le> ov_nacks (tally_op q cs v (h + 1) (mq_absence_nacks qs)))"
  using assms
proof (induction q qs cs v c m op rule: merge_walk.induct)
  case (1 q qs cs v c m op)
  let ?t = "\<lambda>o1. tally_op q cs v o1 (mq_absence_nacks qs)"
  consider (past) "\<not> op \<le> m" | (dead) "op \<le> m" "mq_nack_prepare qs \<le> ov_nacks (?t op)"
    | (stuck) "op \<le> m" "ov_nacks (?t op) < mq_nack_prepare qs" "\<not> settled qs (?t op)"
    | (onward) "op \<le> m" "settled qs (?t op)"
    by (fastforce simp: settled_def)
  then show ?case
  proof cases
    case past
    with 1(2) show ?thesis
      by (auto simp: merge_walk.simps [of q qs cs v c m op])
  next
    case dead
    with 1(2) have h: "h = op - 1" and "c < op"
      by (auto simp: merge_walk.simps [of q qs cs v c m op] Let_def split: if_splits)
    moreover from 1(3) have "unat (op - 1) = unat op - 1"
      by (intro unat_minus_one) auto
    ultimately show ?thesis
      using dead 1(3) by (auto simp: word_le_nat_alt word_less_nat_alt)
  next
    case stuck
    with 1(2) show ?thesis
      by (auto simp: merge_walk.simps [of q qs cs v c m op] Let_def settled_def split: if_splits)
  next
    case onward
    then have go: "op \<noteq> - 1" "merge_walk q qs cs v c m (op + 1) = Some (WalkHead h)"
      using 1(2) by (auto simp: merge_walk.simps [of q qs cs v c m op] Let_def settled_def split: if_splits)
    note succ = unat_add_one [OF go(1)]
    have "0 < op + 1"
      using succ by (simp add: word_less_nat_alt)
    with 1(1) [OF _ refl _ _ _ go(1,2)] onward have IH:
      "(\<forall>o1. op + 1 \<le> o1 \<and> o1 \<le> h \<longrightarrow> settled qs (?t o1)) \<and>
       (if op + 1 \<le> m then h \<le> m \<and> unat (op + 1) \<le> unat h + 1 else h = m) \<and>
       (h < m \<and> op + 1 \<le> m \<longrightarrow> c < h + 1 \<and> mq_nack_prepare qs \<le> ov_nacks (?t (h + 1)))"
      by (auto simp: settled_def not_le split: if_splits)
    have cases: "o1 = op \<or> op + 1 \<le> o1" if "op \<le> o1" for o1
      using that succ by (auto simp: word_le_nat_alt word_unat_eq_iff)
    show ?thesis
      using IH onward cases succ by (auto simp: word_le_nat_alt word_less_nat_alt split: if_splits)
  qed
qed

text \<open>The collected headers run from the head to the floor without a gap, and hash-chain.\<close>

definition chained :: "PrepareHeader list \<Rightarrow> bool" where
  "chained hs \<longleftrightarrow> successively (\<lambda>c h. ph_parent c = fr_checksum h) hs"

definition agreed :: "StoredDvc list \<Rightarrow> u64 \<Rightarrow> PrepareHeader \<Rightarrow> bool" where
  "agreed cs op h \<longleftrightarrow>
     ca_header (canonical_header_at cs op) = Some h \<and> \<not> ca_conflict (canonical_header_at cs op)"

lemma collect_headers_Some:
  assumes "collect_headers cs floor child op = Some hs" and "floor \<le> op"
  shows "length hs = Suc (unat op - unat floor) \<and>
    (\<forall>i < length hs. agreed cs (op - of_nat i) (hs ! i)) \<and>
    chained ((case child of None \<Rightarrow> [] | Some c \<Rightarrow> [c]) @ hs)"
  using assms
proof (induction cs floor child op arbitrary: hs rule: collect_headers.induct)
  case (1 cs floor child op)
  from 1(2) obtain h where at: "agreed cs op h"
      and link: "case child of None \<Rightarrow> True | Some c \<Rightarrow> ph_parent c = fr_checksum h"
      and rest: "(if op \<le> floor then Some [h]
        else map_option (Cons h) (collect_headers cs floor (Some h) (op - 1))) = Some hs"
    by (auto simp: collect_headers.simps [of cs floor child op] agreed_def Let_def
      split: if_splits option.splits)
  show ?case
  proof (cases "op \<le> floor")
    case True
    with 1(3) have "op = floor"
      by simp
    with rest at link show ?thesis
      by (cases child) (auto simp: chained_def)
  next
    case False
    then obtain hs' where hs: "hs = h # hs'" and rec: "collect_headers cs floor (Some h) (op - 1) = Some hs'"
      using rest by auto
    note pred = unat_pred [OF False]
    from False pred have "floor \<le> op - 1"
      by (simp add: word_le_nat_alt)
    with 1(1) [OF refl _ _ _ False rec] at link have IH:
      "length hs' = Suc (unat (op - 1) - unat floor)"
      "\<forall>i < length hs'. agreed cs (op - 1 - of_nat i) (hs' ! i)" "chained (h # hs')"
      by (auto simp: agreed_def split: option.splits)
    have "agreed cs (op - of_nat i) (hs ! i)" if "i < length hs" for i
      using that IH(2) at by (cases i) (simp_all add: hs algebra_simps)
    moreover have "length hs = Suc (unat op - unat floor)"
      using IH(1) pred False by (simp add: hs word_le_nat_alt)
    moreover have "chained ((case child of None \<Rightarrow> [] | Some c \<Rightarrow> [c]) @ hs)"
      using IH(3) link by (cases child) (simp_all add: hs chained_def)
    ultimately show ?thesis
      by blast
  qed
qed

section \<open>A merged log\<close>

definition senders_at :: "DvcQuorumArray \<Rightarrow> u32 \<Rightarrow> StoredDvc list" where
  "senders_at q v = filter (\<lambda>d. sd_log_view d = v) (dvc_iter q)"

lemma merge_walk_Return:
  assumes "merge_walk q qs cs v c m op = Some (WalkReturn outcome)"
  shows "\<exists>o1. outcome = Deadlocked o1 \<or> outcome = undecided (dvc_count q) qs o1"
  using assms
proof (induction q qs cs v c m op rule: merge_walk.induct)
  case (1 q qs cs v c m op)
  from 1(2) 1(1) [OF _ refl] show ?case
    by (subst (asm) merge_walk.simps) (auto simp: Let_def not_le split: if_splits)
qed

lemma merge_ReadyD:
  assumes "merge_dvc_quorum q qs = Some (Ready log)"
  defines "c \<equiv> merge_commit_max q (mq_prepare_queue_ceiling qs)"
  obtains v where "log_view_canonical q = Some v" and "mq_view_change qs \<le> dvc_count q"
    and "op_head_max_of (senders_at q v) c = 0"
      "log = \<lparr>ml_op_head = 0, ml_commit_max = 0, ml_headers = [], ml_committed_elsewhere = []\<rparr>"
  | v where "log_view_canonical q = Some v" and "mq_view_change qs \<le> dvc_count q"
    and "op_head_max_of (senders_at q v) c \<noteq> 0"
      "merge_walk q qs (senders_at q v) v c (op_head_max_of (senders_at q v) c) (max c 1) =
         Some (WalkHead (ml_op_head log))"
      "canonical_headers (senders_at q v) (ml_op_head log) c = Some (ml_headers log)"
      "committed_elsewhere q v (ml_headers log) = Some (ml_committed_elsewhere log)"
      "ml_commit_max log = c"
  using assms(1)
  by (auto simp: merge_dvc_quorum_def senders_at_def [symmetric] c_def [symmetric] Let_def undecided_def
    split: if_splits option.splits WalkResult.splits dest: merge_walk_Return)

lemma op_head_max_ge: "c \<le> op_head_max_of ds c"
  by (simp add: op_head_max_of_def)

lemma foldl_max_ge: "(a :: u64) \<le> foldl max a xs \<and> (\<forall>x \<in> set xs. x \<le> foldl max a xs)"
proof (induction xs arbitrary: a)
  case (Cons y ys)
  from Cons.IH [of "max a y"] show ?case
    by (simp add: max.bounded_iff)
qed simp

lemma op_head_max_sender: "d \<in> set ds \<Longrightarrow> sd_op d \<le> op_head_max_of ds c"
proof (cases ds)
  case (Cons z zs)
  assume "d \<in> set ds"
  then have "sd_op d \<le> foldl max (sd_op z) (map sd_op zs)"
    using foldl_max_ge [of "sd_op z" "map sd_op zs"] Cons by auto
  then show ?thesis
    by (simp add: op_head_max_of_def Cons le_max_iff_disj)
qed simp

lemma walk_start:
  assumes "(c :: u64) \<le> m" and "m \<noteq> 0"
  shows "0 < max c 1" and "max c 1 \<le> m"
proof -
  have "0 < unat m"
    using assms(2) by (simp add: unat_gt_0)
  then show "0 < max c 1" and "max c 1 \<le> m"
    using assms(1) by (auto simp: max_def word_less_nat_alt word_le_nat_alt)
qed

lemma walk_head_commit:
  assumes "merge_walk q qs cs v c m (max c 1) = Some (WalkHead h)" and "c \<le> m" and "m \<noteq> 0"
  shows "c \<le> h" and "h \<le> m"
proof -
  note le = walk_start(2) [OF assms(2,3)]
  note W = merge_walk_Head [OF assms(1) walk_start(1) [OF assms(2,3)]]
  from W le show "h \<le> m"
    by simp
  show "c \<le> h"
  proof (cases "h < m")
    case True
    then have "h \<noteq> - 1"
      by auto
    from W True le unat_add_one [OF this] show ?thesis
      by (simp add: word_le_nat_alt word_less_nat_alt)
  next
    case False
    with \<open>h \<le> m\<close> assms(2) show ?thesis
      by simp
  qed
qed

text \<open>Positions in a vote that decoded are op numbers.\<close>

definition consecutive :: "StoredDvc \<Rightarrow> bool" where
  "consecutive d \<longleftrightarrow>
     (\<forall>i < length (sf_headers (sd_suffix d)). ph_op (sf_headers (sd_suffix d) ! i) = sd_op d - of_nat i)"

lemma index_of_eq: "index_of s head op = Some i \<longleftrightarrow>
    op \<le> head \<and> i = unat (head - op) \<and> i < length (sf_headers s)"
  by (auto simp: index_of_def checked_sub_def split: if_splits)

lemma candidate_op: "consecutive d \<Longrightarrow> candidate op d = Some h \<Longrightarrow> ph_op h = op"
  by (auto simp: candidate_def bind_eq_Some_conv index_of_eq valid_header_at_def get_at_def
    consecutive_def split: if_splits option.splits)

lemma agreed_candidate: "agreed cs op h \<Longrightarrow> \<exists>d \<in> set cs. candidate op d = Some h"
  by (auto simp: agreed_def canonical_header_at_eq first_opt_def in_candidates [symmetric]
    split: list.splits if_splits)

definition serves :: "u64 \<Rightarrow> u128 \<Rightarrow> StoredDvc \<Rightarrow> bool" where
  "serves op c d \<longleftrightarrow>
     (\<exists>i h. index_of (sd_suffix d) (sd_op d) op = Some i \<and> valid_header_at (sd_suffix d) i = Some h \<and>
        fr_checksum h = c \<and> offers_body (sd_suffix d) i)"

definition ops_down :: "u64 \<Rightarrow> u64 \<Rightarrow> u64 list" where
  "ops_down head commit =
     (if head = 0 then []
      else map (\<lambda>i. head - of_nat i) [0..<Suc (unat head - max (unat commit) 1)])"

lemma sender_copies_serves: "sender_copies (Some h) op d \<Longrightarrow> serves op (fr_checksum h) d"
  by (auto simp: sender_copies_def serves_def split: if_splits option.splits)

lemma settled_served:
  assumes "settled qs (tally_op q cs v op a)" and "agreed cs op h"
  shows "\<exists>d \<in> set (dvc_iter q). serves op (fr_checksum h) d"
proof -
  from assms have "0 < length (filter (sender_copies (Some h) op) (dvc_iter q))"
    by (simp add: settled_def tally_op_def agreed_def Let_def)
  then show ?thesis
    by (auto simp: filter_empty_conv intro: sender_copies_serves)
qed

text \<open>All facts about a log that the walk released, with its ops as positions from the head.\<close>

lemma released_log:
  assumes walk: "merge_walk q qs cs v c m (max c 1) = Some (WalkHead h)" and m: "c \<le> m" "m \<noteq> 0"
    and headers: "canonical_headers cs h c = Some hs"
    and votes: "set cs \<subseteq> set (dvc_iter q)" "\<And>d. d \<in> set (dvc_iter q) \<Longrightarrow> consecutive d"
  shows "length hs = length (ops_down h c) \<and>
    (\<forall>i < length hs. agreed cs (h - of_nat i) (hs ! i) \<and> ph_op (hs ! i) = h - of_nat i \<and>
       (\<exists>d \<in> set (dvc_iter q). serves (h - of_nat i) (fr_checksum (hs ! i)) d)) \<and> chained hs"
proof (cases "h = 0")
  case True
  with headers show ?thesis
    by (simp add: canonical_headers_def ops_down_def chained_def)
next
  case False
  let ?floor = "max c 1"
  have ch: "c \<le> h"
    using walk_head_commit [OF walk m] by simp
  have "0 < unat h"
    using False by (simp add: unat_gt_0)
  with ch have le: "?floor \<le> h" and pos: "0 < ?floor" and ufloor: "unat ?floor = max (unat c) 1"
    by (auto simp: max_def word_le_nat_alt word_less_nat_alt)
  from headers False have "collect_headers cs ?floor None h = Some hs"
    by (simp add: canonical_headers_def)
  from collect_headers_Some [OF this le] have len: "length hs = Suc (unat h - unat ?floor)"
    and agreed: "\<And>i. i < length hs \<Longrightarrow> agreed cs (h - of_nat i) (hs ! i)" and "chained hs"
    by simp_all
  note W = merge_walk_Head [OF walk pos]
  have "ph_op (hs ! i) = h - of_nat i \<and>
      (\<exists>d \<in> set (dvc_iter q). serves (h - of_nat i) (fr_checksum (hs ! i)) d)" if i: "i < length hs" for i
  proof -
    have "i \<le> unat h - unat ?floor"
      using i len by simp
    moreover have "unat ?floor \<le> unat h" "unat h < 2 ^ 64"
      using le unsigned_less [of h] by (simp_all add: word_le_nat_alt)
    ultimately have "unat (h - of_nat i) = unat h - i"
      by (subst unat_sub) (simp_all add: word_le_nat_alt unat_of_nat)
    with \<open>i \<le> unat h - unat ?floor\<close> \<open>unat ?floor \<le> unat h\<close>
    have "?floor \<le> h - of_nat i" "h - of_nat i \<le> h"
      unfolding word_le_nat_alt by linarith+
    with W have "settled qs (tally_op q cs v (h - of_nat i) (mq_absence_nacks qs))"
      by blast
    from settled_served [OF this agreed [OF i]] agreed_candidate [OF agreed [OF i]] votes show ?thesis
      by (auto dest: candidate_op)
  qed
  moreover have "length hs = length (ops_down h c)"
    using len False by (simp add: ops_down_def ufloor)
  ultimately show ?thesis
    using agreed \<open>chained hs\<close> by blast
qed

lemma merge_ready_log:
  assumes "merge_dvc_quorum q qs = Some (Ready log)"
    and "\<forall>d \<in> set (dvc_iter q). consecutive d"
  shows "ml_commit_max log \<le> ml_op_head log \<and>
    ml_commit_max log = merge_commit_max q (mq_prepare_queue_ceiling qs) \<and>
    map ph_op (ml_headers log) = ops_down (ml_op_head log) (ml_commit_max log) \<and>
    chained (ml_headers log) \<and>
    (\<forall>h \<in> set (ml_headers log). \<exists>d \<in> set (dvc_iter q). serves (ph_op h) (fr_checksum h) d)"
  using assms(1)
proof (cases rule: merge_ReadyD)
  case (1 v)
  then have "merge_commit_max q (mq_prepare_queue_ceiling qs) = 0"
    using op_head_max_ge [of "merge_commit_max q (mq_prepare_queue_ceiling qs)" "senders_at q v"] by simp
  with 1 show ?thesis
    by (simp add: ops_down_def chained_def)
next
  case (2 v)
  have "set (senders_at q v) \<subseteq> set (dvc_iter q)"
    by (auto simp: senders_at_def)
  from released_log [OF 2(4) op_head_max_ge 2(3) 2(5) this] assms(2)
  have len: "length (ml_headers log) = length (ops_down (ml_op_head log) (ml_commit_max log))"
    and entry: "\<And>i. i < length (ml_headers log) \<Longrightarrow>
      ph_op (ml_headers log ! i) = ml_op_head log - of_nat i \<and>
      (\<exists>d \<in> set (dvc_iter q). serves (ml_op_head log - of_nat i) (fr_checksum (ml_headers log ! i)) d)"
    and "chained (ml_headers log)"
    by (auto simp: 2(7))
  have "map ph_op (ml_headers log) = ops_down (ml_op_head log) (ml_commit_max log)"
    using len entry by (intro nth_equalityI) (auto simp: ops_down_def simp del: upt_Suc split: if_splits)
  moreover have "\<exists>d \<in> set (dvc_iter q). serves (ph_op h) (fr_checksum h) d" if "h \<in> set (ml_headers log)" for h
    using that entry by (metis in_set_conv_nth)
  ultimately show ?thesis
    using walk_head_commit(1) [OF 2(4) op_head_max_ge 2(3)] \<open>chained (ml_headers log)\<close> 2(7) by auto
qed

lemma merged_ops:
  assumes "merge_dvc_quorum q qs = Some (Ready log)" and "\<forall>d \<in> set (dvc_iter q). consecutive d"
    and "h \<in> set (ml_headers log)"
  shows "max (ml_commit_max log) 1 \<le> ph_op h"
proof -
  let ?head = "ml_op_head log" and ?c = "ml_commit_max log"
  have "ph_op h \<in> set (ops_down ?head ?c)" and "?c \<le> ?head"
    using merge_ready_log [OF assms(1,2)] assms(3) by (metis image_eqI list.set_map)+
  then obtain i where "?head \<noteq> 0" "ph_op h = ?head - of_nat i" "i \<le> unat ?head - max (unat ?c) 1"
    by (auto simp: ops_down_def simp del: upt_Suc split: if_splits)
  moreover have "0 < unat ?head" "unat ?c \<le> unat ?head" "unat ?head < 2 ^ 64"
    using \<open>?head \<noteq> 0\<close> \<open>?c \<le> ?head\<close> unsigned_less [of ?head] by (simp_all add: unat_gt_0 word_le_nat_alt)
  ultimately have "unat (ph_op h) = unat ?head - i"
    by (simp, subst unat_sub) (simp_all add: word_le_nat_alt unat_of_nat)
  then show ?thesis
    using \<open>i \<le> _\<close> \<open>0 < unat ?head\<close> \<open>unat ?c \<le> _\<close>
    by (intro max.boundedI) (simp_all add: word_le_nat_alt)
qed

text \<open>
  C7. A view starts only with a log it can serve. Whenever the merge is ready, the adopted log
  covers every op from the proven commit point (or op 1) up to its head, without a gap and
  hash-chained from the head down, its head is not below the commit point, and for each of its ops
  some vote offers the body of exactly that prepare.
\<close>

theorem merged_log_complete:
  assumes "merge_dvc_quorum q qs = Some (Ready log)"
    and "\<forall>d \<in> set (dvc_iter q). consecutive d"
  shows "ml_commit_max log \<le> ml_op_head log \<and>
    ml_commit_max log = merge_commit_max q (mq_prepare_queue_ceiling qs) \<and>
    map ph_op (ml_headers log) = ops_down (ml_op_head log) (ml_commit_max log) \<and>
    chained (ml_headers log) \<and>
    (\<forall>h \<in> set (ml_headers log). \<exists>d \<in> set (dvc_iter q). serves (ph_op h) (fr_checksum h) d)"
  using merge_ready_log [OF assms] .

text \<open>A cluster of three with two votes that agree on ops 1 and 2.\<close>

definition sample_header :: "u64 \<Rightarrow> u128 \<Rightarrow> u128 \<Rightarrow> PrepareHeader" where
  "sample_header op parent checksum =
     default_PrepareHeader\<lparr>fr_checksum := checksum, fr_command := CmdPrepare, ph_parent := parent,
       ph_op := op, ph_operation := OpCreateStream\<rparr>"

definition sample_vote :: "u8 \<Rightarrow> StoredDvc" where
  "sample_vote r =
     \<lparr>sd_replica = r, sd_log_view = 1, sd_op = 2, sd_commit = 1,
      sd_suffix = \<lparr>sf_headers = [sample_header 2 11 22, sample_header 1 0 11], sf_nack_bitset = 0,
                   sf_present_bitset = 3\<rparr>,
      sd_untrusted_log = False\<rparr>"

definition sample_votes :: DvcQuorumArray where
  "sample_votes = [Some (sample_vote 0), Some (sample_vote 1)] @ replicate 30 None"

lemma sample_merge:
  "merge_dvc_quorum sample_votes (merge_quorums 3) =
     Some (Ready \<lparr>ml_op_head = 2, ml_commit_max = 1,
       ml_headers = [sample_header 2 11 22, sample_header 1 0 11], ml_committed_elsewhere = []\<rparr>)"
  by code_simp

lemma sample_votes_consecutive: "\<forall>d \<in> set (dvc_iter sample_votes). consecutive d"
  by (auto simp: sample_votes_def dvc_iter_def map_filter_def consecutive_def sample_vote_def
    sample_header_def less_Suc_eq)

theorem merged_log_complete_witness:
  "\<exists>log. merge_dvc_quorum sample_votes (merge_quorums 3) = Some (Ready log) \<and>
     map ph_op (ml_headers log) = [2, 1] \<and> chained (ml_headers log)"
  using merged_log_complete [OF sample_merge sample_votes_consecutive] sample_merge
  by (simp add: ops_down_def)

end
