(* ===== verification/Dvc_Safety.thy ===== *)
theory Dvc_Safety
  imports Dvc_Merge
begin

text \<open>
  What a view change promises across replicas: the merge of \<^theory_text>\<open>Dvc_Merge\<close> keeps every
  op that a replication quorum acknowledged, and it decides once every replica has voted.
\<close>

section \<open>Committed ops survive\<close>

text \<open>
  The array of a cluster of \<open>n\<close>: slots hold their own replica's vote, and only replicas of the
  cluster voted.
\<close>

definition array_wf :: "nat \<Rightarrow> DvcQuorumArray \<Rightarrow> bool" where
  "array_wf n q \<longleftrightarrow>
     length q = REPLICAS_MAX \<and>
     (\<forall>r < length q. case q ! r of None \<Rightarrow> True | Some d \<Rightarrow> unat (sd_replica d) = r \<and> r < n)"

lemma dvc_iter_snoc: "dvc_iter (q @ [x]) = dvc_iter q @ (case x of None \<Rightarrow> [] | Some d \<Rightarrow> [d])"
  by (simp add: dvc_iter_def map_filter_def split: option.splits)

lemma in_dvc_iter: "d \<in> set (dvc_iter q) \<longleftrightarrow> Some d \<in> set q"
  by (force simp: dvc_iter_def map_filter_def)

lemma dvc_iter_replicas:
  assumes "\<And>r d. r < length q \<Longrightarrow> q ! r = Some d \<Longrightarrow> unat (sd_replica d) = r"
  shows "map (\<lambda>d. unat (sd_replica d)) (dvc_iter q) = filter (\<lambda>r. q ! r \<noteq> None) [0..<length q]"
  using assms
proof (induction q rule: rev_induct)
  case (snoc x q)
  have "map (\<lambda>d. unat (sd_replica d)) (dvc_iter q) = filter (\<lambda>r. q ! r \<noteq> None) [0..<length q]"
    using snoc.prems by (intro snoc.IH) (metis length_append_singleton less_SucI nth_append)
  also have "\<dots> = filter (\<lambda>r. (q @ [x]) ! r \<noteq> None) [0..<length q]"
    by (rule filter_cong) (simp_all add: nth_append)
  finally show ?case
    using snoc.prems [of "length q"] by (auto simp: dvc_iter_snoc split: option.splits)
qed (simp add: dvc_iter_def map_filter_def)

lemma array_wfD:
  assumes "array_wf n q"
  shows "distinct (map (\<lambda>d. unat (sd_replica d)) (dvc_iter q))"
    and "d \<in> set (dvc_iter q) \<Longrightarrow> unat (sd_replica d) < n \<and> unat (sd_replica d) < REPLICAS_MAX \<and>
      q ! unat (sd_replica d) = Some d"
proof -
  have slot: "unat (sd_replica d) = r \<and> r < n \<and> r < REPLICAS_MAX" if "r < length q" "q ! r = Some d" for r d
    using assms that by (auto simp: array_wf_def split: option.splits)
  then show "distinct (map (\<lambda>d. unat (sd_replica d)) (dvc_iter q))"
    by (subst dvc_iter_replicas) auto
  show "d \<in> set (dvc_iter q) \<Longrightarrow> unat (sd_replica d) < n \<and> unat (sd_replica d) < REPLICAS_MAX \<and>
      q ! unat (sd_replica d) = Some d"
    using slot unfolding in_dvc_iter by (metis in_set_conv_nth)
qed

lemma few_nacks:
  assumes "0 < n" and "array_wf (unat n) q"
    and "acks \<subseteq> {..<unat n}" and "quorum_replication n \<le> card acks"
    and quiet: "\<And>d. d \<in> set (dvc_iter q) \<Longrightarrow> unat (sd_replica d) \<in> acks \<Longrightarrow> \<not> P d"
  shows "length (filter P (dvc_iter q)) < quorum_nack_prepare n"
proof -
  let ?rep = "\<lambda>d. unat (sd_replica d)"
  have "length (filter P (dvc_iter q)) = card (?rep ` set (filter P (dvc_iter q)))"
    using array_wfD(1) [OF assms(2)]
    by (metis distinct_card distinct_map_filter length_map list.set_map)
  moreover have "?rep ` set (filter P (dvc_iter q)) \<subseteq> {..<unat n} - acks"
    using array_wfD(2) [OF assms(2)] quiet by auto
  ultimately show ?thesis
    using replication_nack.complement_small [OF assms(1,3,4)] by simp
qed

text \<open>
  A vote that holds an op under a given identity, and what the votes of the highest log view say
  about an op: at least one reports it, and none reports another prepare for it.
\<close>

definition trusted_votes :: "DvcQuorumArray \<Rightarrow> StoredDvc list" where
  "trusted_votes q = filter (\<lambda>d. \<not> sd_untrusted_log d) (dvc_iter q)"

definition holds :: "u64 \<Rightarrow> u128 \<Rightarrow> StoredDvc \<Rightarrow> bool" where
  "holds op c d \<longleftrightarrow>
     (case index_of (sd_suffix d) (sd_op d) op of
        None \<Rightarrow> False
      | Some i \<Rightarrow>
          (case valid_header_at (sd_suffix d) i of
             None \<Rightarrow> False
           | Some h \<Rightarrow>
               fr_checksum h = c \<and> \<not> nacks (sd_suffix d) i \<and>
               (offers_body (sd_suffix d) i \<or> op \<le> sd_commit d)))"

definition latest :: "StoredDvc set \<Rightarrow> StoredDvc \<Rightarrow> bool" where
  "latest V d \<longleftrightarrow> d \<in> V \<and> (\<forall>e \<in> V. sd_log_view e \<le> sd_log_view d)"

definition canonical_report :: "StoredDvc set \<Rightarrow> u64 \<Rightarrow> u128 \<Rightarrow> bool" where
  "canonical_report V op c \<longleftrightarrow>
     (\<exists>d. latest V d \<and> candidate op d \<noteq> None) \<and>
     (\<forall>d h. latest V d \<and> candidate op d = Some h \<longrightarrow> fr_checksum h = c)"

lemma holder_quiet:
  assumes "holds op c d" and "fr_checksum h = c"
  shows "\<not> sender_nacks (Some h) abstained v absence op d"
proof -
  obtain i held where "index_of (sd_suffix d) (sd_op d) op = Some i" "valid_header_at (sd_suffix d) i = Some held"
      "fr_checksum held = c" "\<not> nacks (sd_suffix d) i" "offers_body (sd_suffix d) i \<or> op \<le> sd_commit d"
    using assms(1) by (auto simp: holds_def split: option.splits)
  moreover from this(1) have "op \<le> sd_op d"
    by (simp add: index_of_eq)
  ultimately show ?thesis
    using assms(2) by (auto simp: sender_nacks_def)
qed

lemma short_quiet: "sd_op d < op \<Longrightarrow> \<not> absence \<Longrightarrow> \<not> sender_nacks canonical abstained v absence op d"
  by (simp add: sender_nacks_def)

lemma log_view_canonical_max:
  assumes "log_view_canonical q = Some v"
  shows "set (senders_at q v) = {d. latest (set (dvc_iter q)) d}"
proof -
  obtain d ds where iter: "dvc_iter q = d # ds" and v: "v = foldl max (sd_log_view d) (map sd_log_view ds)"
    using assms by (cases "dvc_iter q") (auto simp: log_view_canonical_def)
  have max: "v = Max (sd_log_view ` set (dvc_iter q))"
    unfolding iter v by (simp add: Max.set_eq_fold foldl_conv_fold max.commute flip: list.set_map
      list.simps(15))
  have "sd_log_view e \<le> v" if "e \<in> set (dvc_iter q)" for e
    using that max by simp
  moreover have "v \<in> sd_log_view ` set (dvc_iter q)"
    using max Max_in [of "sd_log_view ` set (dvc_iter q)"] iter by simp
  ultimately show ?thesis
    by (auto simp: senders_at_def latest_def intro: antisym)
qed

lemma canonical_report_agreed:
  assumes "log_view_canonical q = Some v" and "canonical_report (set (dvc_iter q)) op c"
  shows "\<exists>h. agreed (senders_at q v) op h \<and> fr_checksum h = c"
    and "agreed (senders_at q v) op h \<Longrightarrow> fr_checksum h = c"
    and "op \<le> op_head_max_of (senders_at q v) k"
proof -
  note senders = log_view_canonical_max [OF assms(1)]
  let ?cs = "candidates op (senders_at q v)"
  obtain d where d: "d \<in> set (senders_at q v)" "candidate op d \<noteq> None"
    using assms(2) senders by (auto simp: canonical_report_def)
  then have ne: "?cs \<noteq> []"
    using in_candidates [of _ op "senders_at q v"] by fastforce
  from d(2) have "op \<le> sd_op d"
    by (auto simp: candidate_def index_of_eq bind_eq_Some_conv)
  have all: "\<forall>h \<in> set ?cs. fr_checksum h = c"
    using assms(2) senders by (auto simp: in_candidates canonical_report_def)
  show "\<exists>h. agreed (senders_at q v) op h \<and> fr_checksum h = c"
    using ne all by (cases ?cs) (auto simp: agreed_def canonical_header_at_eq first_opt_def)
  show "agreed (senders_at q v) op h \<Longrightarrow> fr_checksum h = c"
    using assms(2) senders by (auto simp: canonical_report_def dest!: agreed_candidate)
  show "op \<le> op_head_max_of (senders_at q v) k"
    using op_head_max_sender [OF d(1)] \<open>op \<le> sd_op d\<close> by (rule order_trans [rotated])
qed


lemma trusted_array:
  assumes wf: "array_wf n q" and only: "trusted_only q = Some only"
  shows "array_wf n only" and "set (dvc_iter only) = set (trusted_votes q)"
proof -
  let ?ds = "filter (\<lambda>dvc. \<not> sd_untrusted_log dvc) (dvc_iter q)"
  let ?rep = "\<lambda>d. unat (sd_replica d)"
  have small: "list_all (\<lambda>d. ?rep d < REPLICAS_MAX) ?ds"
    using array_wfD(2) [OF wf] by (auto simp: list_all_iff)
  then have seats: "only = seats ?ds"
    using only record_all_seats [of ?ds "[]"] by (simp add: trusted_only_def seats_Nil)
  have seated: "seated ?ds r = Some d \<longleftrightarrow> d \<in> set ?ds \<and> ?rep d = r" for r d
  proof -
    have sound: "e \<in> set ?ds \<and> ?rep e = r" if "seated ?ds r = Some e" for e
      using that by (auto simp: seated_def split: option.splits dest: find_SomeD)
    have "\<exists>e. seated ?ds r = Some e" if "d \<in> set ?ds" "?rep d = r"
      using that seated_None [of ?ds r] by fastforce
    then show ?thesis
      using sound array_wfD(2) [OF wf] by (metis mem_Collect_eq option.inject set_filter)
  qed
  show "array_wf n only"
    using array_wfD(2) [OF wf] by (auto simp: array_wf_def seats seats_def seated split: option.splits)
  show "set (dvc_iter only) = set (trusted_votes q)"
    using small seated by (auto simp: trusted_votes_def in_dvc_iter seats seats_def list_all_iff image_iff eq_commute [of "Some _"])
qed

lemma trusted_only_total: "array_wf n q \<Longrightarrow> trusted_only q \<noteq> None"
  using record_all_seats [of "filter (\<lambda>dvc. \<not> sd_untrusted_log dvc) (dvc_iter q)" "[]"] array_wfD(2) [of n q]
  by (fastforce simp: trusted_only_def seats_Nil list_all_iff)

lemma committed_kept:
  assumes n: "0 < n" "array_wf (unat n) q"
    and acks: "acks \<subseteq> {..<unat n}" "quorum_replication n \<le> card acks"
    and size: "mq_nack_prepare qs = quorum_nack_prepare n"
    and ready: "merge_dvc_quorum q qs = Some (Ready log)"
    and held: "\<And>o1 d. max (ml_commit_max log) 1 \<le> o1 \<Longrightarrow> o1 \<le> op \<Longrightarrow> d \<in> set (dvc_iter q) \<Longrightarrow>
      unat (sd_replica d) \<in> acks \<Longrightarrow> holds o1 (C o1) d \<or> \<not> mq_absence_nacks qs \<and> sd_op d < o1"
    and report: "\<And>o1. max (ml_commit_max log) 1 \<le> o1 \<Longrightarrow> o1 \<le> op \<Longrightarrow>
      canonical_report (set (dvc_iter q)) o1 (C o1)"
  shows "op \<le> ml_op_head log"
proof (rule ccontr)
  assume "\<not> op \<le> ml_op_head log"
  then have below: "ml_op_head log < op"
    by simp
  then have succ: "unat (ml_op_head log + 1) = Suc (unat (ml_op_head log))"
    using unat_add_one [of "ml_op_head log"] by force
  have up: "ml_op_head log + 1 \<le> op" "1 \<le> ml_op_head log + 1"
    using below succ by (simp_all add: word_le_nat_alt word_less_nat_alt)
  show False
    using ready
  proof (cases rule: merge_ReadyD)
    case (1 v)
    then have "max (ml_commit_max log) 1 \<le> op"
      using up by simp
    from canonical_report_agreed(3) [OF 1(1) report [OF this order_refl]] 1(3,4) below show ?thesis
      by (metis leD MergedLog.select_convs(1))
  next
    case (2 v)
    let ?c = "merge_commit_max q (mq_prepare_queue_ceiling qs)" and ?o = "ml_op_head log + 1"
    have ch: "?c \<le> ml_op_head log"
      using walk_head_commit(1) [OF 2(4) op_head_max_ge 2(3)] .
    have lo: "max (ml_commit_max log) 1 \<le> ?o"
      using ch up(2) succ 2(7) by (intro max.boundedI) (simp_all add: word_le_nat_alt)
    note report' = canonical_report_agreed [OF 2(1) report [OF lo up(1)]]
    obtain h where h: "agreed (senders_at q v) ?o h" "fr_checksum h = C ?o"
      using report'(1) by blast
    have "ml_op_head log < op_head_max_of (senders_at q v) ?c"
      using report'(3) [of ?c] succ by (simp add: word_le_nat_alt word_less_nat_alt)
    then have "mq_nack_prepare qs \<le> ov_nacks (tally_op q (senders_at q v) v ?o (mq_absence_nacks qs))"
      using merge_walk_Head [OF 2(4)] walk_start [OF op_head_max_ge 2(3)] by simp
    moreover have "\<not> sender_nacks (Some h) a v (mq_absence_nacks qs) ?o d"
      if "d \<in> set (dvc_iter q)" "unat (sd_replica d) \<in> acks" for a d
      using held [OF lo up(1) that] holder_quiet [OF _ h(2)] short_quiet by blast
    then have "ov_nacks (tally_op q (senders_at q v) v ?o (mq_absence_nacks qs)) < quorum_nack_prepare n"
      using h(1) unfolding tally_op_def agreed_def Let_def by (auto intro!: few_nacks [OF n acks])
    ultimately show ?thesis
      using size by simp
  qed
qed

lemma adopted_identity:
  assumes ready: "merge_dvc_quorum q qs = Some (Ready log)"
    and votes: "\<And>d. d \<in> set (dvc_iter q) \<Longrightarrow> consecutive d"
    and h: "h \<in> set (ml_headers log)"
    and report: "canonical_report (set (dvc_iter q)) (ph_op h) c"
  shows "fr_checksum h = c"
  using ready
proof (cases rule: merge_ReadyD)
  case (2 v)
  have "set (senders_at q v) \<subseteq> set (dvc_iter q)"
    by (auto simp: senders_at_def)
  from released_log [OF 2(4) op_head_max_ge 2(3) 2(5) this votes] h
  have "agreed (senders_at q v) (ph_op h) h"
    by (metis in_set_conv_nth)
  with canonical_report_agreed(2) [OF 2(1) report] show ?thesis .
qed (use h in simp)


text \<open>The ready log of a view change is the ready log of one merge, over all votes or the trusted ones.\<close>

lemma dvc_count_iter: "dvc_count q = length (dvc_iter q)"
  by (induction q) (simp_all add: dvc_count_def dvc_iter_def map_filter_def split: option.splits)

lemma merge_view_change_Ready:
  assumes "merge_view_change q qs = Some (Ready log)"
  obtains "merge_dvc_quorum q (qs\<lparr>mq_absence_nacks := True\<rparr>) = Some (Ready log)"
      "trusted_votes q = dvc_iter q"
  | only where "trusted_only q = Some only" "mq_view_change qs \<le> length (trusted_votes q)"
      "merge_dvc_quorum only (qs\<lparr>mq_absence_nacks := True\<rparr>) = Some (Ready log)"
  | "merge_all q qs = Some (Ready log)"
proof -
  have "trusted_votes q = dvc_iter q" if "length (trusted_votes q) = dvc_count q"
    using that length_filter_less [of _ "dvc_iter q" "\<lambda>dvc. \<not> sd_untrusted_log dvc"]
    by (fastforce simp: dvc_count_iter trusted_votes_def filter_id_conv)
  with assms that show thesis
    by (auto simp: merge_view_change_def trusted_votes_def [symmetric] Let_def
      split: if_splits option.splits)
qed

lemma committed_survives:
  assumes "0 < n" and "array_wf (unat n) q" and "\<forall>d \<in> set (dvc_iter q). consecutive d"
    and "acks \<subseteq> {..<unat n}" and "quorum_replication n \<le> card acks"
    and ready: "merge_view_change q (merge_quorums n) = Some (Ready log)"
    and held: "\<And>o1 d. max (ml_commit_max log) 1 \<le> o1 \<Longrightarrow> o1 \<le> op \<Longrightarrow> d \<in> set (dvc_iter q) \<Longrightarrow>
      unat (sd_replica d) \<in> acks \<Longrightarrow> holds o1 (C o1) d \<or> sd_untrusted_log d \<and> sd_op d < o1"
    and report: "\<And>o1. max (ml_commit_max log) 1 \<le> o1 \<Longrightarrow> o1 \<le> op \<Longrightarrow>
      canonical_report (set (dvc_iter q)) o1 (C o1) \<and>
      (quorum_view_change n \<le> length (trusted_votes q) \<longrightarrow>
        canonical_report (set (trusted_votes q)) o1 (C o1))"
  shows "op \<le> ml_op_head log \<and>
    (\<forall>h \<in> set (ml_headers log). ph_op h \<le> op \<longrightarrow> fr_checksum h = C (ph_op h))"
proof -
  have kept: "op \<le> ml_op_head log \<and> (\<forall>h \<in> set (ml_headers log). ph_op h \<le> op \<longrightarrow> fr_checksum h = C (ph_op h))"
    if merged: "merge_dvc_quorum q' qs = Some (Ready log)" and wf: "array_wf (unat n) q'"
      and sub: "set (dvc_iter q') \<subseteq> set (dvc_iter q)" and "mq_nack_prepare qs = quorum_nack_prepare n"
      and "\<And>o1. max (ml_commit_max log) 1 \<le> o1 \<Longrightarrow> o1 \<le> op \<Longrightarrow> canonical_report (set (dvc_iter q')) o1 (C o1)"
      and "mq_absence_nacks qs \<Longrightarrow> set (dvc_iter q') \<subseteq> set (trusted_votes q)" for q' qs
  proof -
    have votes: "\<forall>d \<in> set (dvc_iter q'). consecutive d"
      using assms(3) sub by blast
    have "op \<le> ml_op_head log"
      by (rule committed_kept [OF assms(1) wf assms(4,5) that(4) merged _ that(5)])
        (use held sub that(6) in \<open>auto simp: trusted_votes_def\<close>)
    moreover have "max (ml_commit_max log) 1 \<le> ph_op h" if "h \<in> set (ml_headers log)" for h
      using merged_ops [OF merged votes that] by simp
    ultimately show ?thesis
      using adopted_identity [OF merged] votes that(5) by blast
  qed
  from ready show ?thesis
  proof (cases rule: merge_view_change_Ready)
    case 1
    then show ?thesis
      using report assms(2) by (intro kept [OF 1(1)]) (auto simp: merge_quorums_def)
  next
    case (2 only)
    note only = trusted_array [OF assms(2) 2(1)]
    show ?thesis
      using 2 only report by (intro kept [OF 2(3)]) (auto simp: merge_quorums_def trusted_votes_def)
  next
    case 3
    show ?thesis
      using report assms(2) by (intro kept [OF 3 [unfolded merge_all_def]]) (auto simp: merge_quorums_def)
  qed
qed

text \<open>The votes of two replicas of three for a log of two ops, and what they say of it.\<close>

definition sample_log :: MergedLog where
  "sample_log = \<lparr>ml_op_head = 2, ml_commit_max = 1,
     ml_headers = [sample_header 2 11 22, sample_header 1 0 11], ml_committed_elsewhere = []\<rparr>"

definition sample_identity :: "u64 \<Rightarrow> u128" where
  "sample_identity op = (if op = 1 then 11 else 22)"

lemma sample_merged: "merge_view_change sample_votes (merge_quorums 3) = Some (Ready sample_log)"
  by code_simp

lemma sample_array_wf: "array_wf (unat (3 :: u8)) sample_votes"
  by code_simp

lemma sample_iter: "dvc_iter sample_votes = [sample_vote 0, sample_vote 1]"
    "trusted_votes sample_votes = [sample_vote 0, sample_vote 1]"
  by code_simp+

lemma sample_ops: "max (ml_commit_max sample_log) 1 \<le> o1 \<Longrightarrow> o1 \<le> 2 \<Longrightarrow> o1 = 1 \<or> o1 = 2"
  by (auto simp: sample_log_def word_le_nat_alt word_unat_eq_iff)

lemma sample_held:
  assumes "max (ml_commit_max sample_log) 1 \<le> o1" and "o1 \<le> 2" and "d \<in> set (dvc_iter sample_votes)"
  shows "holds o1 (sample_identity o1) d \<or> sd_untrusted_log d \<and> sd_op d < o1"
proof -
  have "holds 1 (sample_identity 1) (sample_vote 0)" "holds 2 (sample_identity 2) (sample_vote 0)"
      "holds 1 (sample_identity 1) (sample_vote 1)" "holds 2 (sample_identity 2) (sample_vote 1)"
    by code_simp+
  then show ?thesis
    using sample_ops [OF assms(1,2)] assms(3) unfolding sample_iter by auto
qed

lemma sample_report:
  assumes "max (ml_commit_max sample_log) 1 \<le> o1" and "o1 \<le> 2"
  shows "canonical_report (set (dvc_iter sample_votes)) o1 (sample_identity o1) \<and>
    (quorum_view_change 3 \<le> length (trusted_votes sample_votes) \<longrightarrow>
      canonical_report (set (trusted_votes sample_votes)) o1 (sample_identity o1))"
proof -
  have cand: "candidate 1 (sample_vote 0) = Some (sample_header 1 0 11)"
      "candidate 2 (sample_vote 0) = Some (sample_header 2 11 22)"
      "candidate 1 (sample_vote 1) = Some (sample_header 1 0 11)"
      "candidate 2 (sample_vote 1) = Some (sample_header 2 11 22)"
    by code_simp+
  have latest: "latest {sample_vote 0, sample_vote 1} d \<longleftrightarrow> d = sample_vote 0 \<or> d = sample_vote 1" for d
    unfolding latest_def by (auto simp: sample_vote_def)
  have "canonical_report {sample_vote 0, sample_vote 1} 1 (sample_identity 1)"
      "canonical_report {sample_vote 0, sample_vote 1} 2 (sample_identity 2)"
    unfolding canonical_report_def latest sample_identity_def by (auto simp: cand) (simp_all add: sample_header_def)
  then show ?thesis
    using sample_ops [OF assms] unfolding sample_iter by auto
qed




section \<open>A full set of votes decides\<close>

text \<open>
  Op numbers below the largest one: the walk's counter cannot overflow. Under that bound the merge
  returns, and with every vote in it does not ask for more of them.
\<close>

definition bounded :: "StoredDvc \<Rightarrow> bool" where
  "bounded d \<longleftrightarrow>
     sd_op d \<noteq> - 1 \<and> sd_commit d \<noteq> - 1 \<and> (\<forall>h \<in> set (sf_headers (sd_suffix d)). ph_commit h \<noteq> - 1)"

lemma merge_walk_total: "m \<noteq> - 1 \<Longrightarrow> merge_walk q qs cs v c m op \<noteq> None"
proof (induction q qs cs v c m op rule: merge_walk.induct)
  case (1 q qs cs v c m op)
  have "op \<noteq> - 1" if "op \<le> m"
    using that 1(2) by (metis word_order.extremum_uniqueI)
  with 1(1) [OF _ refl] 1(2) show ?case
    by (subst merge_walk.simps) (auto simp: Let_def not_le)
qed

lemma max_below: "(a :: u64) \<noteq> - 1 \<Longrightarrow> b \<noteq> - 1 \<Longrightarrow> max a b \<noteq> - 1"
  by (simp add: max_def)

lemma foldl_max_below: "(a :: u64) \<noteq> - 1 \<Longrightarrow> - 1 \<notin> set xs \<Longrightarrow> foldl max a xs \<noteq> - 1"
proof (induction xs arbitrary: a)
  case (Cons x xs)
  then show ?case
    using max_below [of a x] by auto
qed simp

lemma saturating_sub_below: "(a :: u64) \<noteq> - 1 \<Longrightarrow> saturating_sub a b \<noteq> - 1"
proof -
  assume "a \<noteq> - 1"
  moreover have "saturating_sub a b \<le> a"
    by (auto simp: saturating_sub_def word_le_nat_alt unat_sub_if')
  ultimately show ?thesis
    by (metis word_order.extremum_uniqueI)
qed

lemma commit_bound_below: "a \<noteq> - 1 \<Longrightarrow> bounded d \<Longrightarrow> commit_bound ceiling a d \<noteq> - 1"
  by (auto simp: commit_bound_def bounded_def Let_def first_opt_def max_below saturating_sub_below
    split: option.splits list.splits intro!: max_below)

lemma merge_commit_max_below:
  assumes "\<forall>d \<in> set (dvc_iter q). bounded d"
  shows "merge_commit_max q ceiling \<noteq> - 1"
proof -
  have "foldl (commit_bound ceiling) a ds \<noteq> - 1" if "a \<noteq> - 1" "\<forall>d \<in> set ds. bounded d" for a ds
    using that by (induction ds arbitrary: a) (simp_all add: commit_bound_below)
  then show ?thesis
    using assms by (simp add: merge_commit_max_def)
qed

lemma op_head_max_below:
  assumes "c \<noteq> - 1" and "\<forall>d \<in> set ds. bounded d"
  shows "op_head_max_of ds c \<noteq> - 1"
  unfolding op_head_max_of_def
proof (rule max_below [OF _ assms(1)])
  show "(case map sd_op ds of [] \<Rightarrow> c | o1 # os \<Rightarrow> foldl max o1 os) \<noteq> - 1"
  proof (cases ds)
    case (Cons d ds')
    have "- 1 \<notin> set (map sd_op ds')" and "sd_op d \<noteq> - 1"
      using assms(2) unfolding Cons by (force simp: bounded_def)+
    then show ?thesis
      using foldl_max_below unfolding Cons by simp
  qed (use assms(1) in simp)
qed

lemma merge_dvc_quorum_total:
  assumes "\<forall>d \<in> set (dvc_iter q). bounded d"
  shows "merge_dvc_quorum q qs \<noteq> None"
proof -
  have "op_head_max_of (senders_at q v) (merge_commit_max q (mq_prepare_queue_ceiling qs)) \<noteq> - 1" for v
    using assms by (intro op_head_max_below merge_commit_max_below) (auto simp: senders_at_def)
  note walk = merge_walk_total [OF this]
  show ?thesis
    by (auto simp: walk merge_dvc_quorum_def senders_at_def [symmetric] Let_def
      split: option.splits WalkResult.splits)
qed

definition decided :: "MergeOutcome \<Rightarrow> bool" where
  "decided outcome \<longleftrightarrow> (case outcome of Ready _ \<Rightarrow> True | Deadlocked _ \<Rightarrow> True | _ \<Rightarrow> False)"

lemma merge_dvc_quorum_decides:
  assumes "merge_dvc_quorum q qs = Some outcome" and "0 < dvc_count q"
    and "mq_view_change qs \<le> dvc_count q" and "mq_replica_count qs \<le> dvc_count q"
  shows "decided outcome"
proof -
  obtain d ds where "dvc_iter q = d # ds"
    using assms(2) by (cases "dvc_iter q") (auto simp: dvc_count_iter)
  then have "log_view_canonical q \<noteq> None"
    by (simp add: log_view_canonical_def)
  with assms show ?thesis
    by (auto simp: merge_dvc_quorum_def Let_def undecided_def decided_def
      split: if_splits option.splits WalkResult.splits dest!: merge_walk_Return)
qed

text \<open>
  C9. A view change does not wait forever. When the vote of every replica is in and the reported
  op numbers leave room for a successor, the merge returns and its outcome is final: a log to start
  the view with, or the op at which the cluster needs an operator, never a request for more votes.
\<close>

theorem view_change_decides:
  assumes "0 < n" and "array_wf (unat n) q" and "dvc_count q = unat n"
    and "\<forall>d \<in> set (dvc_iter q). bounded d"
  shows "\<exists>outcome. merge_view_change q (merge_quorums n) = Some outcome \<and> decided outcome"
proof -
  let ?qs = "merge_quorums n"
  have sizes: "0 < dvc_count q" "quorum_view_change n \<le> dvc_count q"
    using assms(1,3) replication_view_change.attainable [OF assms(1)] by (simp_all add: unat_gt_0)
  have full: "\<exists>outcome. merge_dvc_quorum q qs = Some outcome \<and> decided outcome"
    if "mq_view_change qs \<le> unat n" "mq_replica_count qs = unat n" for qs
    using merge_dvc_quorum_total [OF assms(4)] merge_dvc_quorum_decides [OF _ sizes(1)] that assms(3)
    by fastforce
  have all: "\<exists>outcome. merge_all q ?qs = Some outcome \<and> decided outcome"
    unfolding merge_all_def by (rule full) (simp_all add: merge_quorums_def)
  have "\<exists>only. trusted_only q = Some only \<and> (\<forall>d \<in> set (dvc_iter only). bounded d)"
    using trusted_array(2) [OF assms(2)] trusted_only_total [OF assms(2)] assms(4)
    by (fastforce simp: trusted_votes_def)
  then obtain only where only: "trusted_only q = Some only" "\<And>qs. merge_dvc_quorum only qs \<noteq> None"
    using merge_dvc_quorum_total by blast
  have ready: "is_ready outcome \<Longrightarrow> decided outcome" for outcome
    by (auto simp: is_ready_def decided_def split: MergeOutcome.splits)
  have trusted: "\<exists>outcome. merge_dvc_quorum q (?qs\<lparr>mq_absence_nacks := True\<rparr>) = Some outcome \<and> decided outcome"
    using sizes(2) assms(3) by (intro full) (simp_all add: merge_quorums_def)
  have "\<not> dvc_count q < mq_replica_count ?qs"
    using assms(3) by (simp add: merge_quorums_def)
  then show ?thesis
    using all only(2) [of "?qs\<lparr>mq_absence_nacks := True\<rparr>"] trusted ready
    by (auto simp: merge_view_change_def only(1) Let_def)
qed

theorem view_change_decides_witness:
  "\<exists>outcome. merge_view_change (sample_votes[2 := Some (sample_vote 2)]) (merge_quorums 3) = Some outcome \<and>
     decided outcome"
proof (rule view_change_decides)
  show "array_wf (unat (3 :: u8)) (sample_votes[2 := Some (sample_vote 2)])"
    by code_simp
  show "dvc_count (sample_votes[2 := Some (sample_vote 2)]) = unat (3 :: u8)"
    by code_simp
  show "\<forall>d \<in> set (dvc_iter (sample_votes[2 := Some (sample_vote 2)])). bounded d"
    by code_simp
qed simp

end
