(* ===== verification/Vsr_State.thy ===== *)
theory Vsr_State
  imports Dvc_Merge Le_Cursor
begin

text \<open>
  The durable record of a replica (\<open>src/core/consensus/src/vsr_state.rs\<close>): its view numbers, the
  evidence of an adopted view, the certificate of its history, and the byte format of the
  superblock that holds them. An outer \<open>None\<close> is a panic.
\<close>

section \<open>Adopted views\<close>

definition ENCODED_LEN :: nat where "ENCODED_LEN = 74"
definition RECOVERY_VERSION :: "16 word" where "RECOVERY_VERSION = 2"
definition RECOVERY_PREFIX_LEN :: nat where "RECOVERY_PREFIX_LEN = ENCODED_LEN + 4"
definition ADOPTED_FIELDS_LEN :: nat where "ADOPTED_FIELDS_LEN = 40"
definition ADOPTED_HEADERS_OFFSET :: nat where
  "ADOPTED_HEADERS_OFFSET = RECOVERY_PREFIX_LEN + ADOPTED_FIELDS_LEN"
definition ENCODED_LEN_WITHOUT_RESERVATION :: nat where "ENCODED_LEN_WITHOUT_RESERVATION = 66"

lemmas record_sizes = ENCODED_LEN_def RECOVERY_PREFIX_LEN_def ADOPTED_FIELDS_LEN_def
  ADOPTED_HEADERS_OFFSET_def ENCODED_LEN_WITHOUT_RESERVATION_def

datatype VsrStateError =
    WrongLength nat nat
  | LogViewAheadOfView u32 u32
  | UnsupportedVersion "16 word"
  | InvalidAdoptedView
  | AdoptedGroupMismatch

record AdoptedView =
  av_view :: u32
  av_group :: u64
  av_partition_incarnation :: u64
  av_op_head :: u64
  av_commit_max :: u64
  av_headers :: "PrepareHeader list"

definition merged_log :: "AdoptedView \<Rightarrow> MergedLog" where
  "merged_log a =
     \<lparr>ml_op_head = av_op_head a, ml_commit_max = av_commit_max a, ml_headers = av_headers a,
      ml_committed_elsewhere = []\<rparr>"

definition vouches_for :: "AdoptedView \<Rightarrow> PrepareHeader \<Rightarrow> bool" where
  "vouches_for a header =
     (if fr_checksum header = CHECKSUM_UNSEALED then False
      else list_ex (\<lambda>adopted.
        if ph_op adopted \<noteq> ph_op header \<or> dvc_header_kind adopted \<noteq> Valid then False
        else header\<lparr>fr_view := fr_view adopted\<rparr> = adopted) (av_headers a))"

definition validate_adopted ::
    "(bytes \<Rightarrow> u64) \<Rightarrow> AdoptedView \<Rightarrow> u128 \<Rightarrow> u32 \<Rightarrow> (VsrStateError + unit) option" where
  "validate_adopted xxh3 a cluster view =
     (if av_view a > view \<or> av_commit_max a > av_op_head a then Some (Err InvalidAdoptedView)
      else map_option (\<lambda>decoded.
        rbind (map_err (\<lambda>_. InvalidAdoptedView) decoded) (\<lambda>_.
        if list_ex (\<lambda>header. dvc_header_kind header = Valid \<and>
             (fr_cluster header \<noteq> cluster \<or> ph_group header \<noteq> av_group a \<or>
              ph_partition_incarnation header \<noteq> av_partition_incarnation a)) (av_headers a)
        then Err InvalidAdoptedView else Ok ()))
        (dvc_suffix_decode xxh3 (concat (map put_PrepareHeader (av_headers a))) (av_op_head a) 0 0))"

section \<open>History certificates\<close>

record HistoryCertificate =
  hc_view :: u32
  hc_op :: u64
  hc_checksum :: u32

definition certificate_new :: "u32 \<Rightarrow> u64 \<Rightarrow> u128 \<Rightarrow> HistoryCertificate" where
  "certificate_new view op checksum = \<lparr>hc_view = view, hc_op = op, hc_checksum = ucast checksum\<rparr>"

definition binds :: "HistoryCertificate \<Rightarrow> u128 \<Rightarrow> bool" where
  "binds c checksum \<longleftrightarrow> hc_checksum (certificate_new (hc_view c) (hc_op c) checksum) = hc_checksum c"

record VsrState =
  vs_cluster :: u128
  vs_replica_id :: u8
  vs_replica_count :: u8
  vs_view :: u32
  vs_log_view :: u32
  vs_commit_max :: u64
  vs_checkpoint_op :: u64
  vs_checkpoint_checksum :: u128
  vs_offset_frontier :: u64
  vs_offset_reserved :: u64
  vs_adopted_view :: "AdoptedView option"

definition history_certificate :: "VsrState \<Rightarrow> HistoryCertificate option" where
  "history_certificate s =
     (let view = (ucast (drop_bit 32 (vs_offset_reserved s)) :: u32) in
      if view = 0 then None
      else Some \<lparr>hc_view = view - 1, hc_op = vs_offset_frontier s, hc_checksum = ucast (vs_offset_reserved s)\<rparr>)"

definition with_history_certificate :: "HistoryCertificate option \<Rightarrow> VsrState \<Rightarrow> VsrState" where
  "with_history_certificate certificate s =
     (let (op, packed) = (case certificate of
        Some c \<Rightarrow>
          (case checked_add (hc_view c) 1 of
             Some view \<Rightarrow> (hc_op c, push_bit 32 (ucast view) OR ucast (hc_checksum c))
           | None \<Rightarrow> (0, 0))
      | None \<Rightarrow> (0, 0))
      in s\<lparr>vs_offset_frontier := op, vs_offset_reserved := packed\<rparr>)"

datatype HistoryRecovery = Certified u32 "u64 option" | Unproven

text \<open>The loop over the headers at and above the truncation point: up to the first one not vouched for.\<close>

fun retain_loop :: "AdoptedView \<Rightarrow> PrepareHeader list \<Rightarrow> u64 option \<Rightarrow> u64 option" where
  "retain_loop a [] truncate_from = truncate_from"
| "retain_loop a (header # headers) truncate_from =
     (if \<not> vouches_for a header then Some (ph_op header)
      else retain_loop a headers (checked_add (ph_op header) 1))"

definition retain_adopted_suffix ::
    "AdoptedView \<Rightarrow> PrepareHeader list \<Rightarrow> HistoryRecovery \<Rightarrow> HistoryRecovery" where
  "retain_adopted_suffix a headers r =
     (case r of
        Certified view (Some from) \<Rightarrow>
          if av_view a \<le> view then r
          else Certified view (retain_loop a (filter (\<lambda>header. ph_op header \<ge> from) headers) (Some from))
      | _ \<Rightarrow> r)"

definition recovery_new :: "VsrState option \<Rightarrow> bool \<Rightarrow> (u64 \<Rightarrow> u128 option) \<Rightarrow> HistoryRecovery" where
  "recovery_new state solo checksum_at =
     (case state of
        None \<Rightarrow> Certified 0 None
      | Some s \<Rightarrow>
          if solo then Certified (vs_log_view s) None
          else case history_certificate s of
            None \<Rightarrow> Unproven
          | Some c \<Rightarrow>
              if \<not> hc_view c \<le> vs_log_view s then Unproven
              else if vs_view s = hc_view c then Certified (hc_view c) None
              else if hc_op c \<le> vs_checkpoint_op s \<or>
                (case checksum_at (hc_op c) of None \<Rightarrow> False | Some checksum \<Rightarrow> binds c checksum)
              then Certified (hc_view c) (Some (saturating_add (max (hc_op c) (vs_checkpoint_op s)) 1))
              else Unproven)"

definition recovery_log_view :: "HistoryRecovery \<Rightarrow> u32" where
  "recovery_log_view r = (case r of Certified view _ \<Rightarrow> view | Unproven \<Rightarrow> 0)"

definition validate_group :: "u64 \<Rightarrow> u64 \<Rightarrow> VsrState \<Rightarrow> VsrStateError + unit" where
  "validate_group grp incarnation s =
     (if (case vs_adopted_view s of
            None \<Rightarrow> False
          | Some a \<Rightarrow> av_group a \<noteq> grp \<or> av_partition_incarnation a \<noteq> incarnation)
      then Err AdoptedGroupMismatch else Ok ())"

section \<open>The record's bytes\<close>

definition put_adopted :: "AdoptedView \<Rightarrow> bytes" where
  "put_adopted a =
     to_le_bytes (av_view a) @ to_le_bytes (av_group a) @ to_le_bytes (av_partition_incarnation a) @
     to_le_bytes (av_op_head a) @ to_le_bytes (av_commit_max a) @
     to_le_bytes (saturate_u32 (length (av_headers a))) @
     concat (map put_PrepareHeader (av_headers a))"

definition state_to_bytes :: "VsrState \<Rightarrow> bytes" where
  "state_to_bytes s =
     to_le_bytes (vs_cluster s) @ [vs_replica_id s, vs_replica_count s] @
     to_le_bytes (vs_view s) @ to_le_bytes (vs_log_view s) @ to_le_bytes (vs_commit_max s) @
     to_le_bytes (vs_checkpoint_op s) @ to_le_bytes (vs_checkpoint_checksum s) @
     to_le_bytes (vs_offset_frontier s) @ to_le_bytes (vs_offset_reserved s) @
     to_le_bytes RECOVERY_VERSION @
     (case vs_adopted_view s of
        None \<Rightarrow> to_le_bytes (0 :: 16 word)
      | Some adopted \<Rightarrow> to_le_bytes (1 :: 16 word) @ put_adopted adopted)"

definition field :: "nat \<Rightarrow> bytes \<Rightarrow> nat \<Rightarrow> bytes" where
  "field n bs start = take n (drop start bs)"

definition get_header :: "bytes \<Rightarrow> VsrStateError + PrepareHeader \<times> bytes" where
  "get_header bs =
     map_err (\<lambda>_. InvalidAdoptedView)
       (rbind (ok_or () (cast_PrepareHeader (take HEADER_SIZE bs))) (\<lambda>h. Ok (h, drop HEADER_SIZE bs)))"

text \<open>The adopted view of a record long enough to carry one.\<close>

definition read_adopted :: "bytes \<Rightarrow> VsrStateError + AdoptedView option" where
  "read_adopted bs =
     (if length bs \<ge> RECOVERY_PREFIX_LEN then
        let version = from_le_bytes (field 2 bs 74); present = (from_le_bytes (field 2 bs 76) :: 16 word) in
        if version \<noteq> RECOVERY_VERSION then Err (UnsupportedVersion version)
        else if present = 0 \<and> length bs = RECOVERY_PREFIX_LEN then Ok None
        else if present = 1 \<and> length bs \<ge> ADOPTED_HEADERS_OFFSET then
          let fields = field ADOPTED_FIELDS_LEN bs RECOVERY_PREFIX_LEN;
              count = unat (from_le_bytes (field 4 fields 36) :: u32) in
          if count > DVC_HEADERS_MAX \<or> length bs \<noteq> ADOPTED_HEADERS_OFFSET + count * HEADER_SIZE
          then Err InvalidAdoptedView
          else
            rbind (read_n get_header count (drop ADOPTED_HEADERS_OFFSET bs)) (\<lambda>(headers, _).
            Ok (Some \<lparr>av_view = from_le_bytes (field 4 fields 0), av_group = from_le_bytes (field 8 fields 4),
              av_partition_incarnation = from_le_bytes (field 8 fields 12),
              av_op_head = from_le_bytes (field 8 fields 20),
              av_commit_max = from_le_bytes (field 8 fields 28), av_headers = headers\<rparr>))
        else Err InvalidAdoptedView
      else Ok None)"

text \<open>
  The fixed part at its full width. A record from before the offset reservation repeats its offset
  frontier as the reservation.
\<close>

definition padded_record :: "bytes \<Rightarrow> VsrStateError + bytes" where
  "padded_record bs =
     (if length bs \<ge> RECOVERY_PREFIX_LEN then Ok (take ENCODED_LEN bs)
      else if length bs = ENCODED_LEN then Ok bs
      else if length bs = ENCODED_LEN_WITHOUT_RESERVATION then Ok (bs @ field 8 bs 58)
      else Err (WrongLength ENCODED_LEN (length bs)))"

definition read_fixed :: "bytes \<Rightarrow> AdoptedView option \<Rightarrow> VsrState" where
  "read_fixed bs adopted =
     \<lparr>vs_cluster = from_le_bytes (field 16 bs 0), vs_replica_id = bs ! 16, vs_replica_count = bs ! 17,
      vs_view = from_le_bytes (field 4 bs 18), vs_log_view = from_le_bytes (field 4 bs 22),
      vs_commit_max = from_le_bytes (field 8 bs 26), vs_checkpoint_op = from_le_bytes (field 8 bs 34),
      vs_checkpoint_checksum = from_le_bytes (field 16 bs 42),
      vs_offset_frontier = from_le_bytes (field 8 bs 58),
      vs_offset_reserved = from_le_bytes (field 8 bs 66), vs_adopted_view = adopted\<rparr>"

definition state_try_from :: "(bytes \<Rightarrow> u64) \<Rightarrow> bytes \<Rightarrow> (VsrStateError + VsrState) option" where
  "state_try_from xxh3 bs =
     (case rbind (read_adopted bs) (\<lambda>adopted. rbind (padded_record bs) (\<lambda>padded. Ok (read_fixed padded adopted))) of
        Inl e \<Rightarrow> Some (Err e)
      | Inr s \<Rightarrow>
          if vs_log_view s > vs_view s then Some (Err (LogViewAheadOfView (vs_view s) (vs_log_view s)))
          else case vs_adopted_view s of
            None \<Rightarrow> Some (Ok s)
          | Some adopted \<Rightarrow>
              map_option (\<lambda>r. rbind r (\<lambda>_. Ok s)) (validate_adopted xxh3 adopted (vs_cluster s) (vs_view s)))"

section \<open>Reading back a record\<close>

interpretation header_codec: exact_codec wf_PrepareHeader put_PrepareHeader get_header
proof
  fix h rest
  assume "wf_PrepareHeader h"
  then show "get_header (put_PrepareHeader h @ rest) = Ok (h, rest)"
    using cast_PrepareHeader_iff [of "put_PrepareHeader h" h]
    by (simp add: get_header_def length_put_PrepareHeader HEADER_SIZE_def)
next
  fix bs h rest
  assume "get_header bs = Ok (h, rest)"
  then show "wf_PrepareHeader h \<and> bs = put_PrepareHeader h @ rest"
    by (auto simp: get_header_def rbind_eq_Ok ok_or_eq_Ok cast_PrepareHeader_iff) (metis append_take_drop_id)
qed

definition put_fixed :: "VsrState \<Rightarrow> bytes" where
  "put_fixed s =
     to_le_bytes (vs_cluster s) @ [vs_replica_id s, vs_replica_count s] @
     to_le_bytes (vs_view s) @ to_le_bytes (vs_log_view s) @ to_le_bytes (vs_commit_max s) @
     to_le_bytes (vs_checkpoint_op s) @ to_le_bytes (vs_checkpoint_checksum s) @
     to_le_bytes (vs_offset_frontier s) @ to_le_bytes (vs_offset_reserved s)"

lemma length_put_fixed: "length (put_fixed s) = ENCODED_LEN"
  by (simp add: put_fixed_def ENCODED_LEN_def)

lemma read_put_fixed: "read_fixed (put_fixed s) adopted = s\<lparr>vs_adopted_view := adopted\<rparr>"
  by (simp add: read_fixed_def put_fixed_def field_def from_to_le_bytes nth_append)

lemma read_fixed_adopted [simp]: "vs_adopted_view (read_fixed bs adopted) = adopted"
  by (simp add: read_fixed_def)

lemma state_to_bytes_split:
  "state_to_bytes s = put_fixed s @ to_le_bytes RECOVERY_VERSION @
     (case vs_adopted_view s of
        None \<Rightarrow> to_le_bytes (0 :: 16 word)
      | Some adopted \<Rightarrow> to_le_bytes (1 :: 16 word) @ put_adopted adopted)"
  by (simp add: state_to_bytes_def put_fixed_def)

lemma length_put_headers:
  "list_all wf_PrepareHeader hs \<Longrightarrow> length (concat (map put_PrepareHeader hs)) = length hs * HEADER_SIZE"
  by (induction hs) (simp_all add: length_put_PrepareHeader HEADER_SIZE_def)

lemma read_put_adopted:
  assumes "length (av_headers a) \<le> DVC_HEADERS_MAX" and "list_all wf_PrepareHeader (av_headers a)"
    and "length fixed = ENCODED_LEN"
  shows "read_adopted (fixed @ to_le_bytes RECOVERY_VERSION @ to_le_bytes (1 :: 16 word) @ put_adopted a) = Ok (Some a)"
proof -
  let ?bs = "fixed @ to_le_bytes RECOVERY_VERSION @ to_le_bytes (1 :: 16 word) @ put_adopted a"
  let ?body = "concat (map put_PrepareHeader (av_headers a))"
  have count: "saturate_u32 (length (av_headers a)) = of_nat (length (av_headers a))"
      "unat (of_nat (length (av_headers a)) :: u32) = length (av_headers a)"
    using assms(1) by (simp_all add: saturate_u32_def DVC_HEADERS_MAX_def unat_of_nat)
  have body: "length ?body = length (av_headers a) * HEADER_SIZE"
    using assms(2) by (rule length_put_headers)
  have read: "read_n get_header (length (av_headers a)) ?body = Ok (av_headers a, [])"
    using header_codec.read_n_put [of "av_headers a" _ "[]"] assms(2) by (simp add: list_all_iff)
  have fields: "field ADOPTED_FIELDS_LEN ?bs RECOVERY_PREFIX_LEN =
      to_le_bytes (av_view a) @ to_le_bytes (av_group a) @ to_le_bytes (av_partition_incarnation a) @
      to_le_bytes (av_op_head a) @ to_le_bytes (av_commit_max a) @
      to_le_bytes (of_nat (length (av_headers a)) :: u32)"
    using assms(3) by (simp add: field_def put_adopted_def count record_sizes)
  have tail: "drop ADOPTED_HEADERS_OFFSET ?bs = ?body"
    using assms(3) by (simp add: put_adopted_def record_sizes)
  have version: "field 2 ?bs 74 = to_le_bytes RECOVERY_VERSION" "field 2 ?bs 76 = to_le_bytes (1 :: 16 word)"
    using assms(3) by (simp_all add: field_def record_sizes)
  have len: "length ?bs = ADOPTED_HEADERS_OFFSET + length (av_headers a) * HEADER_SIZE"
    using assms(3) body by (simp add: put_adopted_def record_sizes)
  show ?thesis
    unfolding read_adopted_def Let_def fields tail version len
    using assms(1) read by (simp add: field_def from_to_le_bytes count record_sizes)
qed

text \<open>
  C35. The superblock keeps the replica's record. A record whose log view is within its view and
  whose adopted view, if it carries one, is valid evidence with well-formed headers, is read back
  from its bytes unchanged.
\<close>

theorem superblock_roundtrip:
  assumes "vs_log_view s \<le> vs_view s"
    and "\<forall>a. vs_adopted_view s = Some a \<longrightarrow> length (av_headers a) \<le> DVC_HEADERS_MAX \<and>
      list_all wf_PrepareHeader (av_headers a) \<and>
      validate_adopted xxh3 a (vs_cluster s) (vs_view s) = Some (Ok ())"
  shows "state_try_from xxh3 (state_to_bytes s) = Some (Ok s)"
proof -
  have adopted: "read_adopted (state_to_bytes s) = Ok (vs_adopted_view s)"
  proof (cases "vs_adopted_view s")
    case None
    then show ?thesis
      by (simp add: state_to_bytes_split read_adopted_def field_def from_to_le_bytes length_put_fixed record_sizes)
  next
    case (Some a)
    with assms(2) read_put_adopted [of a "put_fixed s"] show ?thesis
      by (simp add: state_to_bytes_split length_put_fixed)
  qed
  have "padded_record (state_to_bytes s) = Ok (put_fixed s)"
    by (auto simp: state_to_bytes_split padded_record_def length_put_fixed record_sizes split: option.split)
  with adopted have "rbind (read_adopted (state_to_bytes s)) (\<lambda>adopted.
      rbind (padded_record (state_to_bytes s)) (\<lambda>padded. Ok (read_fixed padded adopted))) = Ok s"
    by (simp add: read_put_fixed)
  then show ?thesis
    unfolding state_try_from_def using assms by (auto split: option.split)
qed

section \<open>What a record carries\<close>

lemma suffix_decoded:
  assumes "dvc_suffix_decode xxh3 body head_op nack present = Some (Ok s)"
  shows "body = concat (map put_PrepareHeader (sf_headers s)) \<and> sf_nack_bitset s = nack \<and>
    sf_present_bitset s = present \<and> describes_log xxh3 head_op s"
proof (cases "body_ok body nack present")
  case True
  with assms have "decode_entries xxh3 body head_op [0..<body_count body] None = Ok (sf_headers s)"
      "sf_nack_bitset s = nack" "sf_present_bitset s = present"
    by (auto simp: dvc_suffix_decode_body_ok rbind_eq_Ok)
  with True encoding_iff [of s nack present body xxh3 head_op] show ?thesis
    by (auto simp: encode_into_def encode_prepare_headers_def split: if_splits)
next
  case False
  with assms dvc_suffix_decode_body_bad [OF False, of xxh3 head_op] show ?thesis
    by auto
qed

lemma describes_wf: "describes_log xxh3 head_op s \<Longrightarrow> list_all wf_PrepareHeader (sf_headers s)"
  by (auto simp: describes_log_def list_all2_conv_all_nth list_all_length entry_ok_def suffix_len_def)

lemma put_headers_inject:
  assumes "concat (map put_PrepareHeader hs) = concat (map put_PrepareHeader hs')"
    and "list_all wf_PrepareHeader hs" and "list_all wf_PrepareHeader hs'"
  shows "hs = hs'"
proof -
  have "length hs = length hs'"
    using arg_cong [OF assms(1), of length] assms(2,3) by (simp add: length_put_headers HEADER_SIZE_def)
  moreover have "read_n get_header (length gs) (concat (map put_PrepareHeader gs)) = Ok (gs, [])"
    if "list_all wf_PrepareHeader gs" for gs
    using header_codec.read_n_put [of gs "length gs" "[]"] that by (simp add: list_all_iff)
  ultimately show ?thesis
    using assms by (metis Inr_inject prod.inject)
qed

lemma validate_adopted_Ok:
  assumes "validate_adopted xxh3 a cluster view = Some (Ok ())" and "list_all wf_PrepareHeader (av_headers a)"
  shows "av_view a \<le> view" and "av_commit_max a \<le> av_op_head a"
    and "describes_log xxh3 (av_op_head a) \<lparr>sf_headers = av_headers a, sf_nack_bitset = 0, sf_present_bitset = 0\<rparr>"
    and "list_all (\<lambda>h. dvc_header_kind h = Valid \<longrightarrow> fr_cluster h = cluster \<and> ph_group h = av_group a \<and>
      ph_partition_incarnation h = av_partition_incarnation a) (av_headers a)"
proof -
  obtain s where s: "dvc_suffix_decode xxh3 (concat (map put_PrepareHeader (av_headers a))) (av_op_head a) 0 0 = Some (Ok s)"
    using assms(1) by (auto simp: validate_adopted_def rbind_eq_Ok split: if_splits)
  note decoded = suffix_decoded [OF s]
  then have "sf_headers s = av_headers a"
    using put_headers_inject [of "av_headers a" "sf_headers s"] assms(2) describes_wf [of xxh3 "av_op_head a" s] by simp
  then have "s = \<lparr>sf_headers = av_headers a, sf_nack_bitset = 0, sf_present_bitset = 0\<rparr>"
    using decoded by (cases s) simp
  then show "describes_log xxh3 (av_op_head a) \<lparr>sf_headers = av_headers a, sf_nack_bitset = 0, sf_present_bitset = 0\<rparr>"
    using decoded by simp
  show "av_view a \<le> view" "av_commit_max a \<le> av_op_head a"
    using assms(1) by (auto simp: validate_adopted_def split: if_splits)
  show "list_all (\<lambda>h. dvc_header_kind h = Valid \<longrightarrow> fr_cluster h = cluster \<and> ph_group h = av_group a \<and>
      ph_partition_incarnation h = av_partition_incarnation a) (av_headers a)"
    using assms(1) s by (auto simp: validate_adopted_def list_ex_iff list_all_iff split: if_splits)
qed

lemma read_adopted_wf:
  assumes "read_adopted bs = Ok (Some a)"
  shows "list_all wf_PrepareHeader (av_headers a)" and "length (av_headers a) \<le> DVC_HEADERS_MAX"
proof -
  obtain n rest where "n \<le> DVC_HEADERS_MAX"
      and read: "read_n get_header n (drop ADOPTED_HEADERS_OFFSET bs) = Ok (av_headers a, rest)"
    using assms by (auto simp: read_adopted_def Let_def rbind_eq_Ok not_less split: if_splits)
  with header_codec.read_n_exact [OF read]
  show "list_all wf_PrepareHeader (av_headers a)" "length (av_headers a) \<le> DVC_HEADERS_MAX"
    by (auto simp: list_all_iff)
qed

text \<open>
  C36. Whatever bytes the superblock decoder accepts, from any of its three layouts, the log view is
  within the view, and an adopted view is within the view with its commit at or below its head and
  every entry of this cluster and of its group and incarnation.
\<close>

theorem superblock_accepts:
  assumes "state_try_from xxh3 bs = Some (Ok s)"
  shows "vs_log_view s \<le> vs_view s \<and>
    (\<forall>a. vs_adopted_view s = Some a \<longrightarrow>
       av_view a \<le> vs_view s \<and> av_commit_max a \<le> av_op_head a \<and> length (av_headers a) \<le> DVC_HEADERS_MAX \<and>
       describes_log xxh3 (av_op_head a) \<lparr>sf_headers = av_headers a, sf_nack_bitset = 0, sf_present_bitset = 0\<rparr> \<and>
       list_all (\<lambda>h. dvc_header_kind h = Valid \<longrightarrow> fr_cluster h = vs_cluster s \<and> ph_group h = av_group a \<and>
         ph_partition_incarnation h = av_partition_incarnation a) (av_headers a))"
proof -
  obtain adopted padded where read: "read_adopted bs = Ok adopted" and fixed: "s = read_fixed padded adopted"
      and view: "vs_log_view s \<le> vs_view s"
      and valid: "\<forall>a. adopted = Some a \<longrightarrow> validate_adopted xxh3 a (vs_cluster s) (vs_view s) = Some (Ok ())"
    using assms by (auto simp: state_try_from_def rbind_eq_Ok not_less split: sum.splits option.splits if_splits)
  have "vs_adopted_view s = adopted"
    by (simp add: fixed)
  moreover have "av_view a \<le> vs_view s \<and> av_commit_max a \<le> av_op_head a \<and> length (av_headers a) \<le> DVC_HEADERS_MAX \<and>
       describes_log xxh3 (av_op_head a) \<lparr>sf_headers = av_headers a, sf_nack_bitset = 0, sf_present_bitset = 0\<rparr> \<and>
       list_all (\<lambda>h. dvc_header_kind h = Valid \<longrightarrow> fr_cluster h = vs_cluster s \<and> ph_group h = av_group a \<and>
         ph_partition_incarnation h = av_partition_incarnation a) (av_headers a)" if "adopted = Some a" for a
    using read valid that read_adopted_wf [of bs a] validate_adopted_Ok [of xxh3 a "vs_cluster s" "vs_view s"] by simp
  ultimately show ?thesis
    using view by blast
qed

section \<open>History recovery\<close>

lemma certificate_roundtrip:
  assumes "hc_view c \<noteq> - 1"
  shows "history_certificate (with_history_certificate (Some c) s) = Some c"
proof -
  define packed where "packed = (push_bit 32 (ucast (hc_view c + 1)) OR ucast (hc_checksum c) :: u64)"
  have high: "ucast (drop_bit 32 packed) = hc_view c + 1"
    unfolding packed_def by (rule bit_word_eqI) (auto simp: bit_simps dest: bit_imp_le_length)
  have low: "ucast packed = hc_checksum c"
    unfolding packed_def by (rule bit_word_eqI) (auto simp: bit_simps)
  have "checked_add (hc_view c) 1 = Some (hc_view c + 1)"
    using unat_add_one [OF assms] by (simp add: checked_add_def word_le_nat_alt)
  then have "with_history_certificate (Some c) s = s\<lparr>vs_offset_frontier := hc_op c, vs_offset_reserved := packed\<rparr>"
    by (simp add: with_history_certificate_def packed_def)
  moreover have "hc_view c + 1 \<noteq> 0"
    using unat_add_one [OF assms] by auto
  ultimately show ?thesis
    by (simp add: history_certificate_def Let_def high low)
qed

lemma retain_loop_vouched:
  assumes "retain_loop a hs from = r" and "sorted_wrt (\<lambda>h h'. ph_op h < ph_op h') hs" and "h \<in> set hs"
    and "\<And>op. r = Some op \<Longrightarrow> ph_op h < op"
  shows "vouches_for a h"
  using assms
proof (induction hs arbitrary: "from")
  case (Cons g hs)
  show ?case
  proof (cases "vouches_for a g")
    case True
    with Cons show ?thesis
      by auto
  next
    case False
    with Cons.prems have "ph_op h < ph_op g"
      by simp
    with Cons.prems(2,3) show ?thesis
      by auto
  qed
qed simp


section \<open>A sample record\<close>

definition sample_record :: VsrState where
  "sample_record =
     \<lparr>vs_cluster = 0, vs_replica_id = 1, vs_replica_count = 3, vs_view = 4, vs_log_view = 3, vs_commit_max = 1,
      vs_checkpoint_op = 0, vs_checkpoint_checksum = 0, vs_offset_frontier = 1,
      vs_offset_reserved = push_bit 32 4 OR 11,
      vs_adopted_view = Some \<lparr>av_view = 4, av_group = 0, av_partition_incarnation = 0, av_op_head = 2,
        av_commit_max = 1, av_headers = [sample_header 2 11 0]\<rparr>\<rparr>"

lemma sample_record_valid:
  "vs_log_view sample_record \<le> vs_view sample_record"
  "\<forall>a. vs_adopted_view sample_record = Some a \<longrightarrow> length (av_headers a) \<le> DVC_HEADERS_MAX \<and>
      list_all wf_PrepareHeader (av_headers a) \<and>
      validate_adopted (\<lambda>_. 0) a (vs_cluster sample_record) (vs_view sample_record) = Some (Ok ())"
proof -
  show "vs_log_view sample_record \<le> vs_view sample_record"
    by code_simp
  define a where "a = the (vs_adopted_view sample_record)"
  have "vs_adopted_view sample_record = Some a" "length (av_headers a) \<le> DVC_HEADERS_MAX"
      "list_all wf_PrepareHeader (av_headers a)"
      "validate_adopted (\<lambda>_. 0) a (vs_cluster sample_record) (vs_view sample_record) = Some (Ok ())"
    unfolding a_def by code_simp+
  then show "\<forall>a. vs_adopted_view sample_record = Some a \<longrightarrow> length (av_headers a) \<le> DVC_HEADERS_MAX \<and>
      list_all wf_PrepareHeader (av_headers a) \<and>
      validate_adopted (\<lambda>_. 0) a (vs_cluster sample_record) (vs_view sample_record) = Some (Ok ())"
    by simp
qed

theorem superblock_roundtrip_witness:
  "state_try_from (\<lambda>_. 0) (state_to_bytes sample_record) = Some (Ok sample_record)"
  by (rule superblock_roundtrip [OF sample_record_valid])

theorem superblock_accepts_witness:
  "vs_log_view (read_fixed (replicate 66 0 @ replicate 8 0) None) \<le> vs_view (read_fixed (replicate 66 0 @ replicate 8 0) None)"
proof -
  have "state_try_from (\<lambda>_. 0) (replicate 66 0) = Some (Ok (read_fixed (replicate 66 0 @ replicate 8 0) None))"
    by (simp add: state_try_from_def read_adopted_def padded_record_def field_def record_sizes)
      (simp add: read_fixed_def field_def)
  from superblock_accepts [OF this] show ?thesis
    by blast
qed

definition sample_evidence :: AdoptedView where
  "sample_evidence =
     \<lparr>av_view = 4, av_group = 0, av_partition_incarnation = 0, av_op_head = 2, av_commit_max = 1,
      av_headers = [sample_header 2 11 22]\<rparr>"


end
