(* ===== verification/Client_Table.thy ===== *)
theory Client_Table
  imports Wire_Message State_Manifest
begin

text \<open>
  The client table (\<open>src/core/consensus/src/client_table.rs\<close>): sessions with a fence epoch, the
  watermark of committed requests and the cached replies. The metadata plane registers sessions and
  keeps a ring of replies; a partition slice keeps a window of committed requests and one receipt.

  A reply is held as its header and the bytes behind it, the two parts of a parsed message. The
  hash index is an association list, which is only looked up, updated and counted. An outer
  \<open>None\<close> is a panic. The address of a newly allocated session handle is an argument of the operations
  that allocate one; \<open>blake3\<close> stands for the keyed hash of the bind verifier.
\<close>

section \<open>Replies, entries and the table\<close>

record CachedReply =
  cr_header :: ReplyHeader
  cr_rest :: bytes

definition as_bytes :: "CachedReply \<Rightarrow> bytes" where
  "as_bytes reply = put_ReplyHeader (cr_header reply) @ cr_rest reply"

definition byte_len :: "CachedReply \<Rightarrow> nat" where
  "byte_len reply = length (as_bytes reply)"

text \<open>A buffer that parsed as a reply message, as a cached reply.\<close>

definition cached_reply :: "bytes \<Rightarrow> CachedReply option" where
  "cached_reply bs =
     map_option (\<lambda>h. \<lparr>cr_header = h, cr_rest = drop HEADER_SIZE bs\<rparr>) (message_header reply_kind bs)"

definition REGISTER_REQUEST_ID :: u64 where "REGISTER_REQUEST_ID = 0"
definition RESERVED_CLIENT_ID :: u128 where "RESERVED_CLIENT_ID = 0"

definition is_partition_receipt_operation :: "Operation \<Rightarrow> bool" where
  "is_partition_receipt_operation operation \<longleftrightarrow>
     (case operation of
        OpSendMessages \<Rightarrow> True
      | OpStoreConsumerOffset \<Rightarrow> True
      | OpDeleteConsumerOffset \<Rightarrow> True
      | _ \<Rightarrow> False)"

definition BIND_SECRET_BYTES :: nat where "BIND_SECRET_BYTES = 32"

definition BIND_VERIFIER_CONTEXT :: string where
  "BIND_VERIFIER_CONTEXT = ''apache.iggy session bind verifier v1''"

definition bind_verifier :: "(string \<Rightarrow> bytes \<Rightarrow> bytes) \<Rightarrow> u128 \<Rightarrow> u32 \<Rightarrow> bytes \<Rightarrow> bytes" where
  "bind_verifier blake3 client_id user_id secret =
     blake3 BIND_VERIFIER_CONTEXT (to_le_bytes client_id @ to_le_bytes user_id @ secret)"

definition EXPIRED_SESSION_REQUEST_ID :: u64 where "EXPIRED_SESSION_REQUEST_ID = - 1"
definition CLIENTS_TABLE_SLOT_MAX :: nat where "CLIENTS_TABLE_SLOT_MAX = 65536"
definition REPLY_RING_CAPACITY :: nat where "REPLY_RING_CAPACITY = 5"
definition REPLY_RING_RETENTION_BYTES :: nat where "REPLY_RING_RETENTION_BYTES = 8 * 1024"
definition COMMITTED_WINDOW_BITS :: u64 where "COMMITTED_WINDOW_BITS = 128"

record ClientEntry =
  ce_bind_verifier :: bytes
  ce_ended_op :: "u64 option"
  ce_epoch :: u64
  ce_attachment :: "nat option"
  ce_user_id :: u32
  ce_watermark :: u64
  ce_committed_window :: u128
  ce_ring :: "CachedReply list"
  ce_client_id :: u128
  ce_latest_commit :: u64

record SessionAttachment =
  at_session :: nat
  at_user_id :: u32

record SessionIdentity =
  si_client_id :: u128
  si_session :: u64
  si_metadata_watermark :: u64

datatype RequestStatus =
    StatusNew
  | Duplicate CachedReply
  | AlreadyApplied u64 u64
  | OperationMismatch u64
  | NoSession
  | Fenced u64 u64
  | EpochAhead u64 u64

datatype SliceRequestStatus = SliceNew | SliceCommitted | SliceAgedOut

datatype CommitReply =
    Cached
  | SessionEnded u64
  | NoEntry
  | SkippedRegression u64 u64

datatype ClientTableMode = Metadata | PartitionSlice

definition cache_replies :: "ClientTableMode \<Rightarrow> bool" where
  "cache_replies mode \<longleftrightarrow> mode = Metadata"

definition fence_epoch :: "ClientTableMode \<Rightarrow> bool" where
  "fence_epoch mode \<longleftrightarrow> mode = Metadata"

definition preallocate_slots :: "ClientTableMode \<Rightarrow> bool" where
  "preallocate_slots mode \<longleftrightarrow> mode = Metadata"

record DedupWatermark =
  dw_client :: u128
  dw_user_id :: u32
  dw_watermark :: u64
  dw_latest_commit :: u64
  dw_committed_window :: u128
  dw_session :: u64
  dw_reply :: bytes

record ClientTable =
  ct_slots :: "ClientEntry option list"
  ct_index :: "(u128 \<times> nat) list"
  ct_clients_max :: nat
  ct_capacity_committed :: bool
  ct_mode :: ClientTableMode

text \<open>The errors of the table's wire form, and those of \<open>IggyError\<close> that binding returns.\<close>

datatype ClientTableWireError =
    WireTruncated
  | WireBadMagic
  | WireChecksumMismatch u64 u64
  | TooManyEntries u32 nat
  | InvalidReply
  | InvalidWatermark u128
  | InvalidCapacity nat
  | EmptyRing
  | WireDuplicateClientId nat u128
  | RingTooLong nat u8 nat

datatype IggyError = Unauthenticated | TransientNotAccepted | InvalidSession u64

section \<open>One entry\<close>

definition watermark_only :: "u128 \<Rightarrow> u32 \<Rightarrow> u64 \<Rightarrow> u128 \<Rightarrow> u64 \<Rightarrow> ClientEntry" where
  "watermark_only client_id user_id watermark committed_window commit_op =
     \<lparr>ce_bind_verifier = replicate 32 0, ce_ended_op = None, ce_epoch = 0, ce_attachment = None,
      ce_user_id = user_id, ce_watermark = watermark, ce_committed_window = committed_window OR 1,
      ce_ring = [], ce_client_id = client_id, ce_latest_commit = commit_op\<rparr>"

definition check_slice_request :: "ClientEntry \<Rightarrow> u64 \<Rightarrow> SliceRequestStatus" where
  "check_slice_request e request =
     (if request > ce_watermark e then SliceNew
      else
        let below = ce_watermark e - request in
        if below \<ge> COMMITTED_WINDOW_BITS then SliceAgedOut
        else if ce_committed_window e AND push_bit (unat below) 1 = 0 then SliceNew
        else SliceCommitted)"

text \<open>
  The validity of a metadata entry: the conditions on the latest receipt, then the loop over the
  ring with the request and commit of the previous receipt.
\<close>

definition ends_session :: "Operation \<Rightarrow> bool" where
  "ends_session operation \<longleftrightarrow>
     (case operation of OpLogout \<Rightarrow> True | OpUpdateUserResolved \<Rightarrow> True | OpDeleteUser \<Rightarrow> True | _ \<Rightarrow> False)"

definition valid_receipt :: "ClientEntry \<Rightarrow> (u64 \<times> u64) option \<Rightarrow> ReplyHeader \<Rightarrow> bool" where
  "valid_receipt e previous header \<longleftrightarrow>
     \<not> (rp_client header \<noteq> ce_client_id e \<or> rp_commit header < ce_epoch e \<or>
        rp_request header > ce_watermark e \<or>
        rp_request header = REGISTER_REQUEST_ID \<and>
          (rp_operation header \<noteq> OpRegister \<or> rp_commit header \<noteq> ce_epoch e) \<or>
        rp_request header \<noteq> REGISTER_REQUEST_ID \<and> rp_operation header = OpRegister \<or>
        (case previous of
           None \<Rightarrow> False
         | Some (request, commit) \<Rightarrow> rp_request header \<le> request \<or> rp_commit header \<le> commit))"

fun valid_ring :: "ClientEntry \<Rightarrow> (u64 \<times> u64) option \<Rightarrow> CachedReply list \<Rightarrow> bool" where
  "valid_ring e previous [] \<longleftrightarrow> True"
| "valid_ring e previous (receipt # ring) \<longleftrightarrow>
     valid_receipt e previous (cr_header receipt) \<and>
     valid_ring e (Some (rp_request (cr_header receipt), rp_commit (cr_header receipt))) ring"

definition valid_metadata_protection :: "ClientEntry \<Rightarrow> bool" where
  "valid_metadata_protection e \<longleftrightarrow>
     \<not> (ce_client_id e = 0 \<or> ce_epoch e = 0 \<or> ce_latest_commit e < ce_epoch e) \<and>
     (case last_opt (ce_ring e) of
        None \<Rightarrow> False
      | Some latest \<Rightarrow>
          let header = cr_header latest in
          \<not> (rp_request header \<noteq> ce_watermark e \<or> rp_commit header \<noteq> ce_latest_commit e \<or>
             (case ce_ended_op e of
                None \<Rightarrow> False
              | Some ended \<Rightarrow>
                  ended < ce_latest_commit e \<or>
                  ended = ce_latest_commit e \<and> \<not> ends_session (rp_operation header))) \<and>
          valid_ring e None (ce_ring e))"

definition latest_reply :: "ClientEntry \<Rightarrow> CachedReply option" where
  "latest_reply e = last_opt (ce_ring e)"

definition transferable_replies :: "ClientEntry \<Rightarrow> CachedReply list" where
  "transferable_replies e = drop (length (ce_ring e) - REPLY_RING_CAPACITY) (ce_ring e)"

definition find_cached :: "ClientEntry \<Rightarrow> u64 \<Rightarrow> CachedReply option" where
  "find_cached e request = find (\<lambda>cached. rp_request (cr_header cached) = request) (ce_ring e)"

text \<open>The loop of \<open>trim_ring\<close> with its running total; a shrinking ring ends it.\<close>

fun trim_loop :: "nat \<Rightarrow> CachedReply list \<Rightarrow> CachedReply list" where
  "trim_loop held [] = []"
| "trim_loop held (oldest # ring) =
     (if length (oldest # ring) > REPLY_RING_CAPACITY \<and> held > REPLY_RING_RETENTION_BYTES
      then trim_loop (held - byte_len oldest) ring
      else oldest # ring)"

definition trim_ring :: "ClientEntry \<Rightarrow> ClientEntry" where
  "trim_ring e = e\<lparr>ce_ring := trim_loop (sum_list (map byte_len (ce_ring e))) (ce_ring e)\<rparr>"

definition push_latest :: "CachedReply \<Rightarrow> ClientEntry \<Rightarrow> ClientEntry" where
  "push_latest cached e =
     trim_ring (e\<lparr>ce_latest_commit := rp_commit (cr_header cached), ce_ring := ce_ring e @ [cached]\<rparr>)"

section \<open>Lookups\<close>

definition with_mode :: "nat \<Rightarrow> ClientTableMode \<Rightarrow> ClientTable" where
  "with_mode max_clients mode =
     \<lparr>ct_slots = (if preallocate_slots mode then replicate max_clients None else []),
      ct_index = [], ct_clients_max = max_clients, ct_capacity_committed = False, ct_mode = mode\<rparr>"

definition table_new :: "nat \<Rightarrow> ClientTable" where
  "table_new max_clients = with_mode max_clients Metadata"

definition set_capacity :: "nat \<Rightarrow> ClientTable \<Rightarrow> ClientTable option" where
  "set_capacity max_clients t =
     (if ct_capacity_committed t then Some t
      else if ct_index t \<noteq> [] then None
      else Some (with_mode max_clients (ct_mode t)))"

definition contains :: "ClientTable \<Rightarrow> u128 \<Rightarrow> bool" where
  "contains t client_id \<longleftrightarrow> map_of (ct_index t) client_id \<noteq> None"

definition count :: "ClientTable \<Rightarrow> nat" where
  "count t = length (ct_index t)"

definition capacity :: "ClientTable \<Rightarrow> nat" where
  "capacity t = ct_clients_max t"

text \<open>
  The slot the index names, as the getters read it: \<open>Some None\<close> for an unknown client or an empty
  slot, \<open>None\<close> for the panic of an index past the slots.
\<close>

definition entry_of :: "ClientTable \<Rightarrow> u128 \<Rightarrow> ClientEntry option option" where
  "entry_of t client_id =
     (case map_of (ct_index t) client_id of None \<Rightarrow> Some None | Some slot \<Rightarrow> get_at (ct_slots t) slot)"

definition user_id_for_session :: "ClientTable \<Rightarrow> u128 \<Rightarrow> u64 \<Rightarrow> u32 option option" where
  "user_id_for_session t client_id session =
     map_option (\<lambda>slot. case slot of
         None \<Rightarrow> None
       | Some e \<Rightarrow> if ce_epoch e = session then Some (ce_user_id e) else None)
       (entry_of t client_id)"

text \<open>\<open>None\<close> is the panic of \<open>latest\<close> on an empty ring.\<close>

definition get_reply :: "ClientTable \<Rightarrow> u128 \<Rightarrow> CachedReply option option" where
  "get_reply t client_id =
     (case entry_of t client_id of
        None \<Rightarrow> None
      | Some None \<Rightarrow> Some None
      | Some (Some e) \<Rightarrow> map_option Some (latest_reply e))"

definition get_epoch :: "ClientTable \<Rightarrow> u128 \<Rightarrow> u64 option option" where
  "get_epoch t client_id =
     map_option (\<lambda>slot. case slot of
         None \<Rightarrow> None
       | Some e \<Rightarrow> if ce_ended_op e = None then Some (ce_epoch e) else None)
       (entry_of t client_id)"

definition get_watermark :: "ClientTable \<Rightarrow> u128 \<Rightarrow> u64 option option" where
  "get_watermark t client_id = map_option (map_option ce_watermark) (entry_of t client_id)"

definition get_user_id :: "ClientTable \<Rightarrow> u128 \<Rightarrow> u32 option option" where
  "get_user_id t client_id = map_option (map_option ce_user_id) (entry_of t client_id)"

definition occupied :: "ClientTable \<Rightarrow> ClientEntry list" where
  "occupied t = List.map_filter id (ct_slots t)"

definition client_ids :: "ClientTable \<Rightarrow> u128 list" where
  "client_ids t = map ce_client_id (occupied t)"

definition active_sessions :: "ClientTable \<Rightarrow> (u128 \<times> u32 \<times> u64) list" where
  "active_sessions t =
     map (\<lambda>e. (ce_client_id e, ce_user_id e, ce_epoch e))
       (filter (\<lambda>e. ce_ended_op e = None) (occupied t))"

definition session_identity :: "ClientEntry \<Rightarrow> u64 \<Rightarrow> SessionIdentity" where
  "session_identity e ended_op =
     \<lparr>si_client_id = ce_client_id e, si_session = ce_epoch e, si_metadata_watermark = ended_op\<rparr>"

definition ended_sessions :: "ClientTable \<Rightarrow> SessionIdentity list" where
  "ended_sessions t =
     List.map_filter (\<lambda>e. map_option (session_identity e) (ce_ended_op e)) (occupied t)"

text \<open>An entry the index points to: the lookup that expects an occupied slot.\<close>

definition slot_entry :: "ClientTable \<Rightarrow> nat \<Rightarrow> ClientEntry option" where
  "slot_entry t slot = (case get_at (ct_slots t) slot of Some (Some e) \<Rightarrow> Some e | _ \<Rightarrow> None)"

definition put_entry :: "nat \<Rightarrow> ClientEntry \<Rightarrow> ClientTable \<Rightarrow> ClientTable" where
  "put_entry slot e t = t\<lparr>ct_slots := (ct_slots t)[slot := Some e]\<rparr>"

section \<open>Binding a session\<close>

definition registered_session ::
    "ClientTable \<Rightarrow> u128 \<Rightarrow> u32 \<Rightarrow> bytes \<Rightarrow> (IggyError + u64 option) option" where
  "registered_session t client_id user_id verifier =
     (case map_of (ct_index t) client_id of
        None \<Rightarrow> Some (Ok None)
      | Some slot \<Rightarrow>
          (case slot_entry t slot of
             None \<Rightarrow> None
           | Some e \<Rightarrow>
               if ce_user_id e \<noteq> user_id \<or> ce_ended_op e \<noteq> None \<or> ce_bind_verifier e \<noteq> verifier
               then Some (Err Unauthenticated)
               else Some (Ok (Some (ce_epoch e)))))"

definition attach_session ::
    "nat \<Rightarrow> u128 \<Rightarrow> u64 \<Rightarrow> u32 \<Rightarrow> ClientTable \<Rightarrow> (ClientTable \<times> SessionAttachment option) option" where
  "attach_session address client_id session user_id t =
     (case map_of (ct_index t) client_id of
        None \<Rightarrow> Some (t, None)
      | Some slot \<Rightarrow>
          (case get_at (ct_slots t) slot of
             None \<Rightarrow> None
           | Some None \<Rightarrow> Some (t, None)
           | Some (Some e) \<Rightarrow>
               if ce_epoch e \<noteq> session \<or> ce_user_id e \<noteq> user_id \<or> session = 0 \<or> ce_ended_op e \<noteq> None
               then Some (t, None)
               else
                 let attachment = (case ce_attachment e of None \<Rightarrow> address | Some held \<Rightarrow> held)
                 in Some (put_entry slot (e\<lparr>ce_attachment := Some attachment\<rparr>) t,
                          Some \<lparr>at_session = attachment, at_user_id = user_id\<rparr>)))"

text \<open>A weak handle is alive while some entry still holds the session it points to.\<close>

definition attachment_is_valid :: "ClientTable \<Rightarrow> SessionAttachment \<Rightarrow> bool" where
  "attachment_is_valid t a \<longleftrightarrow> list_ex (\<lambda>e. ce_attachment e = Some (at_session a)) (occupied t)"

definition bind_session ::
    "(string \<Rightarrow> bytes \<Rightarrow> bytes) \<Rightarrow> nat \<Rightarrow> u128 \<Rightarrow> u64 \<Rightarrow> bytes \<Rightarrow> ClientTable \<Rightarrow>
     (ClientTable \<times> (IggyError + u32 \<times> u64 \<times> SessionAttachment)) option" where
  "bind_session blake3 address client_id session secret t =
     (let missing = (if session = 0 then TransientNotAccepted else Unauthenticated) in
      case get_user_id t client_id of
        None \<Rightarrow> None
      | Some None \<Rightarrow> Some (t, Err missing)
      | Some (Some user_id) \<Rightarrow>
          (case registered_session t client_id user_id (bind_verifier blake3 client_id user_id secret) of
             None \<Rightarrow> None
           | Some (Inl e) \<Rightarrow> Some (t, Err e)
           | Some (Inr None) \<Rightarrow> Some (t, Err Unauthenticated)
           | Some (Inr (Some epoch)) \<Rightarrow>
               if session \<noteq> 0 \<and> session \<noteq> epoch then Some (t, Err (InvalidSession session))
               else
                 (case attach_session address client_id epoch user_id t of
                    None \<Rightarrow> None
                  | Some (t', None) \<Rightarrow> Some (t', Err Unauthenticated)
                  | Some (t', Some attachment) \<Rightarrow> Some (t', Ok (user_id, epoch, attachment)))))"

section \<open>Ending a session\<close>

definition end_entry :: "u64 \<Rightarrow> ClientEntry \<Rightarrow> ClientEntry" where
  "end_entry ended_op e = e\<lparr>ce_ended_op := Some ended_op, ce_attachment := None\<rparr>"

definition end_session ::
    "u128 \<Rightarrow> u32 \<Rightarrow> u64 \<Rightarrow> u64 \<Rightarrow> ClientTable \<Rightarrow> (ClientTable \<times> bool) option" where
  "end_session client_id user_id session ended_op t =
     (case map_of (ct_index t) client_id of
        None \<Rightarrow> Some (t, False)
      | Some slot \<Rightarrow>
          (case get_at (ct_slots t) slot of
             None \<Rightarrow> None
           | Some None \<Rightarrow> Some (t, False)
           | Some (Some e) \<Rightarrow>
               if ce_user_id e = user_id \<and> ce_epoch e = session \<and> ce_ended_op e = None
               then Some (put_entry slot (end_entry ended_op e) t, True)
               else Some (t, False)))"

definition end_user_sessions :: "u32 \<Rightarrow> u64 \<Rightarrow> ClientTable \<Rightarrow> ClientTable \<times> SessionIdentity list" where
  "end_user_sessions user_id ended_op t =
     (let ends = (\<lambda>e. ce_user_id e = user_id \<and> ce_ended_op e = None) in
      (t\<lparr>ct_slots := map (map_option (\<lambda>e. if ends e then end_entry ended_op e else e)) (ct_slots t)\<rparr>,
       map (\<lambda>e. session_identity e ended_op) (filter ends (occupied t))))"

definition forget_session :: "u128 \<Rightarrow> u64 \<Rightarrow> ClientTable \<Rightarrow> (ClientTable \<times> bool) option" where
  "forget_session client_id session t =
     (case map_of (ct_index t) client_id of
        None \<Rightarrow> Some (t, False)
      | Some slot \<Rightarrow>
          (case get_at (ct_slots t) slot of
             None \<Rightarrow> None
           | Some held \<Rightarrow>
               if (case held of None \<Rightarrow> True | Some e \<Rightarrow> ce_epoch e \<noteq> session) then Some (t, False)
               else Some (t\<lparr>ct_index := AList.delete client_id (ct_index t),
                            ct_slots := (ct_slots t)[slot := None]\<rparr>, True)))"

definition finalize_session :: "SessionIdentity \<Rightarrow> ClientTable \<Rightarrow> (ClientTable \<times> bool) option" where
  "finalize_session identity t =
     (if \<not> list_ex (\<lambda>ended. ended = identity) (ended_sessions t) then Some (t, False)
      else forget_session (si_client_id identity) (si_session identity) t)"

definition resize_slots :: "nat \<Rightarrow> ClientEntry option list \<Rightarrow> ClientEntry option list" where
  "resize_slots n slots = take n slots @ replicate (n - length slots) None"

definition commit_capacity :: "nat \<Rightarrow> ClientTable \<Rightarrow> ClientTableWireError + ClientTable" where
  "commit_capacity cap t =
     (if cap = 0 \<or> cap > CLIENTS_TABLE_SLOT_MAX \<or> count t > cap \<or>
         ct_capacity_committed t \<and> ct_clients_max t \<noteq> cap
      then Err (InvalidCapacity cap)
      else Ok (t\<lparr>ct_clients_max := cap,
                 ct_slots := (if preallocate_slots (ct_mode t) then resize_slots cap (ct_slots t)
                              else ct_slots t),
                 ct_capacity_committed := True\<rparr>))"

section \<open>The metadata plane\<close>

definition check_request ::
    "ClientTable \<Rightarrow> u128 \<Rightarrow> u64 \<Rightarrow> u64 \<Rightarrow> Operation \<Rightarrow> RequestStatus option" where
  "check_request t client_id epoch request operation =
     (if client_id = RESERVED_CLIENT_ID then None
      else case map_of (ct_index t) client_id of
        None \<Rightarrow> Some NoSession
      | Some slot \<Rightarrow>
          map_option (\<lambda>e.
            if ce_ended_op e \<noteq> None then
              (case find_cached e request of
                 Some cached \<Rightarrow>
                   if epoch = ce_epoch e \<and> rp_operation (cr_header cached) = OpLogout then
                     (if request_operation (rp_operation (cr_header cached)) = request_operation operation
                      then Duplicate cached else OperationMismatch request)
                   else NoSession
               | None \<Rightarrow> NoSession)
            else if fence_epoch (ct_mode t) \<and> epoch < ce_epoch e then Fenced (ce_epoch e) epoch
            else if fence_epoch (ct_mode t) \<and> epoch > ce_epoch e then EpochAhead (ce_epoch e) epoch
            else if request > ce_watermark e then StatusNew
            else case find_cached e request of
              Some cached \<Rightarrow>
                if request_operation (rp_operation (cr_header cached)) \<noteq> request_operation operation
                then OperationMismatch request else Duplicate cached
            | None \<Rightarrow> AlreadyApplied request (ce_watermark e))
            (slot_entry t slot))"

definition first_free_slot :: "ClientTable \<Rightarrow> ClientTable \<times> nat option" where
  "first_free_slot t =
     (case (if length (ct_index t) < length (ct_slots t) then position (\<lambda>s. s = None) (ct_slots t)
            else None) of
        Some slot \<Rightarrow> (t, Some slot)
      | None \<Rightarrow>
          if length (ct_slots t) < ct_clients_max t
          then (t\<lparr>ct_slots := ct_slots t @ [None]\<rparr>, Some (length (ct_slots t)))
          else (t, None))"

definition registered_entry :: "u128 \<Rightarrow> u32 \<Rightarrow> bytes \<Rightarrow> CachedReply \<Rightarrow> ClientEntry" where
  "registered_entry client_id user_id verifier reply =
     \<lparr>ce_bind_verifier = verifier, ce_ended_op = None, ce_epoch = rp_commit (cr_header reply),
      ce_attachment = None, ce_user_id = user_id, ce_watermark = REGISTER_REQUEST_ID,
      ce_committed_window = 0, ce_ring = [reply], ce_client_id = client_id,
      ce_latest_commit = rp_commit (cr_header reply)\<rparr>"

definition commit_register ::
    "u128 \<Rightarrow> u32 \<Rightarrow> bytes \<Rightarrow> CachedReply \<Rightarrow> ClientTable \<Rightarrow>
     (ClientTable \<times> (ClientTableWireError + unit)) option" where
  "commit_register client_id user_id verifier reply t =
     (let header = cr_header reply in
      if client_id = 0 \<or> client_id \<noteq> rp_client header \<or> rp_commit header = 0 \<or>
         rp_request header \<noteq> REGISTER_REQUEST_ID \<or> rp_operation header \<noteq> OpRegister
      then Some (t, Err InvalidReply)
      else case map_of (ct_index t) client_id of
        Some slot \<Rightarrow>
          (case get_at (ct_slots t) slot of
             None \<Rightarrow> None
           | Some None \<Rightarrow> Some (t, Err (InvalidWatermark client_id))
           | Some (Some e) \<Rightarrow>
               if ce_user_id e = user_id \<and> ce_bind_verifier e = verifier \<and> ce_ended_op e = None
               then Some (t, Ok ())
               else Some (t, Err (InvalidWatermark client_id)))
      | None \<Rightarrow>
          if length (ct_index t) \<ge> ct_clients_max t
          then Some (t, Err (TooManyEntries (saturate_u32 (count t + 1)) (ct_clients_max t)))
          else
            (case first_free_slot t of
               (t', None) \<Rightarrow> Some (t', Err (InvalidCapacity (ct_clients_max t')))
             | (t', Some slot) \<Rightarrow>
                 Some ((put_entry slot (registered_entry client_id user_id verifier reply) t')
                         \<lparr>ct_index := AList.update client_id slot (ct_index t')\<rparr>, Ok ())))"

text \<open>
  Storing a committed reply in its entry: a request committed again replaces its reply in place, a
  newer one is pushed.
\<close>

definition replace_reply :: "CachedReply \<Rightarrow> ClientEntry \<Rightarrow> ClientEntry option" where
  "replace_reply cached e =
     map_option (\<lambda>i. e\<lparr>ce_ring := (ce_ring e)[i := cached],
                      ce_latest_commit := rp_commit (cr_header (last ((ce_ring e)[i := cached])))\<rparr>)
       (position (\<lambda>stored. rp_request (cr_header stored) = rp_request (cr_header cached)) (ce_ring e))"

definition store_reply :: "CachedReply \<Rightarrow> ClientEntry \<Rightarrow> ClientEntry" where
  "store_reply cached e =
     (if rp_request (cr_header cached) = ce_watermark e then
        (case replace_reply cached e of Some e' \<Rightarrow> e' | None \<Rightarrow> push_latest cached e)
      else (push_latest cached e)\<lparr>ce_watermark := rp_request (cr_header cached)\<rparr>)"

definition commit_reply ::
    "u128 \<Rightarrow> u32 \<Rightarrow> CachedReply \<Rightarrow> ClientTable \<Rightarrow> (ClientTable \<times> CommitReply) option" where
  "commit_reply client_id user_id reply t =
     (let new_request = rp_request (cr_header reply);
          new_commit = rp_commit (cr_header reply)
      in
      if client_id \<noteq> rp_client (cr_header reply) then None
      else if client_id = RESERVED_CLIENT_ID then Some (t, NoEntry)
      else case map_of (ct_index t) client_id of
        None \<Rightarrow> Some (t, NoEntry)
      | Some slot \<Rightarrow>
          map_option (\<lambda>e.
            if ce_user_id e \<noteq> user_id then (t, NoEntry)
            else if new_commit < ce_latest_commit e
              then (t, SkippedRegression (ce_latest_commit e) new_commit)
            else if new_request < ce_watermark e
              then (t, SkippedRegression (ce_watermark e) new_request)
            else case (case ce_ended_op e of None \<Rightarrow> None
                       | Some ended_op \<Rightarrow> if new_commit > ended_op then Some ended_op else None) of
              Some ended_op \<Rightarrow> (t, SessionEnded ended_op)
            | None \<Rightarrow> (put_entry slot (store_reply reply e) t, Cached))
            (slot_entry t slot))"

definition commit_logout ::
    "u128 \<Rightarrow> u32 \<Rightarrow> u64 \<Rightarrow> CachedReply \<Rightarrow> ClientTable \<Rightarrow>
     (ClientTable \<times> (ClientTableWireError + bool)) option" where
  "commit_logout client_id user_id session reply t =
     (case map_of (ct_index t) client_id of
        None \<Rightarrow> Some (t, Ok False)
      | Some slot \<Rightarrow>
          (case slot_entry t slot of
             None \<Rightarrow> None
           | Some e \<Rightarrow>
               if ce_epoch e \<noteq> session \<or> ce_user_id e \<noteq> user_id \<or> ce_ended_op e \<noteq> None \<or>
                  rp_request (cr_header reply) \<le> ce_watermark e \<and>
                  rp_request (cr_header reply) \<noteq> EXPIRED_SESSION_REQUEST_ID
               then Some (t, Ok False)
               else
                 (case commit_reply client_id user_id reply t of
                    None \<Rightarrow> None
                  | Some (t', result) \<Rightarrow>
                      if result \<noteq> Cached then Some (t', Err (InvalidWatermark client_id))
                      else
                        map_option (\<lambda>(t'', ended). (t'', Ok ended))
                          (end_session client_id user_id session (rp_commit (cr_header reply)) t'))))"

section \<open>The partition plane\<close>

definition check_partition_request ::
    "ClientTable \<Rightarrow> u128 \<Rightarrow> u32 \<Rightarrow> u64 \<Rightarrow> u64 \<Rightarrow> Operation \<Rightarrow> RequestStatus option" where
  "check_partition_request t client_id user_id session request operation =
     (case map_of (ct_index t) client_id of
        None \<Rightarrow> Some StatusNew
      | Some slot \<Rightarrow>
          map_option (\<lambda>e.
            if ce_user_id e \<noteq> user_id \<or> ce_epoch e \<noteq> session then Fenced (ce_epoch e) session
            else case check_slice_request e request of
              SliceNew \<Rightarrow> StatusNew
            | SliceCommitted \<Rightarrow>
                (case find_cached e request of
                   Some reply \<Rightarrow>
                     if rp_operation (cr_header reply) \<noteq> operation then OperationMismatch request
                     else Duplicate reply
                 | None \<Rightarrow> AlreadyApplied request (ce_watermark e))
            | SliceAgedOut \<Rightarrow> AlreadyApplied request (ce_watermark e))
            (slot_entry t slot))"

text \<open>Folding a committed request into the window of its entry.\<close>

definition fold_request :: "u64 \<Rightarrow> u64 \<Rightarrow> ClientEntry \<Rightarrow> ClientEntry" where
  "fold_request request commit_op e =
     (if request > ce_watermark e then
        let gap = request - ce_watermark e in
        e\<lparr>ce_committed_window :=
            (if gap \<ge> COMMITTED_WINDOW_BITS then 1
             else push_bit (unat gap) (ce_committed_window e) OR 1),
          ce_watermark := request, ce_latest_commit := commit_op\<rparr>
      else
        let below = ce_watermark e - request in
        if below < COMMITTED_WINDOW_BITS \<and> ce_committed_window e AND push_bit (unat below) 1 = 0
        then e\<lparr>ce_committed_window := ce_committed_window e OR push_bit (unat below) 1,
               ce_latest_commit := max (ce_latest_commit e) commit_op\<rparr>
        else e)"

definition commit_request ::
    "u128 \<Rightarrow> u32 \<Rightarrow> u64 \<Rightarrow> u64 \<Rightarrow> ClientTable \<Rightarrow>
     (ClientTable \<times> (ClientTableWireError + unit)) option" where
  "commit_request client_id user_id request commit_op t =
     (if client_id = 0 then Some (t, Err (InvalidWatermark client_id))
      else case map_of (ct_index t) client_id of
        Some slot \<Rightarrow>
          map_option (\<lambda>e.
            if ce_user_id e \<noteq> user_id then (t, Err (InvalidWatermark client_id))
            else (put_entry slot (fold_request request commit_op e) t, Ok ()))
            (slot_entry t slot)
      | None \<Rightarrow>
          if length (ct_index t) \<ge> ct_clients_max t
          then Some (t, Err (TooManyEntries (saturate_u32 (length (ct_index t) + 1)) (ct_clients_max t)))
          else
            (case first_free_slot t of
               (t', None) \<Rightarrow> Some (t', Err (InvalidCapacity (ct_clients_max t')))
             | (t', Some slot) \<Rightarrow>
                 Some (put_entry slot (watermark_only client_id user_id request 1 commit_op)
                         (t'\<lparr>ct_index := AList.update client_id slot (ct_index t')\<rparr>), Ok ())))"

text \<open>The receipt of a partition write: the first result of a request is kept and returned.\<close>

definition retain_receipt :: "u64 \<Rightarrow> CachedReply \<Rightarrow> ClientEntry \<Rightarrow> ClientEntry \<times> CachedReply" where
  "retain_receipt session reply e =
     (let header = cr_header reply; e = e\<lparr>ce_epoch := session\<rparr> in
      case find_cached e (rp_request header) of
        Some cached \<Rightarrow> (e, cached)
      | None \<Rightarrow>
          (case last_opt (ce_ring e) of
             Some pinned \<Rightarrow>
               if rp_request header < ce_watermark e
               then (e\<lparr>ce_latest_commit := rp_commit (cr_header pinned)\<rparr>, reply)
               else (e\<lparr>ce_latest_commit := rp_commit header, ce_ring := [reply]\<rparr>, reply)
           | None \<Rightarrow> (e\<lparr>ce_latest_commit := rp_commit header, ce_ring := [reply]\<rparr>, reply)))"

definition commit_partition_reply ::
    "u32 \<Rightarrow> u64 \<Rightarrow> CachedReply \<Rightarrow> ClientTable \<Rightarrow>
     (ClientTable \<times> (ClientTableWireError + CachedReply)) option" where
  "commit_partition_reply user_id session reply t =
     (let header = cr_header reply in
      if rp_client header = 0 \<or> session = 0 \<or> rp_commit header = 0 \<or>
         \<not> is_partition_receipt_operation (rp_operation header)
      then Some (t, Err InvalidReply)
      else case (case map_of (ct_index t) (rp_client header) of
                   None \<Rightarrow> Some False
                 | Some slot \<Rightarrow>
                     map_option (\<lambda>held. case held of None \<Rightarrow> False | Some e \<Rightarrow> ce_epoch e \<noteq> session)
                       (get_at (ct_slots t) slot)) of
        None \<Rightarrow> None
      | Some True \<Rightarrow> Some (t, Err (InvalidWatermark (rp_client header)))
      | Some False \<Rightarrow>
          (case commit_request (rp_client header) user_id (rp_request header) (rp_commit header) t of
             None \<Rightarrow> None
           | Some (t', Inl e) \<Rightarrow> Some (t', Err e)
           | Some (t', Inr _) \<Rightarrow>
               (case map_of (ct_index t') (rp_client header) of
                  None \<Rightarrow> None
                | Some slot \<Rightarrow>
                    map_option (\<lambda>e.
                      let (e', receipt) = retain_receipt session reply e
                      in (put_entry slot e' t', Ok receipt))
                      (slot_entry t' slot))))"

text \<open>Installing the entries of a checkpoint or a transfer; the loop body, then the loop.\<close>

definition install_entry ::
    "(bytes \<Rightarrow> u64) \<Rightarrow> nat \<Rightarrow> DedupWatermark \<Rightarrow> ClientTable \<Rightarrow>
     (ClientTableWireError + ClientTable) option" where
  "install_entry xxh3 cap d t =
     (let slot = length (ct_slots t) in
      if slot \<ge> cap then Some (Err (TooManyEntries (saturate_u32 (slot + 1)) cap))
      else if dw_client d = 0 \<or> dw_session d = 0 \<or> dw_committed_window d AND 1 = 0
        then Some (Err (InvalidWatermark (dw_client d)))
      else if map_of (ct_index t) (dw_client d) \<noteq> None
        then Some (Err (WireDuplicateClientId slot (dw_client d)))
      else if dw_reply d = [] then Some (Err EmptyRing)
      else case message_try_from xxh3 reply_kind (dw_reply d) of
        Inl _ \<Rightarrow> Some (Err InvalidReply)
      | Inr bs \<Rightarrow>
          map_option (\<lambda>reply.
            let header = cr_header reply in
            if rp_client header \<noteq> dw_client d \<or> rp_request header > dw_watermark d \<or>
               dw_watermark d - rp_request header \<ge> COMMITTED_WINDOW_BITS \<or>
               dw_committed_window d AND push_bit (unat (dw_watermark d - rp_request header)) 1 = 0 \<or>
               rp_commit header \<noteq> dw_latest_commit d \<or> rp_commit header = 0 \<or>
               unat (fr_size header) \<noteq> length (dw_reply d) \<or>
               \<not> is_partition_receipt_operation (rp_operation header)
            then Err InvalidReply
            else
              Ok (t\<lparr>ct_index := AList.update (dw_client d) slot (ct_index t),
                    ct_slots := ct_slots t @
                      [Some ((watermark_only (dw_client d) (dw_user_id d) (dw_watermark d)
                                (dw_committed_window d) (dw_latest_commit d))
                               \<lparr>ce_epoch := dw_session d, ce_ring := [reply]\<rparr>)]\<rparr>))
            (cached_reply bs))"

fun install_entries ::
    "(bytes \<Rightarrow> u64) \<Rightarrow> nat \<Rightarrow> DedupWatermark list \<Rightarrow> ClientTable \<Rightarrow>
     (ClientTableWireError + ClientTable) option" where
  "install_entries xxh3 cap [] t = Some (Ok t)"
| "install_entries xxh3 cap (d # ds) t =
     (case install_entry xxh3 cap d t of
        None \<Rightarrow> None
      | Some (Inl e) \<Rightarrow> Some (Err e)
      | Some (Inr t') \<Rightarrow> install_entries xxh3 cap ds t')"

definition install_watermarks ::
    "(bytes \<Rightarrow> u64) \<Rightarrow> nat \<Rightarrow> DedupWatermark list \<Rightarrow> ClientTable \<Rightarrow>
     (ClientTable \<times> (ClientTableWireError + unit)) option" where
  "install_watermarks xxh3 cap entries t =
     (case commit_capacity cap (with_mode cap (ct_mode t)) of
        Inl e \<Rightarrow> Some (t, Err e)
      | Inr replacement \<Rightarrow>
          (case install_entries xxh3 cap entries replacement of
             None \<Rightarrow> None
           | Some (Inl e) \<Rightarrow> Some (t, Err e)
           | Some (Inr t') \<Rightarrow> Some (t', Ok ())))"

definition watermark_of :: "ClientEntry \<Rightarrow> DedupWatermark" where
  "watermark_of e =
     \<lparr>dw_client = ce_client_id e, dw_user_id = ce_user_id e, dw_watermark = ce_watermark e,
      dw_latest_commit = ce_latest_commit e, dw_committed_window = ce_committed_window e,
      dw_session = ce_epoch e,
      dw_reply = (case last_opt (ce_ring e) of None \<Rightarrow> [] | Some reply \<Rightarrow> as_bytes reply)\<rparr>"

definition watermarks_sorted :: "ClientTable \<Rightarrow> DedupWatermark list" where
  "watermarks_sorted t = sort_key dw_client (map watermark_of (occupied t))"

end
