(* ===== verification/Client_Table_Inv.thy ===== *)
theory Client_Table_Inv
  imports Client_Table
begin

text \<open>
  The client table as a map from clients to sessions. The slot array and the hash index agree, and
  every operation of the table acts on the map of sessions they represent. On top of that map: the
  protection of every session stays valid, and a committed request is never reported as new again.
\<close>

section \<open>The slots and the index\<close>

definition table_wf :: "ClientTable \<Rightarrow> bool" where
  "table_wf t \<longleftrightarrow>
     distinct (map fst (ct_index t)) \<and>
     (\<forall>c slot. map_of (ct_index t) c = Some slot \<longleftrightarrow>
        (\<exists>e. slot < length (ct_slots t) \<and> ct_slots t ! slot = Some e \<and> ce_client_id e = c)) \<and>
     length (ct_slots t) \<le> ct_clients_max t \<and>
     (ct_mode t = Metadata \<longrightarrow> length (ct_slots t) = ct_clients_max t)"

definition sessions :: "ClientTable \<Rightarrow> u128 \<rightharpoonup> ClientEntry" where
  "sessions t client_id = Option.bind (map_of (ct_index t) client_id) (slot_entry t)"

lemma slot_entry_eq_Some: "slot_entry t slot = Some e \<longleftrightarrow> slot < length (ct_slots t) \<and> ct_slots t ! slot = Some e"
  by (auto simp: slot_entry_def get_at_def split: option.splits)

lemma in_occupied: "e \<in> set (occupied t) \<longleftrightarrow> (\<exists>slot < length (ct_slots t). ct_slots t ! slot = Some e)"
proof -
  have "e \<in> set (occupied t) \<longleftrightarrow> Some e \<in> set (ct_slots t)"
    by (force simp: occupied_def map_filter_def)
  then show ?thesis
    by (simp add: in_set_conv_nth)
qed

lemma index_iff:
  "table_wf t \<Longrightarrow> map_of (ct_index t) c = Some slot \<longleftrightarrow>
     (\<exists>e. slot < length (ct_slots t) \<and> ct_slots t ! slot = Some e \<and> ce_client_id e = c)"
  by (simp add: table_wf_def)

lemma table_wfI:
  assumes "distinct (map fst (ct_index t))"
    and "\<And>c slot. map_of (ct_index t) c = Some slot \<longleftrightarrow>
        (\<exists>e. slot < length (ct_slots t) \<and> ct_slots t ! slot = Some e \<and> ce_client_id e = c)"
    and "length (ct_slots t) \<le> ct_clients_max t"
    and "ct_mode t = Metadata \<Longrightarrow> length (ct_slots t) = ct_clients_max t"
  shows "table_wf t"
  unfolding table_wf_def using assms by blast

lemma table_wfD:
  assumes "table_wf t"
  shows "distinct (map fst (ct_index t))" and "length (ct_slots t) \<le> ct_clients_max t"
    and "ct_mode t = Metadata \<Longrightarrow> length (ct_slots t) = ct_clients_max t"
  using assms by (simp_all add: table_wf_def)

lemma slot_index:
  "table_wf t \<Longrightarrow> slot < length (ct_slots t) \<Longrightarrow> ct_slots t ! slot = Some e \<Longrightarrow>
     map_of (ct_index t) (ce_client_id e) = Some slot"
  using index_iff [of t "ce_client_id e" slot] by simp

lemma index_slot:
  assumes "table_wf t" and "map_of (ct_index t) c = Some slot"
  obtains e where "slot_entry t slot = Some e" "get_at (ct_slots t) slot = Some (Some e)"
    "slot < length (ct_slots t)" "sessions t c = Some e" "ce_client_id e = c"
proof -
  from index_iff [OF assms(1), of c slot] assms(2)
  obtain e where e: "slot < length (ct_slots t)" "ct_slots t ! slot = Some e" "ce_client_id e = c"
    by blast
  show thesis
  proof (rule that [of e])
    show "sessions t c = Some e"
      using e assms(2) by (simp add: sessions_def slot_entry_eq_Some)
  qed (use e in \<open>simp_all add: slot_entry_eq_Some get_at_def\<close>)
qed

lemma sessions_None:
  assumes "table_wf t"
  shows "sessions t c = None \<longleftrightarrow> map_of (ct_index t) c = None"
proof (cases "map_of (ct_index t) c")
  case (Some slot)
  from index_slot [OF assms Some] show ?thesis
    using Some by (metis option.distinct(1))
qed (simp add: sessions_def)

lemma sessions_iff:
  assumes "table_wf t"
  shows "sessions t c = Some e \<longleftrightarrow> e \<in> set (occupied t) \<and> ce_client_id e = c"
proof
  assume "sessions t c = Some e"
  then obtain slot where "map_of (ct_index t) c = Some slot" "slot_entry t slot = Some e"
    by (auto simp: sessions_def bind_eq_Some_conv)
  then show "e \<in> set (occupied t) \<and> ce_client_id e = c"
    using index_iff [OF assms, of c slot] by (auto simp: in_occupied slot_entry_eq_Some)
next
  assume "e \<in> set (occupied t) \<and> ce_client_id e = c"
  then obtain slot where "slot < length (ct_slots t)" "ct_slots t ! slot = Some e" "ce_client_id e = c"
    by (auto simp: in_occupied)
  with index_iff [OF assms, of c slot] show "sessions t c = Some e"
    by (auto simp: sessions_def slot_entry_eq_Some)
qed

text \<open>The number of index entries is the number of occupied slots.\<close>

lemma count_occupied:
  assumes wf: "table_wf t"
  shows "length (ct_index t) = card {slot. slot < length (ct_slots t) \<and> ct_slots t ! slot \<noteq> None}"
proof -
  let ?f = "\<lambda>c. the (map_of (ct_index t) c)"
  have "length (ct_index t) = card (dom (map_of (ct_index t)))"
    using wf unfolding table_wf_def
    by (metis distinct_card dom_map_of_conv_image_fst length_map list.set_map)
  also have "\<dots> = card (?f ` dom (map_of (ct_index t)))"
    by (rule card_image [symmetric], rule inj_onI) (use index_iff [OF wf] in force)
  also have "?f ` dom (map_of (ct_index t)) = {slot. slot < length (ct_slots t) \<and> ct_slots t ! slot \<noteq> None}"
  proof (intro set_eqI iffI)
    fix slot
    assume "slot \<in> ?f ` dom (map_of (ct_index t))"
    then obtain c where "map_of (ct_index t) c = Some slot"
      by auto
    from index_slot [OF wf this] show "slot \<in> {slot. slot < length (ct_slots t) \<and> ct_slots t ! slot \<noteq> None}"
      by (auto simp: slot_entry_eq_Some)
  next
    fix slot
    assume "slot \<in> {slot. slot < length (ct_slots t) \<and> ct_slots t ! slot \<noteq> None}"
    then obtain e where "slot < length (ct_slots t)" "ct_slots t ! slot = Some e"
      by auto
    then have "map_of (ct_index t) (ce_client_id e) = Some slot"
      by (rule slot_index [OF wf])
    then show "slot \<in> ?f ` dom (map_of (ct_index t))"
      by (intro image_eqI [where x = "ce_client_id e"]) auto
  qed
  finally show ?thesis .
qed

lemma count_le: "table_wf t \<Longrightarrow> length (ct_index t) \<le> length (ct_slots t)"
  using card_mono [of "{..<length (ct_slots t)}" "{slot. slot < length (ct_slots t) \<and> ct_slots t ! slot \<noteq> None}"]
  by (auto simp: count_occupied)

lemma occupied_slots:
  "occupied t = map (\<lambda>i. the (ct_slots t ! i)) (filter (\<lambda>i. ct_slots t ! i \<noteq> None) [0..<length (ct_slots t)])"
proof -
  have "occupied t = map the (filter (\<lambda>s. s \<noteq> None) (map ((!) (ct_slots t)) [0..<length (ct_slots t)]))"
    by (simp add: occupied_def map_filter_def map_nth)
  then show ?thesis
    by (simp add: filter_map comp_def)
qed

lemma occupied_distinct:
  assumes "table_wf t"
  shows "distinct (map ce_client_id (occupied t))" and "length (ct_index t) = length (occupied t)"
proof -
  have "inj_on (\<lambda>i. ce_client_id (the (ct_slots t ! i))) {i. i < length (ct_slots t) \<and> ct_slots t ! i \<noteq> None}"
  proof (rule inj_onI)
    have own: "map_of (ct_index t) (ce_client_id (the (ct_slots t ! i))) = Some i"
      if "i \<in> {i. i < length (ct_slots t) \<and> ct_slots t ! i \<noteq> None}" for i
      using that by (auto intro: slot_index [OF assms])
    fix i j
    assume "i \<in> {i. i < length (ct_slots t) \<and> ct_slots t ! i \<noteq> None}"
      "j \<in> {i. i < length (ct_slots t) \<and> ct_slots t ! i \<noteq> None}"
      "ce_client_id (the (ct_slots t ! i)) = ce_client_id (the (ct_slots t ! j))"
    then show "i = j"
      by (metis own option.inject)
  qed
  then show "distinct (map ce_client_id (occupied t))"
    by (simp add: occupied_slots comp_def distinct_map)
  show "length (ct_index t) = length (occupied t)"
    unfolding count_occupied [OF assms] occupied_slots
    by (simp add: distinct_length_filter Int_def lessThan_atLeast0 [symmetric] conj_commute)
qed

lemma free_slot:
  assumes "table_wf t" and "length (ct_index t) < length (ct_slots t)"
  shows "position (\<lambda>s. s = None) (ct_slots t) \<noteq> None"
proof
  assume "position (\<lambda>s. s = None) (ct_slots t) = None"
  then have "{slot. slot < length (ct_slots t) \<and> ct_slots t ! slot \<noteq> None} = {..<length (ct_slots t)}"
    by (auto simp: position_eq_None)
  with assms count_occupied [OF assms(1)] show False
    by simp
qed

section \<open>Operations on the map of sessions\<close>

lemma put_entry_fields [simp]:
  "ct_index (put_entry slot e t) = ct_index t" "ct_clients_max (put_entry slot e t) = ct_clients_max t"
  "ct_mode (put_entry slot e t) = ct_mode t" "length (ct_slots (put_entry slot e t)) = length (ct_slots t)"
  "ct_capacity_committed (put_entry slot e t) = ct_capacity_committed t"
  by (simp_all add: put_entry_def)

lemma put_entry_sessions:
  assumes wf: "table_wf t" and "map_of (ct_index t) c = Some slot" and "ce_client_id e = c"
  shows "table_wf (put_entry slot e t)" and "sessions (put_entry slot e t) = (sessions t)(c \<mapsto> e)"
proof -
  obtain e0 where e0: "slot < length (ct_slots t)" "ct_slots t ! slot = Some e0" "ce_client_id e0 = c"
    using index_iff [OF wf] assms(2) by auto
  have nth: "ct_slots (put_entry slot e t) ! i = (if i = slot then Some e else ct_slots t ! i)"
    if "i < length (ct_slots t)" for i
    using that by (simp add: put_entry_def nth_list_update)
  have iff: "map_of (ct_index t) c' = Some i \<longleftrightarrow>
      (\<exists>e'. i < length (ct_slots t) \<and> ct_slots (put_entry slot e t) ! i = Some e' \<and> ce_client_id e' = c')" for c' i
    using index_iff [OF wf, of c' i] e0 assms(3) by (cases "i = slot") (auto simp: nth)
  then show wf': "table_wf (put_entry slot e t)"
    using wf by (auto simp: table_wf_def)
  show "sessions (put_entry slot e t) = (sessions t)(c \<mapsto> e)"
  proof
    fix c'
    show "sessions (put_entry slot e t) c' = ((sessions t)(c \<mapsto> e)) c'"
    proof (cases "map_of (ct_index t) c'")
      case (Some i)
      then have i: "i < length (ct_slots t)" and same: "c' = c \<longleftrightarrow> i = slot"
        using index_iff [OF wf, of c' i] e0 assms(2) by auto
      then show ?thesis
        using e0(1) by (auto simp: sessions_def Some nth slot_entry_def get_at_def)
    next
      case None
      then have "c' \<noteq> c"
        using assms(2) by auto
      with None show ?thesis
        by (simp add: sessions_def)
    qed
  qed
qed

lemma insert_sessions:
  assumes wf: "table_wf t" and new: "map_of (ct_index t) c = None"
    and slot: "slot < length (ct_slots t)" "ct_slots t ! slot = None" and "ce_client_id e = c"
  defines "t' \<equiv> (put_entry slot e t)\<lparr>ct_index := AList.update c slot (ct_index t)\<rparr>"
  shows "table_wf t'" and "sessions t' = (sessions t)(c \<mapsto> e)"
proof -
  have nth: "ct_slots t' ! i = (if i = slot then Some e else ct_slots t ! i)" if "i < length (ct_slots t)" for i
    using that by (simp add: t'_def put_entry_def nth_list_update)
  have len: "length (ct_slots t') = length (ct_slots t)"
    by (simp add: t'_def)
  have index: "map_of (ct_index t') = (map_of (ct_index t))(c \<mapsto> slot)"
    by (simp add: t'_def update_conv' fun_eq_iff)
  have "map_of (ct_index t') c' = Some i \<longleftrightarrow>
      (\<exists>e'. i < length (ct_slots t) \<and> ct_slots t' ! i = Some e' \<and> ce_client_id e' = c')" for c' i
    using index_iff [OF wf, of c' i] slot_index [OF wf, of i] slot assms(5) new
    unfolding index by (cases "i = slot") (auto simp: nth)
  then show "table_wf t'"
    using wf distinct_update [of "ct_index t" c slot] by (simp add: table_wf_def) (simp add: t'_def)
  show "sessions t' = (sessions t)(c \<mapsto> e)"
  proof
    fix c'
    show "sessions t' c' = ((sessions t)(c \<mapsto> e)) c'"
    proof (cases "c' = c")
      case True
      then show ?thesis
        using slot nth [of slot] by (simp add: sessions_def index slot_entry_def get_at_def len)
    next
      case False
      have "i \<noteq> slot" if "map_of (ct_index t) c' = Some i" for i
        using index_iff [OF wf, of c' i] that slot(2) by auto
      with False show ?thesis
        by (cases "map_of (ct_index t) c'")
          (auto simp: sessions_def index slot_entry_def get_at_def nth len)
    qed
  qed
qed

lemma first_free_slot_sound:
  assumes wf: "table_wf t" and free: "first_free_slot t = (t', r)"
  shows "table_wf t'" and "sessions t' = sessions t" and "ct_index t' = ct_index t"
    and "ct_clients_max t' = ct_clients_max t" and "ct_mode t' = ct_mode t" and "occupied t' = occupied t"
    and "r = Some slot \<Longrightarrow> slot < length (ct_slots t') \<and> ct_slots t' ! slot = None"
    and "length (ct_index t) < ct_clients_max t \<Longrightarrow> r \<noteq> None"
proof -
  consider (hole) slot' where "position (\<lambda>s. s = None) (ct_slots t) = Some slot'" "t' = t" "r = Some slot'"
    | (grow) "length (ct_index t) = length (ct_slots t)" "length (ct_slots t) < ct_clients_max t"
        "t' = t\<lparr>ct_slots := ct_slots t @ [None]\<rparr>" "r = Some (length (ct_slots t))"
    | (full) "length (ct_index t) = length (ct_slots t)" "\<not> length (ct_slots t) < ct_clients_max t"
        "t' = t" "r = None"
    using free free_slot [OF wf] count_le [OF wf]
    by (fastforce simp: first_free_slot_def split: if_splits option.splits)
  note cases = this
  have ext: "map_of (ct_index t) c = Some i \<longleftrightarrow>
      (\<exists>e. i < Suc (length (ct_slots t)) \<and> (ct_slots t @ [None]) ! i = Some e \<and> ce_client_id e = c)" for c i
    using index_iff [OF wf, of c i] by (auto simp: nth_append)
  show "table_wf t'"
    using cases
  proof cases
    case grow
    show ?thesis
      by (rule table_wfI) (use table_wfD [OF wf] ext grow(2) in \<open>simp_all add: grow(3)\<close>)
  qed (use wf in simp_all)
  show "sessions t' = sessions t"
    using cases
  proof cases
    case grow
    have "slot_entry t' i = slot_entry t i" if "map_of (ct_index t) c = Some i" for c i
      using that index_iff [OF wf, of c i] by (auto simp: grow(3) slot_entry_def get_at_def nth_append)
    then show ?thesis
      by (auto simp: grow(3) sessions_def fun_eq_iff split: bind_split)
  qed simp_all
  show "ct_index t' = ct_index t" "ct_clients_max t' = ct_clients_max t" "ct_mode t' = ct_mode t"
    using cases by (cases; simp)+
  show "occupied t' = occupied t"
    using cases by cases (simp_all add: occupied_def map_filter_def)
  show "r = Some slot \<Longrightarrow> slot < length (ct_slots t') \<and> ct_slots t' ! slot = None"
    using cases by cases (auto simp: position_eq_Some)
  show "length (ct_index t) < ct_clients_max t \<Longrightarrow> r \<noteq> None"
    using cases by cases auto
qed

lemma forget_sessions:
  assumes wf: "table_wf t" and "map_of (ct_index t) c = Some slot"
  defines "t' \<equiv> t\<lparr>ct_index := AList.delete c (ct_index t), ct_slots := (ct_slots t)[slot := None]\<rparr>"
  shows "table_wf t'" and "sessions t' = (sessions t)(c := None)"
proof -
  obtain e where e: "slot < length (ct_slots t)" "ct_slots t ! slot = Some e" "ce_client_id e = c"
    using index_iff [OF wf] assms(2) by auto
  have len: "length (ct_slots t') = length (ct_slots t)"
    by (simp add: t'_def)
  have index: "map_of (ct_index t') = (map_of (ct_index t))(c := None)"
    by (simp add: t'_def delete_conv' fun_eq_iff)
  have nth: "ct_slots t' ! i = (if i = slot then None else ct_slots t ! i)" if "i < length (ct_slots t)" for i
    using that by (simp add: t'_def nth_list_update)
  have "map_of (ct_index t') c' = Some i \<longleftrightarrow>
      (\<exists>e'. i < length (ct_slots t) \<and> ct_slots t' ! i = Some e' \<and> ce_client_id e' = c')" for c' i
    using index_iff [OF wf, of c' i] slot_index [OF wf, of i] e assms(2)
    unfolding index by (cases "i = slot") (auto simp: nth)
  then show "table_wf t'"
    using wf distinct_delete [of "ct_index t" c] by (simp add: table_wf_def) (simp add: t'_def)
  show "sessions t' = (sessions t)(c := None)"
  proof
    fix c'
    have "i \<noteq> slot" if "map_of (ct_index t) c' = Some i" "c' \<noteq> c" for i
      using index_iff [OF wf, of c' i] that e by auto
    then show "sessions t' c' = ((sessions t)(c := None)) c'"
      by (cases "map_of (ct_index t) c'") (auto simp: sessions_def index slot_entry_def get_at_def nth len)
  qed
qed

text \<open>What each operation does to the map of sessions.\<close>

definition accepts_reply :: "u32 \<Rightarrow> CachedReply \<Rightarrow> ClientEntry \<Rightarrow> bool" where
  "accepts_reply user_id reply e \<longleftrightarrow>
     ce_user_id e = user_id \<and> ce_latest_commit e \<le> rp_commit (cr_header reply) \<and>
     ce_watermark e \<le> rp_request (cr_header reply) \<and>
     (case ce_ended_op e of None \<Rightarrow> True | Some ended_op \<Rightarrow> rp_commit (cr_header reply) \<le> ended_op)"

lemma trim_ring_fields [simp]:
  "ce_client_id (trim_ring e) = ce_client_id e" "ce_epoch (trim_ring e) = ce_epoch e"
  "ce_user_id (trim_ring e) = ce_user_id e" "ce_watermark (trim_ring e) = ce_watermark e"
  "ce_ended_op (trim_ring e) = ce_ended_op e" "ce_latest_commit (trim_ring e) = ce_latest_commit e"
  "ce_attachment (trim_ring e) = ce_attachment e" "ce_bind_verifier (trim_ring e) = ce_bind_verifier e"
  "ce_committed_window (trim_ring e) = ce_committed_window e"
  by (simp_all add: trim_ring_def)

lemma store_reply_fields [simp]:
  "ce_client_id (store_reply r e) = ce_client_id e" "ce_epoch (store_reply r e) = ce_epoch e"
  "ce_user_id (store_reply r e) = ce_user_id e" "ce_ended_op (store_reply r e) = ce_ended_op e"
  "ce_attachment (store_reply r e) = ce_attachment e" "ce_bind_verifier (store_reply r e) = ce_bind_verifier e"
  "ce_watermark (store_reply r e) = rp_request (cr_header r)"
  by (auto simp: store_reply_def replace_reply_def push_latest_def split: option.splits)

lemma commit_reply_sessions:
  assumes wf: "table_wf t" and "rp_client (cr_header reply) = c" and "c \<noteq> 0"
  obtains (stored) e t' where "sessions t c = Some e" "accepts_reply user_id reply e"
      "commit_reply c user_id reply t = Some (t', Cached)" "table_wf t'" "ct_mode t' = ct_mode t"
      "ct_clients_max t' = ct_clients_max t" "sessions t' = (sessions t)(c \<mapsto> store_reply reply e)"
  | (refused) result where "commit_reply c user_id reply t = Some (t, result)" "result \<noteq> Cached"
      "\<And>e. sessions t c = Some e \<Longrightarrow> \<not> accepts_reply user_id reply e"
proof (cases "map_of (ct_index t) c")
  case None
  then show ?thesis
    using assms sessions_None [OF wf, of c]
    by (intro refused [of NoEntry]) (simp_all add: commit_reply_def RESERVED_CLIENT_ID_def Let_def)
next
  case (Some slot)
  then obtain e where e: "slot_entry t slot = Some e" "sessions t c = Some e" "ce_client_id e = c"
    by (rule index_slot [OF wf])
  show ?thesis
  proof (cases "accepts_reply user_id reply e")
    case True
    then have "commit_reply c user_id reply t = Some (put_entry slot (store_reply reply e) t, Cached)"
      using assms Some e
      by (auto simp: commit_reply_def RESERVED_CLIENT_ID_def Let_def accepts_reply_def split: option.splits)
    with put_entry_sessions [OF wf Some, of "store_reply reply e"] True e show ?thesis
      by (intro stored) simp_all
  next
    case False
    then have "\<exists>result. commit_reply c user_id reply t = Some (t, result) \<and> result \<noteq> Cached"
      using assms Some e
      by (auto simp: commit_reply_def RESERVED_CLIENT_ID_def Let_def accepts_reply_def not_le split: option.splits)
    with False e show ?thesis
      using refused by auto
  qed
qed

lemma end_session_sessions:
  assumes wf: "table_wf t"
  obtains (ended) e t' where "sessions t c = Some e" "ce_user_id e = user_id" "ce_epoch e = session"
      "ce_ended_op e = None" "end_session c user_id session ended_op t = Some (t', True)" "table_wf t'"
      "ct_mode t' = ct_mode t" "ct_clients_max t' = ct_clients_max t"
      "sessions t' = (sessions t)(c \<mapsto> end_entry ended_op e)"
  | (refused) "end_session c user_id session ended_op t = Some (t, False)"
      "\<And>e. sessions t c = Some e \<Longrightarrow>
        \<not> (ce_user_id e = user_id \<and> ce_epoch e = session \<and> ce_ended_op e = None)"
proof (cases "map_of (ct_index t) c")
  case None
  then show ?thesis
    using sessions_None [OF wf, of c] by (intro refused) (simp_all add: end_session_def)
next
  case (Some slot)
  then obtain e where e: "get_at (ct_slots t) slot = Some (Some e)" "sessions t c = Some e" "ce_client_id e = c"
    by (rule index_slot [OF wf])
  show ?thesis
  proof (cases "ce_user_id e = user_id \<and> ce_epoch e = session \<and> ce_ended_op e = None")
    case True
    with put_entry_sessions [OF wf Some, of "end_entry ended_op e"] Some e show ?thesis
      by (intro ended [of e "put_entry slot (end_entry ended_op e) t"])
        (simp_all add: end_session_def end_entry_def)
  next
    case False
    with Some e show ?thesis
      by (intro refused) (auto simp: end_session_def)
  qed
qed

definition registers :: "u128 \<Rightarrow> CachedReply \<Rightarrow> bool" where
  "registers c reply \<longleftrightarrow>
     c \<noteq> 0 \<and> rp_client (cr_header reply) = c \<and> rp_commit (cr_header reply) \<noteq> 0 \<and>
     rp_request (cr_header reply) = REGISTER_REQUEST_ID \<and> rp_operation (cr_header reply) = OpRegister"

lemma commit_register_sessions:
  assumes wf: "table_wf t"
  obtains (opened) t' where "sessions t c = None" "registers c reply" "count t < capacity t"
      "commit_register c user_id verifier reply t = Some (t', Ok ())" "table_wf t'" "ct_mode t' = ct_mode t"
      "ct_clients_max t' = ct_clients_max t"
      "sessions t' = (sessions t)(c \<mapsto> registered_entry c user_id verifier reply)"
  | (kept) e where "sessions t c = Some e" "registers c reply" "ce_user_id e = user_id"
      "ce_bind_verifier e = verifier" "ce_ended_op e = None"
      "commit_register c user_id verifier reply t = Some (t, Ok ())"
  | (refused) err where "commit_register c user_id verifier reply t = Some (t, Err err)"
      "registers c reply \<Longrightarrow> sessions t c = None \<Longrightarrow> capacity t \<le> count t"
proof (cases "registers c reply")
  case False
  then have "commit_register c user_id verifier reply t = Some (t, Err InvalidReply)"
    by (auto simp: commit_register_def registers_def Let_def)
  with False show ?thesis
    by (intro refused) auto
next
  case True
  then have body: "\<not> (c = 0 \<or> c \<noteq> rp_client (cr_header reply) \<or> rp_commit (cr_header reply) = 0 \<or>
      rp_request (cr_header reply) \<noteq> REGISTER_REQUEST_ID \<or> rp_operation (cr_header reply) \<noteq> OpRegister)"
    by (auto simp: registers_def)
  show ?thesis
  proof (cases "map_of (ct_index t) c")
    case (Some slot)
    then obtain e where e: "get_at (ct_slots t) slot = Some (Some e)" "sessions t c = Some e"
      by (rule index_slot [OF wf])
    show ?thesis
      using e Some True body kept [of e] refused
      by (cases "ce_user_id e = user_id \<and> ce_bind_verifier e = verifier \<and> ce_ended_op e = None")
        (auto simp: commit_register_def Let_def)
  next
    case None
    then have new: "sessions t c = None"
      using sessions_None [OF wf] by simp
    show ?thesis
    proof (cases "count t < capacity t")
      case False
      then show ?thesis
        using None body
        by (intro refused [of "TooManyEntries (saturate_u32 (count t + 1)) (ct_clients_max t)"])
          (simp_all add: commit_register_def Let_def count_def capacity_def)
    next
      case room: True
      obtain t1 r where free: "first_free_slot t = (t1, r)"
        by fastforce
      note sound = first_free_slot_sound [OF wf free]
      obtain slot where r: "r = Some slot"
        using sound(8) room by (auto simp: count_def capacity_def)
      let ?e = "registered_entry c user_id verifier reply"
      have "ce_client_id ?e = c"
        by (simp add: registered_entry_def)
      with sound(7) [OF r] None have ins: "table_wf ((put_entry slot ?e t1)\<lparr>ct_index := AList.update c slot (ct_index t1)\<rparr>)"
          "sessions ((put_entry slot ?e t1)\<lparr>ct_index := AList.update c slot (ct_index t1)\<rparr>) = (sessions t)(c \<mapsto> ?e)"
        using insert_sessions [OF sound(1)] sound(2,3) by simp_all
      have "commit_register c user_id verifier reply t =
          Some ((put_entry slot ?e t1)\<lparr>ct_index := AList.update c slot (ct_index t1)\<rparr>, Ok ())"
        using None body room by (simp add: commit_register_def Let_def free r count_def capacity_def)
      with ins new True room sound(4,5) show ?thesis
        by (intro opened) simp_all
    qed
  qed
qed

lemma attach_session_sessions:
  assumes wf: "table_wf t"
  obtains (attached) e a t' where "sessions t c = Some e" "ce_ended_op e = None" "ce_user_id e = user_id"
      "ce_epoch e = session" "a = (case ce_attachment e of None \<Rightarrow> address | Some held \<Rightarrow> held)"
      "attach_session address c session user_id t = Some (t', Some \<lparr>at_session = a, at_user_id = user_id\<rparr>)"
      "table_wf t'" "ct_mode t' = ct_mode t" "ct_clients_max t' = ct_clients_max t"
      "sessions t' = (sessions t)(c \<mapsto> e\<lparr>ce_attachment := Some a\<rparr>)"
  | (refused) "attach_session address c session user_id t = Some (t, None)"
proof (cases "map_of (ct_index t) c")
  case None
  then show ?thesis
    by (intro refused) (simp add: attach_session_def)
next
  case (Some slot)
  then obtain e where e: "get_at (ct_slots t) slot = Some (Some e)" "sessions t c = Some e" "ce_client_id e = c"
    by (rule index_slot [OF wf])
  show ?thesis
  proof (cases "ce_epoch e = session \<and> ce_user_id e = user_id \<and> session \<noteq> 0 \<and> ce_ended_op e = None")
    case True
    let ?a = "case ce_attachment e of None \<Rightarrow> address | Some held \<Rightarrow> held"
    from True put_entry_sessions [OF wf Some, of "e\<lparr>ce_attachment := Some ?a\<rparr>"] Some e show ?thesis
      by (intro attached [of e ?a "put_entry slot (e\<lparr>ce_attachment := Some ?a\<rparr>) t"])
        (simp_all add: attach_session_def Let_def)
  next
    case False
    with Some e show ?thesis
      by (intro refused) (auto simp: attach_session_def)
  qed
qed

lemma forget_session_sessions:
  assumes wf: "table_wf t"
  obtains (forgotten) e t' where "sessions t c = Some e" "ce_epoch e = session"
      "forget_session c session t = Some (t', True)" "table_wf t'" "ct_mode t' = ct_mode t"
      "ct_clients_max t' = ct_clients_max t" "sessions t' = (sessions t)(c := None)"
  | (refused) "forget_session c session t = Some (t, False)" "\<And>e. sessions t c = Some e \<Longrightarrow> ce_epoch e \<noteq> session"
proof (cases "map_of (ct_index t) c")
  case None
  then show ?thesis
    using sessions_None [OF wf, of c] by (intro refused) (auto simp: forget_session_def)
next
  case (Some slot)
  then obtain e where e: "get_at (ct_slots t) slot = Some (Some e)" "sessions t c = Some e"
    by (rule index_slot [OF wf])
  show ?thesis
  proof (cases "ce_epoch e = session")
    case True
    with forget_sessions [OF wf Some] Some e show ?thesis
      by (intro forgotten) (simp_all add: forget_session_def)
  next
    case False
    with Some e show ?thesis
      by (intro refused) (simp_all add: forget_session_def)
  qed
qed

lemma map_entries_sessions:
  assumes wf: "table_wf t" and client: "\<And>e. ce_client_id (f e) = ce_client_id e"
  defines "t' \<equiv> t\<lparr>ct_slots := map (map_option f) (ct_slots t)\<rparr>"
  shows "table_wf t'" and "sessions t' = (\<lambda>c. map_option f (sessions t c))"
proof -
  have "map_of (ct_index t') c = Some slot \<longleftrightarrow>
      (\<exists>e. slot < length (ct_slots t') \<and> ct_slots t' ! slot = Some e \<and> ce_client_id e = c)" for c slot
    using index_iff [OF wf, of c slot] client by (auto simp: t'_def)
  then show "table_wf t'"
    by (rule table_wfI [rotated]) (use table_wfD [OF wf] in \<open>simp_all add: t'_def\<close>)
  have "slot_entry t' slot = map_option f (slot_entry t slot)" for slot
    by (auto simp: t'_def slot_entry_def get_at_def split: option.splits)
  then show "sessions t' = (\<lambda>c. map_option f (sessions t c))"
    by (auto simp: sessions_def t'_def fun_eq_iff split: bind_split)
qed

definition end_if :: "u32 \<Rightarrow> u64 \<Rightarrow> ClientEntry \<Rightarrow> ClientEntry" where
  "end_if user_id ended_op e =
     (if ce_user_id e = user_id \<and> ce_ended_op e = None then end_entry ended_op e else e)"

lemma end_if_fields [simp]:
  "ce_client_id (end_if u k e) = ce_client_id e" "ce_latest_commit (end_if u k e) = ce_latest_commit e"
  "ce_epoch (end_if u k e) = ce_epoch e" "ce_user_id (end_if u k e) = ce_user_id e"
  "ce_watermark (end_if u k e) = ce_watermark e" "ce_bind_verifier (end_if u k e) = ce_bind_verifier e"
  by (simp_all add: end_if_def end_entry_def)

lemma end_user_sessions_sessions:
  assumes wf: "table_wf t" and "end_user_sessions user_id ended_op t = (t', ids)"
  shows "table_wf t'" and "sessions t' = (\<lambda>c. map_option (end_if user_id ended_op) (sessions t c))"
    and "ct_mode t' = ct_mode t" and "ct_clients_max t' = ct_clients_max t"
proof -
  have t': "t' = t\<lparr>ct_slots := map (map_option (end_if user_id ended_op)) (ct_slots t)\<rparr>"
    using assms(2) by (auto simp: end_user_sessions_def end_if_def [abs_def] Let_def)
  have "ce_client_id (end_if user_id ended_op e) = ce_client_id e" for e
    by (simp add: end_if_def end_entry_def)
  from map_entries_sessions [OF wf this] show "table_wf t'"
      "sessions t' = (\<lambda>c. map_option (end_if user_id ended_op) (sessions t c))"
    by (simp_all add: t')
qed (use assms(2) in \<open>auto simp: end_user_sessions_def Let_def\<close>)

lemma finalize_session_sessions:
  assumes wf: "table_wf t"
  obtains (finalized) e t' where "sessions t (si_client_id identity) = Some e"
      "ce_epoch e = si_session identity" "ce_ended_op e = Some (si_metadata_watermark identity)"
      "finalize_session identity t = Some (t', True)" "table_wf t'" "ct_mode t' = ct_mode t"
      "ct_clients_max t' = ct_clients_max t" "sessions t' = (sessions t)(si_client_id identity := None)"
  | (refused) "finalize_session identity t = Some (t, False)"
proof (cases "identity \<in> set (ended_sessions t)")
  case False
  then show ?thesis
    by (intro refused) (simp add: finalize_session_def list_ex_iff)
next
  case True
  then obtain e where e: "e \<in> set (occupied t)" "map_option (session_identity e) (ce_ended_op e) = Some identity"
    by (auto simp: ended_sessions_def map_filter_def)
  then have id: "ce_client_id e = si_client_id identity" "ce_epoch e = si_session identity"
      "ce_ended_op e = Some (si_metadata_watermark identity)"
    by (auto simp: session_identity_def)
  with e sessions_iff [OF wf, of "si_client_id identity" e] have "sessions t (si_client_id identity) = Some e"
    by simp
  moreover have "finalize_session identity t = forget_session (si_client_id identity) (si_session identity) t"
    using True by (simp add: finalize_session_def list_ex_iff)
  ultimately show ?thesis
    using id
    by (cases rule: forget_session_sessions [OF wf, of "si_client_id identity" "si_session identity"])
      (auto intro: finalized)
qed

section \<open>The protection of one session\<close>

text \<open>What a newly committed reply of a session satisfies: it is not a registration, and it has its own op.\<close>

definition fresh_for :: "ClientEntry \<Rightarrow> ReplyHeader \<Rightarrow> bool" where
  "fresh_for e header \<longleftrightarrow>
     rp_client header = ce_client_id e \<and> rp_request header \<noteq> REGISTER_REQUEST_ID \<and>
     rp_operation header \<noteq> OpRegister \<and>
     (rp_commit header = ce_latest_commit e \<longrightarrow> rp_request header = ce_watermark e) \<and>
     (ce_ended_op e = Some (rp_commit header) \<longrightarrow> ends_session (rp_operation header))"

lemma valid_ring_append:
  "valid_ring e prev (xs @ ys) \<longleftrightarrow>
     valid_ring e prev xs \<and>
     valid_ring e (case last_opt xs of None \<Rightarrow> prev
                   | Some x \<Rightarrow> Some (rp_request (cr_header x), rp_commit (cr_header x))) ys"
proof (induction xs arbitrary: prev)
  case (Cons x xs)
  then show ?case
    by (cases xs) (auto simp: last_opt_def)
qed simp

lemma valid_ring_None: "valid_ring e prev xs \<Longrightarrow> valid_ring e None xs"
  by (cases xs) (auto simp: valid_receipt_def)

lemma valid_ring_suffix: "valid_ring e prev xs \<Longrightarrow> valid_ring e None (drop n xs)"
proof -
  assume "valid_ring e prev xs"
  then have "valid_ring e prev (take n xs @ drop n xs)"
    by simp
  then show ?thesis
    unfolding valid_ring_append by (blast intro: valid_ring_None)
qed

lemma valid_ring_mono:
  assumes "valid_ring e prev xs" and "ce_watermark e \<le> ce_watermark e'"
    and "ce_client_id e' = ce_client_id e" "ce_epoch e' = ce_epoch e"
  shows "valid_ring e' prev xs"
  using assms by (induction e prev xs rule: valid_ring.induct) (auto simp: valid_receipt_def)

lemma trim_loop_suffix: "\<exists>n. trim_loop held ring = drop n ring \<and> (ring \<noteq> [] \<longrightarrow> n < length ring)"
proof (induction held ring rule: trim_loop.induct)
  case (2 held oldest ring)
  show ?case
  proof (cases "length (oldest # ring) > REPLY_RING_CAPACITY \<and> held > REPLY_RING_RETENTION_BYTES")
    case True
    with 2 obtain n where "trim_loop (held - byte_len oldest) ring = drop n ring" "ring \<noteq> [] \<longrightarrow> n < length ring"
      by blast
    moreover have "ring \<noteq> []"
      using True by (auto simp: REPLY_RING_CAPACITY_def)
    ultimately show ?thesis
      using True by (intro exI [of _ "Suc n"]) simp
  next
    case False
    then show ?thesis
      by (intro exI [of _ 0]) auto
  qed
qed simp

lemma valid_protection_iff:
  "valid_metadata_protection e \<longleftrightarrow>
     ce_client_id e \<noteq> 0 \<and> ce_epoch e \<noteq> 0 \<and> ce_epoch e \<le> ce_latest_commit e \<and>
     (\<exists>older r. ce_ring e = older @ [r] \<and> rp_request (cr_header r) = ce_watermark e \<and>
        rp_commit (cr_header r) = ce_latest_commit e \<and>
        (\<forall>m. ce_ended_op e = Some m \<longrightarrow> ce_latest_commit e \<le> m \<and>
           (m = ce_latest_commit e \<longrightarrow> ends_session (rp_operation (cr_header r))))) \<and>
     valid_ring e None (ce_ring e)"
  by (cases "ce_ring e" rule: rev_cases)
    (auto simp: valid_metadata_protection_def Let_def not_less split: option.splits)

lemma valid_ring_ascending:
  "valid_ring e prev ring \<Longrightarrow>
     sorted_wrt (\<lambda>x y. rp_request (cr_header x) < rp_request (cr_header y) \<and>
                       rp_commit (cr_header x) < rp_commit (cr_header y)) ring"
proof (induction ring arbitrary: prev)
  case (Cons x ring)
  then have IH: "sorted_wrt (\<lambda>x y. rp_request (cr_header x) < rp_request (cr_header y) \<and>
      rp_commit (cr_header x) < rp_commit (cr_header y)) ring"
    by auto
  show ?case
  proof (cases ring)
    case (Cons y ys)
    then have "rp_request (cr_header x) < rp_request (cr_header y)" "rp_commit (cr_header x) < rp_commit (cr_header y)"
      using Cons.prems by (auto simp: valid_receipt_def)
    with IH show ?thesis
      unfolding Cons by (auto dest: order_less_trans)
  qed simp
qed simp

text \<open>A stored reply becomes the last of the ring, behind older replies of the session.\<close>

lemma store_reply_shape:
  assumes valid: "valid_metadata_protection e" and "ce_watermark e \<le> rp_request (cr_header r)"
    and "ce_latest_commit e \<le> rp_commit (cr_header r)"
    and "rp_commit (cr_header r) = ce_latest_commit e \<longrightarrow> rp_request (cr_header r) = ce_watermark e"
  obtains kept where
    "store_reply r e = e\<lparr>ce_ring := kept @ [r], ce_latest_commit := rp_commit (cr_header r),
       ce_watermark := rp_request (cr_header r)\<rparr>"
    "valid_ring e None kept"
    "\<And>x. x \<in> set kept \<Longrightarrow> rp_request (cr_header x) < rp_request (cr_header r) \<and>
       rp_commit (cr_header x) < rp_commit (cr_header r)"
proof -
  obtain older r0 where ring: "ce_ring e = older @ [r0]" and last: "rp_request (cr_header r0) = ce_watermark e"
      "rp_commit (cr_header r0) = ce_latest_commit e" and vr: "valid_ring e None (older @ [r0])"
    using valid by (auto simp: valid_protection_iff)
  have old: "rp_request (cr_header x) < ce_watermark e \<and> rp_commit (cr_header x) < ce_latest_commit e"
    if "x \<in> set older" for x
    using that valid_ring_ascending [OF vr] last by (auto simp: sorted_wrt_append)
  show thesis
  proof (cases "rp_request (cr_header r) = ce_watermark e")
    case True
    have "position (\<lambda>stored. rp_request (cr_header stored) = rp_request (cr_header r)) (ce_ring e) = Some (length older)"
      unfolding position_eq_Some ring using True last old
      by (auto simp: nth_append dest!: old [OF nth_mem])
    then have "store_reply r e = e\<lparr>ce_ring := older @ [r], ce_latest_commit := rp_commit (cr_header r),
       ce_watermark := rp_request (cr_header r)\<rparr>"
      using True by (simp add: store_reply_def replace_reply_def ring)
    then show thesis
    proof (rule that)
      show "valid_ring e None older"
        using vr by (simp add: valid_ring_append)
    qed (use old True assms(3) in \<open>force dest: order_less_le_trans\<close>)
  next
    case False
    with assms have less: "ce_watermark e < rp_request (cr_header r)" "ce_latest_commit e < rp_commit (cr_header r)"
      by auto
    let ?ring = "ce_ring e @ [r]"
    obtain n where n: "trim_loop (sum_list (map byte_len ?ring)) ?ring = drop n ?ring" "n < length ?ring"
      using trim_loop_suffix [of _ ?ring] by blast
    then have "store_reply r e = e\<lparr>ce_ring := drop n (ce_ring e) @ [r],
        ce_latest_commit := rp_commit (cr_header r), ce_watermark := rp_request (cr_header r)\<rparr>"
      using False by (simp add: store_reply_def push_latest_def trim_ring_def)
    then show thesis
    proof (rule that)
      show "valid_ring e None (drop n (ce_ring e))"
        using vr unfolding ring by (rule valid_ring_suffix)
    next
      fix x
      assume "x \<in> set (drop n (ce_ring e))"
      then have "x \<in> set older \<or> x = r0"
        using set_drop_subset [of n "ce_ring e"] by (auto simp: ring)
      then show "rp_request (cr_header x) < rp_request (cr_header r) \<and> rp_commit (cr_header x) < rp_commit (cr_header r)"
        using old last less by (auto dest: order_less_trans)
    qed
  qed
qed

lemma store_reply_valid:
  assumes "valid_metadata_protection e" and acc: "accepts_reply user_id r e" and fresh: "fresh_for e (cr_header r)"
  shows "valid_metadata_protection (store_reply r e)"
proof -
  have le: "ce_watermark e \<le> rp_request (cr_header r)" "ce_latest_commit e \<le> rp_commit (cr_header r)"
    using acc by (simp_all add: accepts_reply_def)
  have eq: "rp_commit (cr_header r) = ce_latest_commit e \<longrightarrow> rp_request (cr_header r) = ce_watermark e"
    using fresh by (simp add: fresh_for_def)
  obtain kept where e': "store_reply r e = e\<lparr>ce_ring := kept @ [r], ce_latest_commit := rp_commit (cr_header r),
       ce_watermark := rp_request (cr_header r)\<rparr>" (is "_ = ?e'")
    and kept: "valid_ring e None kept" "\<And>x. x \<in> set kept \<Longrightarrow> rp_request (cr_header x) < rp_request (cr_header r) \<and>
       rp_commit (cr_header x) < rp_commit (cr_header r)"
    using store_reply_shape [OF assms(1) le eq] by metis
  have epoch: "ce_client_id e \<noteq> 0" "ce_epoch e \<noteq> 0" "ce_epoch e \<le> ce_latest_commit e"
    using assms(1) by (simp_all add: valid_protection_iff)
  have "valid_ring ?e' None kept"
    by (rule valid_ring_mono [OF kept(1)]) (use le(1) in simp_all)
  moreover have "valid_receipt ?e' (case last_opt kept of None \<Rightarrow> None
      | Some x \<Rightarrow> Some (rp_request (cr_header x), rp_commit (cr_header x))) (cr_header r)"
    using fresh epoch le(2) kept(2)
    by (cases kept rule: rev_cases) (auto simp: valid_receipt_def fresh_for_def not_less not_le)
  ultimately have "valid_ring ?e' None (kept @ [r])"
    by (simp add: valid_ring_append split: option.splits)
  moreover have "rp_commit (cr_header r) \<le> m \<and> (m = rp_commit (cr_header r) \<longrightarrow> ends_session (rp_operation (cr_header r)))"
    if "ce_ended_op e = Some m" for m
    using that acc fresh by (auto simp: accepts_reply_def fresh_for_def)
  ultimately show ?thesis
    using epoch le(2) unfolding e' valid_protection_iff by auto
qed

lemma registered_entry_valid: "registers c reply \<Longrightarrow> valid_metadata_protection (registered_entry c u v reply)"
  by (auto simp: valid_protection_iff registered_entry_def registers_def valid_receipt_def)

lemma valid_receipt_cong:
  "ce_client_id e' = ce_client_id e \<Longrightarrow> ce_epoch e' = ce_epoch e \<Longrightarrow> ce_watermark e' = ce_watermark e \<Longrightarrow>
     valid_ring e' prev ring = valid_ring e prev ring"
  by (induction ring arbitrary: prev) (simp_all add: valid_receipt_def)

lemma end_entry_valid:
  assumes "valid_metadata_protection e" and "ce_latest_commit e \<le> m"
    and "\<And>r. last_opt (ce_ring e) = Some r \<Longrightarrow> m = ce_latest_commit e \<Longrightarrow> ends_session (rp_operation (cr_header r))"
  shows "valid_metadata_protection (end_entry m e)"
  using assms valid_receipt_cong [of "end_entry m e" e None "ce_ring e"]
  by (auto simp: valid_protection_iff end_entry_def)

lemma attachment_valid:
  "valid_metadata_protection (e\<lparr>ce_attachment := a\<rparr>) = valid_metadata_protection e"
  using valid_receipt_cong [of "e\<lparr>ce_attachment := a\<rparr>" e None "ce_ring e"] by (simp add: valid_protection_iff)

end
