(* ===== verification/Client_Table_Safety.thy ===== *)
theory Client_Table_Safety
  imports Client_Table_Inv
begin

text \<open>
  Exactly-once requests on the metadata plane. The abstract machine works on the map of sessions
  and the number of the last applied op; the table's operations, applied in log order, are a run of
  it. Every session the machine reaches keeps a valid protection, and its watermark never falls
  while its epoch stands.
\<close>

section \<open>The abstract machine\<close>

type_synonym session_state = "u64 \<times> (u128 \<rightharpoonup> ClientEntry)"

inductive session_step :: "session_state \<Rightarrow> session_state \<Rightarrow> bool" where
  idle: "n \<le> n' \<Longrightarrow> session_step (n, m) (n', m)"
| opens: "n < rp_commit (cr_header reply) \<Longrightarrow> registers c reply \<Longrightarrow> m c = None \<Longrightarrow>
    session_step (n, m) (rp_commit (cr_header reply), m(c \<mapsto> registered_entry c u v reply))"
| stores: "n \<le> rp_commit (cr_header reply) \<Longrightarrow> m c = Some e \<Longrightarrow> accepts_reply u reply e \<Longrightarrow>
    fresh_for e (cr_header reply) \<Longrightarrow>
    session_step (n, m) (rp_commit (cr_header reply), m(c \<mapsto> store_reply reply e))"
| closes: "m c = Some e \<Longrightarrow> ce_ended_op e = None \<Longrightarrow> ce_latest_commit e = n \<Longrightarrow>
    (\<And>r. last_opt (ce_ring e) = Some r \<Longrightarrow> ends_session (rp_operation (cr_header r))) \<Longrightarrow>
    session_step (n, m) (n, m(c \<mapsto> end_entry n e))"
| closes_user: "n < k \<Longrightarrow> session_step (n, m) (k, \<lambda>c. map_option (end_if u k) (m c))"
| attaches: "m c = Some e \<Longrightarrow> ce_ended_op e = None \<Longrightarrow>
    (\<And>c' e'. m c' = Some e' \<Longrightarrow> ce_attachment e' = Some a \<Longrightarrow> c' = c) \<Longrightarrow>
    session_step (n, m) (n, m(c \<mapsto> e\<lparr>ce_attachment := Some a\<rparr>))"
| drops: "m c = Some e \<Longrightarrow> ce_ended_op e \<noteq> None \<Longrightarrow> session_step (n, m) (n, m(c := None))"

definition protected :: "session_state \<Rightarrow> bool" where
  "protected s \<longleftrightarrow>
     (\<forall>c e. snd s c = Some e \<longrightarrow>
        ce_client_id e = c \<and> valid_metadata_protection e \<and> ce_latest_commit e \<le> fst s)"

text \<open>No two sessions share a handle.\<close>

definition handles_distinct :: "(u128 \<rightharpoonup> ClientEntry) \<Rightarrow> bool" where
  "handles_distinct m \<longleftrightarrow>
     (\<forall>c c' e e' a. m c = Some e \<longrightarrow> m c' = Some e' \<longrightarrow> ce_attachment e = Some a \<longrightarrow>
        ce_attachment e' = Some a \<longrightarrow> c = c')"

lemma session_step_handles:
  assumes "session_step s s'" and "handles_distinct (snd s)"
  shows "handles_distinct (snd s')"
  using assms
proof cases
  case (closes_user n k m u)
  have keeps: "ce_attachment (end_if u k e) = Some a \<Longrightarrow> ce_attachment e = Some a" for e a
    by (auto simp: end_if_def end_entry_def split: if_splits)
  show ?thesis
    unfolding handles_distinct_def closes_user(2) snd_conv
  proof (intro allI impI)
    fix c c' e e' a
    assume "map_option (end_if u k) (m c) = Some e" "map_option (end_if u k) (m c') = Some e'"
      "ce_attachment e = Some a" "ce_attachment e' = Some a"
    then obtain z z' where "m c = Some z" "m c' = Some z'"
        "ce_attachment (end_if u k z) = Some a" "ce_attachment (end_if u k z') = Some a"
      by auto
    with assms(2) keeps [of z a] keeps [of z' a] show "c = c'"
      unfolding closes_user(1) snd_conv handles_distinct_def by metis
  qed
qed (auto simp: handles_distinct_def registered_entry_def end_entry_def split: if_splits)

lemma store_reply_commit:
  assumes "valid_metadata_protection e" "accepts_reply u r e" "fresh_for e (cr_header r)"
  shows "ce_latest_commit (store_reply r e) = rp_commit (cr_header r)"
    and "last_opt (ce_ring (store_reply r e)) = Some r"
    and "find_cached (store_reply r e) (rp_request (cr_header r)) = Some r"
proof -
  obtain kept where kept: "store_reply r e = e\<lparr>ce_ring := kept @ [r], ce_latest_commit := rp_commit (cr_header r),
       ce_watermark := rp_request (cr_header r)\<rparr>"
      "\<And>x. x \<in> set kept \<Longrightarrow> rp_request (cr_header x) < rp_request (cr_header r)"
    by (rule store_reply_shape [OF assms(1), of r])
      (use assms(2,3) in \<open>auto simp: accepts_reply_def fresh_for_def\<close>)
  then show "ce_latest_commit (store_reply r e) = rp_commit (cr_header r)"
      "last_opt (ce_ring (store_reply r e)) = Some r"
    by simp_all
  have "find (\<lambda>cached. rp_request (cr_header cached) = rp_request (cr_header r)) kept = None"
    using kept(2) by (fastforce simp: find_None_iff)
  then have "find (\<lambda>cached. rp_request (cr_header cached) = rp_request (cr_header r)) (kept @ [r]) = Some r"
    by (induction kept) (auto split: if_splits)
  then show "find_cached (store_reply r e) (rp_request (cr_header r)) = Some r"
    by (simp add: find_cached_def kept(1))
qed

lemma session_step_protected:
  assumes "session_step s s'" and "protected s"
  shows "protected s' \<and> fst s \<le> fst s'"
  using assms
proof cases
  case (opens n reply c m u v)
  with assms(2) show ?thesis
    using registered_entry_valid [of c reply u v]
    by (auto simp: protected_def registered_entry_def dest: order_trans [OF _ order_less_imp_le])
next
  case (stores n reply m c e u)
  then have "valid_metadata_protection e" "ce_client_id e = c"
    using assms(2) by (auto simp: protected_def)
  with stores assms(2) show ?thesis
    using store_reply_valid [OF _ stores(5,6)] store_reply_commit(1) [OF _ stores(5,6)]
    by (auto simp: protected_def dest: order_trans)
next
  case (closes m c e n)
  with assms(2) show ?thesis
    using end_entry_valid [of e n] by (auto simp: protected_def end_entry_def)
next
  case (closes_user n k m u)
  have "valid_metadata_protection (end_if u k e)" if "valid_metadata_protection e" "ce_latest_commit e \<le> n" for e
    using that closes_user(3) end_entry_valid [of e k] by (auto simp: end_if_def)
  with closes_user assms(2) show ?thesis
    by (fastforce simp: protected_def)
qed (auto simp: protected_def attachment_valid dest: order_trans)

definition outlives :: "u64 \<Rightarrow> ClientEntry \<Rightarrow> ClientEntry \<Rightarrow> bool" where
  "outlives n e e' \<longleftrightarrow>
     ce_epoch e' = ce_epoch e \<and> ce_user_id e' = ce_user_id e \<and> ce_bind_verifier e' = ce_bind_verifier e \<and>
       ce_watermark e \<le> ce_watermark e' \<and> (ce_ended_op e = None \<or> ce_ended_op e' = ce_ended_op e) \<or>
     n < ce_epoch e'"

lemma session_step_outlives:
  assumes "session_step s s'" and "protected s" and "snd s' c = Some e'"
  shows "n \<le> fst s \<and> (\<exists>e1. snd s c = Some e1 \<and> outlives n e e1) \<Longrightarrow> outlives n e e'"
    and "n \<le> fst s \<Longrightarrow> snd s c = None \<Longrightarrow> n < ce_epoch e'"
  using assms
  by (auto elim!: session_step.cases simp: outlives_def registered_entry_def end_entry_def end_if_def
    accepts_reply_def split: if_splits dest: order_trans)

lemma session_steps_outlive:
  assumes "session_step\<^sup>*\<^sup>* s s'" and "protected s" and "snd s c = Some e"
  shows "protected s' \<and> fst s \<le> fst s' \<and> (\<forall>e'. snd s' c = Some e' \<longrightarrow> outlives (fst s) e e')"
  using assms(1)
proof induction
  case base
  with assms show ?case
    by (simp add: outlives_def)
next
  case (step s1 s2)
  then have "protected s2 \<and> fst s \<le> fst s2"
    using session_step_protected by (blast intro: order_trans)
  moreover have "outlives (fst s) e e'" if "snd s2 c = Some e'" for e'
  proof (cases "snd s1 c")
    case None
    then show ?thesis
      using session_step_outlives(2) [OF step(2) _ that] step.IH by (simp add: outlives_def)
  next
    case (Some e1)
    then show ?thesis
      using session_step_outlives(1) [OF step(2) _ that] step.IH by blast
  qed
  ultimately show ?case
    by blast
qed

section \<open>The table in log order\<close>

text \<open>
  The operations of the metadata plane as the replicated log applies them. The number is the last
  op applied. A registration has an op of its own; a reply is committed at its op, which may also
  have ended the user's sessions.
\<close>

inductive table_step :: "u64 \<times> ClientTable \<Rightarrow> u64 \<times> ClientTable \<Rightarrow> bool" where
  capacity: "commit_capacity cap t = Ok t' \<Longrightarrow> ct_index t = [] \<or> ct_capacity_committed t \<Longrightarrow>
    table_step (n, t) (n, t')"
| register: "n < rp_commit (cr_header reply) \<Longrightarrow> commit_register c u v reply t = Some (t', r) \<Longrightarrow>
    table_step (n, t) (rp_commit (cr_header reply), t')"
| reply: "n \<le> rp_commit (cr_header reply) \<Longrightarrow> (\<And>e. sessions t c = Some e \<Longrightarrow> fresh_for e (cr_header reply)) \<Longrightarrow>
    commit_reply c u reply t = Some (t', result) \<Longrightarrow>
    table_step (n, t) (rp_commit (cr_header reply), t')"
| logout: "n \<le> rp_commit (cr_header reply) \<Longrightarrow> (\<And>e. sessions t c = Some e \<Longrightarrow> fresh_for e (cr_header reply)) \<Longrightarrow>
    rp_operation (cr_header reply) = OpLogout \<Longrightarrow> rp_client (cr_header reply) = c \<Longrightarrow>
    commit_logout c u session reply t = Some (t', r') \<Longrightarrow>
    table_step (n, t) (rp_commit (cr_header reply), t')"
| end_user: "n < ended_op \<Longrightarrow> end_user_sessions u ended_op t = (t', ids) \<Longrightarrow> table_step (n, t) (ended_op, t')"
| finalize: "finalize_session identity t = Some (t', done) \<Longrightarrow> table_step (n, t) (n, t')"
| bind: "(\<And>e. e \<in> set (occupied t) \<Longrightarrow> ce_attachment e \<noteq> Some address) \<Longrightarrow>
    bind_session blake3 address c session secret t = Some (t', bound) \<Longrightarrow> table_step (n, t) (n, t')"

definition table_ok :: "u64 \<times> ClientTable \<Rightarrow> bool" where
  "table_ok s \<longleftrightarrow> table_wf (snd s) \<and> ct_mode (snd s) = Metadata \<and> protected (fst s, sessions (snd s)) \<and>
     handles_distinct (sessions (snd s))"

lemma commit_capacity_sessions:
  assumes wf: "table_wf t" and mode: "ct_mode t = Metadata" and "commit_capacity cap t = Ok t'"
    and "ct_index t = [] \<or> ct_capacity_committed t"
  shows "table_wf t' \<and> sessions t' = sessions t \<and> ct_mode t' = Metadata"
proof -
  have len: "length (ct_slots t) = ct_clients_max t"
    using table_wfD(3) [OF wf mode] .
  have t': "t' = t\<lparr>ct_clients_max := cap, ct_slots := resize_slots cap (ct_slots t), ct_capacity_committed := True\<rparr>"
    and cap: "ct_capacity_committed t \<longrightarrow> ct_clients_max t = cap"
    using assms(3) mode by (auto simp: commit_capacity_def preallocate_slots_def split: if_splits)
  show ?thesis
  proof (cases "ct_capacity_committed t")
    case True
    with cap len have "t' = t\<lparr>ct_capacity_committed := True\<rparr>"
      by (simp add: t' resize_slots_def)
    then show ?thesis
      using wf mode by (simp add: table_wf_def sessions_def [abs_def] slot_entry_def [abs_def])
  next
    case False
    with assms(4) have empty: "ct_index t = []"
      by simp
    have free: "slots ! i = None" if "slots = resize_slots cap (ct_slots t)" "i < length slots" for slots i
    proof -
      have "ct_slots t ! j = None" if "j < length (ct_slots t)" for j
        using slot_index [OF wf that] empty by (cases "ct_slots t ! j") auto
      with that show ?thesis
        by (auto simp: resize_slots_def nth_append)
    qed
    have "table_wf t'"
      by (rule table_wfI) (use free in \<open>auto simp: t' empty resize_slots_def\<close>)
    then show ?thesis
      using mode by (simp add: t' empty sessions_def fun_eq_iff)
  qed
qed

text \<open>The handle a bind returns is held by no other session.\<close>

lemma bound_handle_owner:
  assumes wf: "table_wf t" and dist: "handles_distinct (sessions t)"
    and fresh: "\<And>e. e \<in> set (occupied t) \<Longrightarrow> ce_attachment e \<noteq> Some address"
    and e: "sessions t c = Some e" "a = (case ce_attachment e of None \<Rightarrow> address | Some held \<Rightarrow> held)"
    and other: "sessions t c' = Some e'" "ce_attachment e' = Some a"
  shows "c' = c"
proof (cases "ce_attachment e")
  case None
  have "e' \<in> set (occupied t)"
    using other(1) sessions_iff [OF wf] by blast
  with None other(2) e(2) fresh show ?thesis
    by fastforce
next
  case (Some held)
  with other e dist show ?thesis
    unfolding handles_distinct_def by (metis option.simps(5))
qed

lemma bind_session_sessions:
  assumes wf: "table_wf t" and "bind_session blake3 address c session secret t = Some (t', bound)"
    and "handles_distinct (sessions t)" and fresh: "\<And>e. e \<in> set (occupied t) \<Longrightarrow> ce_attachment e \<noteq> Some address"
  shows "table_wf t' \<and> ct_mode t' = ct_mode t \<and> session_step\<^sup>*\<^sup>* (n, sessions t) (n, sessions t')"
proof -
  have "t' = t \<or> (\<exists>epoch u a. attach_session address c epoch u t = Some (t', a))"
    using assms(2) by (auto simp: bind_session_def Let_def split: option.splits sum.splits if_splits)
  then consider "t' = t" | epoch u a where "attach_session address c epoch u t = Some (t', a)"
    by blast
  then show ?thesis
  proof cases
    case 2
    from wf show ?thesis
    proof (cases rule: attach_session_sessions [of t c u epoch address])
      case (attached e a1 t1)
      have "c' = c" if "sessions t c' = Some e'" "ce_attachment e' = Some a1" for c' e'
        using bound_handle_owner [OF wf assms(3) fresh attached(1,5) that] .
      with attached have "session_step (n, sessions t) (n, sessions t1)"
        by (auto intro: attaches)
      with attached 2 show ?thesis
        by auto
    qed (use 2 wf in simp)
  qed (use wf in simp)
qed

lemma logout_sessions:
  assumes wf: "table_wf t" and mode: "ct_mode t = Metadata" and prot: "protected (n, sessions t)"
    and "n \<le> rp_commit (cr_header r)" and fresh: "\<And>e. sessions t c = Some e \<Longrightarrow> fresh_for e (cr_header r)"
    and op: "rp_operation (cr_header r) = OpLogout" and client: "rp_client (cr_header r) = c"
    and logout: "commit_logout c u session r t = Some (t', result)"
  shows "table_wf t' \<and> ct_mode t' = Metadata \<and>
    session_step\<^sup>*\<^sup>* (n, sessions t) (rp_commit (cr_header r), sessions t')"
proof (cases "sessions t c")
  case None
  then have "t' = t"
    using logout sessions_None [OF wf] by (auto simp: commit_logout_def)
  with assms show ?thesis
    by (auto intro: r_into_rtranclp idle)
next
  case (Some e)
  then have e: "valid_metadata_protection e" "ce_client_id e = c"
    using prot by (auto simp: protected_def)
  then have c: "c \<noteq> 0"
    by (auto simp: valid_protection_iff)
  from wf client c show ?thesis
  proof (cases rule: commit_reply_sessions [of t r c u])
    case (refused result')
    then have "t' = t"
      using logout by (auto simp: commit_logout_def split: option.splits if_splits)
    with assms show ?thesis
      by (auto intro: r_into_rtranclp idle)
  next
    case (stored e1 t1)
    let ?k = "rp_commit (cr_header r)" and ?e = "store_reply r e"
    note store = store_reply_commit [OF e(1) _ fresh [OF Some], of u]
    have acc: "accepts_reply u r e"
      using stored Some by simp
    have step: "session_step (n, sessions t) (?k, sessions t1)"
      using stored Some assms(4) fresh by (auto intro: stores)
    have "t' = t \<or> (\<exists>b. end_session c u session ?k t1 = Some (t', b) \<and> ce_ended_op e = None)"
      using logout stored(3) Some
      by (auto simp: commit_logout_def sessions_def bind_eq_Some_conv split: option.splits if_splits)
    then consider "t' = t" | b where "end_session c u session ?k t1 = Some (t', b)" "ce_ended_op e = None"
      by blast
    then show ?thesis
    proof cases
      case 1
      with assms show ?thesis
        by (auto intro: r_into_rtranclp idle)
    next
      case 2
      from stored(4) show ?thesis
      proof (cases rule: end_session_sessions [of t1 c u session ?k])
        case (ended e2 t2)
        then have "e2 = ?e"
          using stored Some by simp
        have "session_step (?k, sessions t1) (?k, (sessions t1)(c \<mapsto> end_entry ?k ?e))"
          by (rule closes) (use stored(7) Some stored(1) 2(2) store(1,2) [OF acc] op in \<open>simp_all add: ends_session_def\<close>)
        moreover have "t' = t2"
          using ended(5) 2(1) by simp
        ultimately have "session_step (?k, sessions t1) (?k, sessions t')"
          using ended(9) \<open>e2 = ?e\<close> by simp
        with step have "session_step\<^sup>*\<^sup>* (n, sessions t) (?k, sessions t')"
          by (meson r_into_rtranclp rtranclp.rtrancl_into_rtrancl)
        with ended(6,7) stored(5) mode \<open>t' = t2\<close> show ?thesis
          by simp
      next
        case refused
        with 2 stored step mode show ?thesis
          by (auto intro: r_into_rtranclp)
      qed
    qed
  qed
qed

lemma table_step_refines:
  assumes "table_step s s'" and "table_ok s"
  shows "table_wf (snd s') \<and> ct_mode (snd s') = Metadata \<and>
    session_step\<^sup>*\<^sup>* (fst s, sessions (snd s)) (fst s', sessions (snd s'))"
  using assms(1)
proof cases
  case (capacity cap t t' n)
  with assms(2) commit_capacity_sessions [of t cap t'] show ?thesis
    by (auto simp: table_ok_def)
next
  case (register n reply c u v t t' r)
  then have wf: "table_wf t" "ct_mode t = Metadata"
    using assms(2) by (simp_all add: table_ok_def)
  from wf(1) show ?thesis
    by (cases rule: commit_register_sessions [of t c reply u v])
      (use wf register in \<open>auto intro: r_into_rtranclp idle [OF order_less_imp_le] opens\<close>)
next
  case (reply n r t c u t' result)
  then have wf: "table_wf t" "ct_mode t = Metadata"
    using assms(2) by (simp_all add: table_ok_def)
  have "t' = t \<or> rp_client (cr_header r) = c \<and> c \<noteq> 0"
    using reply(5) by (auto simp: commit_reply_def RESERVED_CLIENT_ID_def Let_def split: if_splits)
  then consider "t' = t" | "rp_client (cr_header r) = c" "c \<noteq> 0"
    by blast
  then show ?thesis
  proof cases
    case 2
    with wf(1) show ?thesis
      by (cases rule: commit_reply_sessions [of t r c u])
        (use wf reply in \<open>auto intro: r_into_rtranclp idle stores\<close>)
  qed (use wf reply in \<open>auto intro: r_into_rtranclp idle\<close>)
next
  case (logout n r t c u session t' r')
  then have wf: "table_wf t" "ct_mode t = Metadata" and prot: "protected (n, sessions t)"
    using assms(2) by (simp_all add: table_ok_def)
  show ?thesis
    using logout_sessions [OF wf prot logout(3-7)] logout(1,2) by simp
next
  case (end_user n k u t t' ids)
  then have "table_wf t" "ct_mode t = Metadata"
    using assms(2) by (simp_all add: table_ok_def)
  with end_user_sessions_sessions [OF _ end_user(4)] end_user show ?thesis
    by (auto intro: r_into_rtranclp closes_user)
next
  case (finalize identity t t' b n)
  then have wf: "table_wf t" "ct_mode t = Metadata"
    using assms(2) by (simp_all add: table_ok_def)
  from wf(1) show ?thesis
    by (cases rule: finalize_session_sessions [of t identity])
      (use wf finalize in \<open>auto intro: r_into_rtranclp drops\<close>)
next
  case (bind t address blake3 c session secret t' bound n)
  with assms(2) bind_session_sessions [OF _ bind(4) _ bind(3), of n] show ?thesis
    by (simp add: table_ok_def)
qed

lemma table_steps_refine:
  assumes "table_step\<^sup>*\<^sup>* s s'" and "table_ok s"
  shows "table_ok s' \<and> session_step\<^sup>*\<^sup>* (fst s, sessions (snd s)) (fst s', sessions (snd s'))"
  using assms(1)
proof induction
  case base
  with assms show ?case
    by simp
next
  case (step s1 s2)
  from table_step_refines [OF step(2)] step.IH
  have two: "table_wf (snd s2)" "ct_mode (snd s2) = Metadata"
      "session_step\<^sup>*\<^sup>* (fst s1, sessions (snd s1)) (fst s2, sessions (snd s2))"
    by simp_all
  have "protected (fst s1, sessions (snd s1))"
    using step.IH by (simp add: table_ok_def)
  moreover have "protected y" if "session_step\<^sup>*\<^sup>* x y" "protected x" for x y
    using that by induction (auto dest: session_step_protected)
  moreover have "handles_distinct (snd y)" if "session_step\<^sup>*\<^sup>* x y" "handles_distinct (snd x)" for x y
    using that by induction (auto dest: session_step_handles)
  ultimately have "table_ok s2"
    using two step.IH unfolding table_ok_def by fastforce
  then show ?case
    using step.IH two(3) by auto
qed

lemma table_ok_new: "table_ok (0, table_new cap)"
proof -
  have "table_wf (table_new cap)"
    by (rule table_wfI) (simp_all add: table_new_def with_mode_def preallocate_slots_def)
  moreover have "sessions (table_new cap) = Map.empty"
    by (simp add: table_new_def with_mode_def sessions_def fun_eq_iff)
  ultimately show ?thesis
    by (simp add: table_ok_def protected_def handles_distinct_def table_new_def with_mode_def)
qed

lemmas reachable_ok = table_steps_refine [OF _ table_ok_new, THEN conjunct1]

lemma check_request_sessions:
  assumes "table_wf t" and "ct_mode t = Metadata" and "c \<noteq> 0"
  shows "check_request t c epoch request operation \<noteq> None"
    and "check_request t c epoch request operation = Some StatusNew \<Longrightarrow>
      \<exists>e. sessions t c = Some e \<and> ce_ended_op e = None \<and> ce_epoch e = epoch \<and> ce_watermark e < request"
proof -
  have "check_request t c epoch request operation \<noteq> None \<and>
    (check_request t c epoch request operation = Some StatusNew \<longrightarrow>
      (\<exists>e. sessions t c = Some e \<and> ce_ended_op e = None \<and> ce_epoch e = epoch \<and> ce_watermark e < request))"
  proof (cases "map_of (ct_index t) c")
    case None
    with assms(3) show ?thesis
      by (simp add: check_request_def RESERVED_CLIENT_ID_def)
  next
    case (Some slot)
    then obtain e where "slot_entry t slot = Some e" "sessions t c = Some e"
      by (rule index_slot [OF assms(1)])
    with Some assms(2,3) show ?thesis
      by (auto simp: check_request_def RESERVED_CLIENT_ID_def fence_epoch_def split: if_splits option.splits)
  qed
  then show "check_request t c epoch request operation \<noteq> None"
    "check_request t c epoch request operation = Some StatusNew \<Longrightarrow>
      \<exists>e. sessions t c = Some e \<and> ce_ended_op e = None \<and> ce_epoch e = epoch \<and> ce_watermark e < request"
    by blast+
qed

section \<open>Exactly-once requests\<close>

text \<open>
  C4. A request is executed at most once. Take any run of the client table in log order, and a
  session in it whose committed watermark covers a request. However the run goes on, with other
  clients registering, sessions ending, identities being removed and registered again, the table
  never answers that the request of that session is new; it always gives an answer.
\<close>

theorem at_most_once:
  assumes "table_step\<^sup>*\<^sup>* (0, table_new cap) (n, t)" and "table_step\<^sup>*\<^sup>* (n, t) (n', t')"
    and e: "sessions t c = Some e" "request \<le> ce_watermark e"
  shows "\<exists>status. check_request t' c (ce_epoch e) request operation = Some status \<and> status \<noteq> StatusNew"
proof -
  have ok: "table_ok (n, t)"
    using reachable_ok [OF assms(1)] .
  then have prot: "protected (n, sessions t)"
    by (simp add: table_ok_def)
  from table_steps_refine [OF assms(2) ok] have ok': "table_ok (n', t')"
      and run: "session_step\<^sup>*\<^sup>* (n, sessions t) (n', sessions t')"
    by simp_all
  from e prot have valid: "valid_metadata_protection e" "ce_client_id e = c" "ce_latest_commit e \<le> n"
    by (auto simp: protected_def)
  then have "c \<noteq> 0" and "ce_epoch e \<le> n"
    by (auto simp: valid_protection_iff intro: order_trans)
  moreover have "outlives n e e'" if "sessions t' c = Some e'" for e'
    using session_steps_outlive [OF run prot, of c e] e(1) that by simp
  ultimately have "check_request t' c (ce_epoch e) request operation \<noteq> Some StatusNew"
    using check_request_sessions(2) [of t' c "ce_epoch e" request operation] ok' e(2)
    by (fastforce simp: table_ok_def outlives_def)
  with check_request_sessions(1) [of t' c "ce_epoch e" request operation] ok' \<open>c \<noteq> 0\<close> show ?thesis
    by (auto simp: table_ok_def)
qed

text \<open>
  C27. A retry of a committed request gets the original answer. Once the reply of a live session has
  been committed, checking the same request of the same operation returns that very reply, and
  checking it under another operation reports the mismatch instead of the reply.
\<close>

theorem reply_replayed:
  assumes "table_step\<^sup>*\<^sup>* (0, table_new cap) (n, t)" and "sessions t c = Some e" and "ce_ended_op e = None"
    and "fresh_for e (cr_header reply)" and "commit_reply c u reply t = Some (t', Cached)"
  shows "check_request t' c (ce_epoch e) (rp_request (cr_header reply)) operation =
    Some (if request_operation operation = request_operation (rp_operation (cr_header reply))
          then Duplicate reply else OperationMismatch (rp_request (cr_header reply)))"
proof -
  have ok: "table_wf t" "ct_mode t = Metadata" "protected (n, sessions t)"
    using reachable_ok [OF assms(1)] by (simp_all add: table_ok_def)
  then have e: "valid_metadata_protection e" "ce_client_id e = c"
    using assms(2) by (auto simp: protected_def)
  then have c: "c \<noteq> 0" "rp_client (cr_header reply) = c"
    using assms(4) by (auto simp: valid_protection_iff fresh_for_def)
  from ok(1) c(2,1) obtain e' where acc: "accepts_reply u reply e" and t': "table_wf t'"
      "ct_mode t' = Metadata" and e': "sessions t' c = Some e'" "e' = store_reply reply e"
    using assms(2,5) ok(2) by (cases rule: commit_reply_sessions [of t reply c u]) auto
  obtain slot where "map_of (ct_index t') c = Some slot" "slot_entry t' slot = Some e'"
    using e'(1) by (auto simp: sessions_def bind_eq_Some_conv)
  moreover have "find_cached e' (rp_request (cr_header reply)) = Some reply"
    using store_reply_commit(3) [OF e(1) acc assms(4)] by (simp add: e')
  ultimately show ?thesis
    using c(1) t' assms(3) by (simp add: check_request_def RESERVED_CLIENT_ID_def fence_epoch_def e')
qed

section \<open>Consistency and sessions\<close>

lemma entry_of_sessions: "table_wf t \<Longrightarrow> entry_of t c = Some (sessions t c)"
  by (cases "map_of (ct_index t) c") (auto simp: entry_of_def sessions_def elim!: index_slot)

lemma attachment_is_valid_iff:
  assumes "table_wf t"
  shows "attachment_is_valid t a \<longleftrightarrow> (\<exists>c e. sessions t c = Some e \<and> ce_attachment e = Some (at_session a))"
  using sessions_iff [OF assms] unfolding attachment_is_valid_def list_ex_iff by blast

lemma registered_session_total: "table_wf t \<Longrightarrow> registered_session t c u v \<noteq> None"
  by (cases "map_of (ct_index t) c") (auto simp: registered_session_def elim!: index_slot)

lemma attach_session_total: "table_wf t \<Longrightarrow> attach_session address c session u t \<noteq> None"
  by (cases rule: attach_session_sessions [of t c u session address]) simp_all

lemma bind_session_total: "table_wf t \<Longrightarrow> bind_session blake3 address c session secret t \<noteq> None"
  by (auto simp: bind_session_def get_user_id_def entry_of_sessions Let_def
    registered_session_total attach_session_total
    split: option.splits sum.splits)

lemma commit_logout_total:
  assumes wf: "table_wf t" and "protected (n, sessions t)" and client: "rp_client (cr_header reply) = c"
  shows "commit_logout c u session reply t \<noteq> None"
proof (cases "map_of (ct_index t) c")
  case None
  then show ?thesis
    by (simp add: commit_logout_def)
next
  case (Some slot)
  then obtain e where e: "slot_entry t slot = Some e" "sessions t c = Some e"
    by (rule index_slot [OF wf])
  with assms(2) have "c \<noteq> 0"
    by (auto simp: protected_def valid_protection_iff)
  have ends: "end_session c u session k t1 \<noteq> None" if "table_wf t1" for k t1
    using that by (cases rule: end_session_sessions [of t1 c u session k]) simp_all
  from wf client \<open>c \<noteq> 0\<close> show ?thesis
    by (cases rule: commit_reply_sessions [of t reply c u]) (use Some e ends in \<open>auto simp: commit_logout_def\<close>)
qed

text \<open>
  C28. The table stays consistent. In every state that a run in log order reaches, the index and the
  slots name the same clients, each exactly once and no more of them than the capacity; the lookups
  return the session of the client's slot; every session's protection passes the check that the
  decoders apply; and none of the operations can hit one of its panics.
\<close>

theorem table_consistent:
  assumes "table_step\<^sup>*\<^sup>* (0, table_new cap) (n, t)"
  shows "distinct (client_ids t) \<and> count t = length (client_ids t) \<and> count t \<le> capacity t \<and>
    (\<forall>e \<in> set (occupied t).
       valid_metadata_protection e \<and> get_user_id t (ce_client_id e) = Some (Some (ce_user_id e)) \<and>
       get_watermark t (ce_client_id e) = Some (Some (ce_watermark e))) \<and>
    commit_register c u v reply t \<noteq> None \<and>
    (rp_client (cr_header reply) = c \<longrightarrow>
       commit_reply c u reply t \<noteq> None \<and> commit_logout c u session reply t \<noteq> None) \<and>
    finalize_session identity t \<noteq> None \<and> bind_session blake3 address c session secret t \<noteq> None"
proof -
  have wf: "table_wf t" and prot: "protected (n, sessions t)"
    using reachable_ok [OF assms] by (simp_all add: table_ok_def)
  note distinct = occupied_distinct [OF wf]
  have "count t \<le> capacity t"
    using count_le [OF wf] table_wfD(2) [OF wf] by (simp add: count_def capacity_def)
  moreover have "valid_metadata_protection e \<and> get_user_id t (ce_client_id e) = Some (Some (ce_user_id e)) \<and>
       get_watermark t (ce_client_id e) = Some (Some (ce_watermark e))" if "e \<in> set (occupied t)" for e
  proof -
    have "sessions t (ce_client_id e) = Some e"
      using that sessions_iff [OF wf] by blast
    moreover from this have "valid_metadata_protection e"
      using prot unfolding protected_def snd_conv by blast
    ultimately show ?thesis
      by (simp add: get_user_id_def get_watermark_def entry_of_sessions [OF wf])
  qed
  moreover have "commit_register c u v reply t \<noteq> None"
    using wf by (cases rule: commit_register_sessions [of t c reply u v]) simp_all
  moreover have reply: "commit_reply c u reply t \<noteq> None" if "rp_client (cr_header reply) = c"
  proof (cases "c = 0")
    case True
    with that show ?thesis
      by (simp add: commit_reply_def RESERVED_CLIENT_ID_def Let_def)
  next
    case False
    with wf that show ?thesis
      by (cases rule: commit_reply_sessions [of t reply c u]) simp_all
  qed
  moreover have "commit_logout c u session reply t \<noteq> None" if "rp_client (cr_header reply) = c"
    using commit_logout_total [OF wf prot that] .
  moreover have "finalize_session identity t \<noteq> None"
    using wf by (cases rule: finalize_session_sessions [of t identity]) simp_all
  moreover have "bind_session blake3 address c session secret t \<noteq> None"
    using bind_session_total [OF wf] .
  ultimately show ?thesis
    using distinct by (auto simp: client_ids_def count_def)
qed


section \<open>A run\<close>

definition sample_reply :: "u128 \<Rightarrow> u64 \<Rightarrow> u64 \<Rightarrow> Operation \<Rightarrow> CachedReply" where
  "sample_reply client request commit operation =
     \<lparr>cr_header = default_ReplyHeader\<lparr>fr_command := CmdReply, fr_size := 256, rp_client := client,
        rp_request := request, rp_commit := commit, rp_operation := operation\<rparr>, cr_rest = []\<rparr>"

definition sample_t1 :: ClientTable where
  "sample_t1 = fst (the (commit_register 7 5 (replicate 32 1) (sample_reply 7 0 1 OpRegister) (table_new 2)))"

definition sample_t2 :: ClientTable where
  "sample_t2 = fst (the (commit_reply 7 5 (sample_reply 7 3 2 OpCreateStream) sample_t1))"

lemma sample_sessions:
  "sessions sample_t1 7 = Some (registered_entry 7 5 (replicate 32 1) (sample_reply 7 0 1 OpRegister))"
  "sessions sample_t2 7 = Some (store_reply (sample_reply 7 3 2 OpCreateStream)
     (registered_entry 7 5 (replicate 32 1) (sample_reply 7 0 1 OpRegister)))"
  by code_simp+

lemma sample_fresh:
  "fresh_for (registered_entry 7 5 (replicate 32 1) (sample_reply 7 0 1 OpRegister))
     (cr_header (sample_reply 7 3 2 OpCreateStream))"
  by code_simp

lemma sample_step1: "table_step (0, table_new 2) (1, sample_t1)"
proof -
  have "commit_register 7 5 (replicate 32 1) (sample_reply 7 0 1 OpRegister) (table_new 2) = Some (sample_t1, Ok ())"
    by code_simp
  moreover have "rp_commit (cr_header (sample_reply 7 0 1 OpRegister)) = 1"
    by code_simp
  ultimately show ?thesis
    using register [of 0 "sample_reply 7 0 1 OpRegister"] by simp
qed

lemma sample_committed: "commit_reply 7 5 (sample_reply 7 3 2 OpCreateStream) sample_t1 = Some (sample_t2, Cached)"
  by code_simp

lemma sample_step2: "table_step (1, sample_t1) (2, sample_t2)"
proof -
  have "rp_commit (cr_header (sample_reply 7 3 2 OpCreateStream)) = 2"
    by code_simp
  moreover have "fresh_for e (cr_header (sample_reply 7 3 2 OpCreateStream))" if "sessions sample_t1 7 = Some e" for e
    using that sample_fresh by (simp add: sample_sessions)
  ultimately show ?thesis
    using table_step.reply [of 1 "sample_reply 7 3 2 OpCreateStream" sample_t1 7] sample_committed by simp
qed

theorem at_most_once_witness:
  "\<exists>status. check_request sample_t2 7 1 2 OpCreateTopic = Some status \<and> status \<noteq> StatusNew"
proof -
  let ?e = "store_reply (sample_reply 7 3 2 OpCreateStream)
     (registered_entry 7 5 (replicate 32 1) (sample_reply 7 0 1 OpRegister))"
  have run: "table_step\<^sup>*\<^sup>* (0, table_new 2) (2, sample_t2)"
    using sample_step1 sample_step2 by (meson rtranclp.intros)
  have "ce_epoch ?e = 1" "2 \<le> ce_watermark ?e"
    by code_simp+
  with at_most_once [OF run rtranclp.rtrancl_refl sample_sessions(2), of 2 OpCreateTopic] show ?thesis
    by simp
qed

theorem reply_replayed_witness:
  "check_request sample_t2 7 1 3 OpCreateStream = Some (Duplicate (sample_reply 7 3 2 OpCreateStream))"
proof -
  let ?e = "registered_entry 7 5 (replicate 32 1) (sample_reply 7 0 1 OpRegister)"
  have run: "table_step\<^sup>*\<^sup>* (0, table_new 2) (1, sample_t1)"
    using sample_step1 by (rule r_into_rtranclp)
  have "ce_ended_op ?e = None" "ce_epoch ?e = 1" "rp_request (cr_header (sample_reply 7 3 2 OpCreateStream)) = 3"
      "rp_operation (cr_header (sample_reply 7 3 2 OpCreateStream)) = OpCreateStream"
    by code_simp+
  with reply_replayed [OF run sample_sessions(1) _ sample_fresh sample_committed, of OpCreateStream] show ?thesis
    by simp
qed

theorem table_consistent_witness:
  "count sample_t1 = 1 \<and> count sample_t1 \<le> capacity sample_t1 \<and> distinct (client_ids sample_t1)"
  using table_consistent [OF r_into_rtranclp [of table_step, OF sample_step1]]
  by (intro conjI) (code_simp | blast)+


end
