(* ===== verification/Client_Table_Slice.thy ===== *)
theory Client_Table_Slice
  imports Client_Table_Inv
begin

text \<open>
  The window of committed requests of a partition slice. The code keeps the highest committed
  request and 128 bits below it; the specification keeps the set of all committed requests.
\<close>

section \<open>The window as a set\<close>

definition slice_spec :: "u64 set \<Rightarrow> u64 \<Rightarrow> SliceRequestStatus" where
  "slice_spec S request =
     (if Max S < request then SliceNew
      else if 128 \<le> unat (Max S) - unat request then SliceAgedOut
      else if request \<in> S then SliceCommitted else SliceNew)"

definition window_of :: "u64 set \<Rightarrow> ClientEntry \<Rightarrow> bool" where
  "window_of S e \<longleftrightarrow>
     ce_watermark e = Max S \<and>
     (\<forall>request \<le> Max S. unat (Max S) - unat request < 128 \<longrightarrow>
        bit (ce_committed_window e) (unat (Max S) - unat request) = (request \<in> S)) \<and>
     (\<forall>i < 128. unat (Max S) < i \<longrightarrow> \<not> bit (ce_committed_window e) i)"

lemma window_bit: "n < 128 \<Longrightarrow> (w :: u128) AND push_bit n 1 = 0 \<longleftrightarrow> \<not> bit w n"
  by (simp add: push_bit_eq_mult and_exp_eq_0_iff_not_bit)

lemma unat_window_bits [simp]: "unat COMMITTED_WINDOW_BITS = 128"
  by (simp add: COMMITTED_WINDOW_BITS_def)

lemma check_slice_window:
  assumes "window_of S e"
  shows "check_slice_request e request = slice_spec S request"
proof (cases "request \<le> Max S")
  case True
  then have "unat (Max S - request) = unat (Max S) - unat request"
    by (rule unat_sub)
  with True assms window_bit [of "unat (Max S) - unat request" "ce_committed_window e"] show ?thesis
    by (auto simp: check_slice_request_def slice_spec_def window_of_def Let_def word_le_nat_alt)
qed (use assms in \<open>simp add: check_slice_request_def slice_spec_def window_of_def not_le\<close>)

lemma window_new:
  "window_of {request} (watermark_only c u request 1 k)"
  unfolding window_of_def
proof (intro conjI allI impI)
  fix r :: u64
  assume "r \<le> Max {request}" "unat (Max {request}) - unat r < 128"
  then have "unat request - unat r = 0 \<longleftrightarrow> r = request"
    by (auto simp: word_le_nat_alt word_unat_eq_iff)
  then show "bit (ce_committed_window (watermark_only c u request 1 k)) (unat (Max {request}) - unat r) = (r \<in> {request})"
    by (simp add: watermark_only_def bit_1_iff)
qed (auto simp: watermark_only_def bit_1_iff)

lemma window_shift:
  assumes "window_of S e" and "finite S" and "S \<noteq> {}" and above: "Max S < request"
  shows "window_of (insert request S) (fold_request request k e)"
proof -
  let ?W = "ce_committed_window e" and ?M = "unat (Max S)" and ?r = "unat request"
  let ?W' = "if 128 \<le> ?r - ?M then 1 else push_bit (?r - ?M) ?W OR 1"
  have lt: "?M < ?r"
    using above by (simp add: word_less_nat_alt)
  have max: "Max (insert request S) = request"
    using Max_insert [OF assms(2,3)] above by (metis max_absorb1 order_less_imp_le)
  have gap: "unat (request - Max S) = ?r - ?M"
    using above by (intro unat_sub) simp
  have e': "fold_request request k e =
      e\<lparr>ce_committed_window := ?W', ce_watermark := request, ce_latest_commit := k\<rparr>"
    using assms(1) above gap by (simp add: fold_request_def window_of_def Let_def word_le_nat_alt)
  have bit': "bit ?W' n \<longleftrightarrow> n = 0 \<or> ?r - ?M < 128 \<and> ?r - ?M \<le> n \<and> bit ?W (n - (?r - ?M))" if "n < 128" for n
    using that by (auto simp: bit_or_iff bit_push_bit_iff bit_1_iff)
  have in_S: "bit ?W (?M - unat q) = (q \<in> S)" if "q \<le> Max S" "?M - unat q < 128" for q
    using assms(1) that by (simp add: window_of_def)
  have below: "q \<le> Max S" if "q \<in> S" for q
    using that assms(2) by simp
  have "bit ?W' (?r - unat q) = (q \<in> insert request S)" if "q \<le> request" "?r - unat q < 128" for q
  proof -
    have "?r - unat q = 0 \<longleftrightarrow> q = request"
      using that(1) by (auto simp: word_le_nat_alt word_unat_eq_iff)
    moreover have "?r - ?M \<le> ?r - unat q \<longleftrightarrow> q \<le> Max S"
      using lt that(1) by (auto simp: word_le_nat_alt)
    moreover have "?r - unat q - (?r - ?M) = ?M - unat q" "?r - ?M < 128" "?M - unat q < 128" if "q \<le> Max S"
      using lt that \<open>?r - unat q < 128\<close> by (auto simp: word_le_nat_alt)
    ultimately show ?thesis
      using bit' [OF that(2)] in_S [of q] below [of q] by auto
  qed
  moreover have "\<not> bit ?W' i" if "i < 128" "?r < i" for i
    using bit' [OF that(1)] that lt assms(1) by (auto simp: window_of_def)
  ultimately show ?thesis
    unfolding window_of_def max e' by simp
qed

lemma window_mark:
  assumes "window_of S e" and "finite S" and "S \<noteq> {}" and below: "request \<le> Max S"
  shows "window_of (insert request S) (fold_request request k e)"
proof -
  let ?W = "ce_committed_window e" and ?M = "unat (Max S)" and ?b = "unat (Max S) - unat request"
  have max: "Max (insert request S) = Max S"
    using Max_insert [OF assms(2,3)] below by (metis max_absorb2)
  have w: "ce_watermark e = Max S"
    using assms(1) by (simp add: window_of_def)
  have gap: "unat (Max S - request) = ?b"
    using below by (rule unat_sub)
  show ?thesis
  proof (cases "?b < 128 \<and> \<not> bit ?W ?b")
    case True
    then have e': "fold_request request k e =
        e\<lparr>ce_committed_window := ?W OR push_bit ?b 1, ce_latest_commit := max (ce_latest_commit e) k\<rparr>"
      using below gap w window_bit [of ?b ?W]
      by (simp add: fold_request_def Let_def word_less_nat_alt word_le_nat_alt)
    have "bit (?W OR push_bit ?b 1) n \<longleftrightarrow> bit ?W n \<or> n = ?b" if "n < 128" for n
      using that by (auto simp: bit_or_iff push_bit_eq_mult bit_exp_iff)
    moreover have "?M - unat q = ?b \<longleftrightarrow> q = request" if "q \<le> Max S" for q
      using that below by (auto simp: word_le_nat_alt word_unat_eq_iff)
    ultimately show ?thesis
      using assms(1) below unfolding window_of_def max e' by (auto simp: word_le_nat_alt)
  next
    case False
    then have "fold_request request k e = e"
      using below gap w window_bit [of ?b ?W]
      by (auto simp: fold_request_def Let_def word_less_nat_alt word_le_nat_alt)
    moreover have "request \<in> S" if "?b < 128"
      using that False assms(1) below by (auto simp: window_of_def)
    ultimately show ?thesis
      using assms(1) unfolding window_of_def max by auto
  qed
qed

lemma window_fold:
  "window_of S e \<Longrightarrow> finite S \<Longrightarrow> S \<noteq> {} \<Longrightarrow> window_of (insert request S) (fold_request request k e)"
  using window_shift [of S e request k] window_mark [of S e request k] not_less [of "Max S" request] by blast

section \<open>The slice as a table\<close>

lemma commit_request_sessions:
  assumes wf: "table_wf t" and "c \<noteq> 0"
  obtains (folded) e t' where "sessions t c = Some e" "ce_user_id e = u"
      "commit_request c u request k t = Some (t', Ok ())" "table_wf t'" "ct_clients_max t' = ct_clients_max t"
      "sessions t' = (sessions t)(c \<mapsto> fold_request request k e)"
  | (created) t' where "sessions t c = None" "count t < capacity t"
      "commit_request c u request k t = Some (t', Ok ())" "table_wf t'" "ct_clients_max t' = ct_clients_max t"
      "sessions t' = (sessions t)(c \<mapsto> watermark_only c u request 1 k)"
  | (refused) err where "commit_request c u request k t = Some (t, Err err)"
      "sessions t c = None \<Longrightarrow> capacity t \<le> count t" "\<And>e. sessions t c = Some e \<Longrightarrow> ce_user_id e \<noteq> u"
proof (cases "map_of (ct_index t) c")
  case (Some slot)
  then obtain e where e: "slot_entry t slot = Some e" "sessions t c = Some e" "ce_client_id e = c"
    by (rule index_slot [OF wf])
  show ?thesis
  proof (cases "ce_user_id e = u")
    case True
    have "ce_client_id (fold_request request k e) = c"
      using e(3) by (simp add: fold_request_def Let_def)
    from put_entry_sessions [OF wf Some this] True e Some assms(2) show ?thesis
      by (intro folded [of e "put_entry slot (fold_request request k e) t"]) (simp_all add: commit_request_def)
  next
    case False
    with e Some assms(2) show ?thesis
      by (intro refused [of "InvalidWatermark c"]) (simp_all add: commit_request_def)
  qed
next
  case None
  then have new: "sessions t c = None"
    using sessions_None [OF wf] by simp
  show ?thesis
  proof (cases "count t < capacity t")
    case False
    with None new assms(2) show ?thesis
      by (intro refused [of "TooManyEntries (saturate_u32 (length (ct_index t) + 1)) (ct_clients_max t)"])
        (simp_all add: commit_request_def count_def capacity_def)
  next
    case True
    obtain t1 r where free: "first_free_slot t = (t1, r)"
      by fastforce
    note sound = first_free_slot_sound [OF wf free]
    obtain slot where r: "r = Some slot"
      using sound(8) True by (auto simp: count_def capacity_def)
    let ?e = "watermark_only c u request 1 k"
    let ?t = "(put_entry slot ?e t1)\<lparr>ct_index := AList.update c slot (ct_index t1)\<rparr>"
    have ins: "table_wf ?t" "sessions ?t = (sessions t)(c \<mapsto> ?e)"
      using insert_sessions [OF sound(1), of c slot ?e] sound(2,3) sound(7) [OF r] None
      by (simp_all add: watermark_only_def)
    have "commit_request c u request k t = Some (?t, Ok ())"
      using None assms(2) True by (simp add: commit_request_def free r count_def capacity_def put_entry_def)
    with ins new True sound(4) show ?thesis
      by (intro created) simp_all
  qed
qed

fun commit_requests :: "u128 \<Rightarrow> u32 \<Rightarrow> (u64 \<times> u64) list \<Rightarrow> ClientTable \<Rightarrow> ClientTable option" where
  "commit_requests c u [] t = Some t"
| "commit_requests c u ((request, commit_op) # requests) t =
     (case commit_request c u request commit_op t of
        Some (t', Inr _) \<Rightarrow> commit_requests c u requests t'
      | _ \<Rightarrow> None)"

lemma commit_requests_window:
  assumes "table_wf t" and "c \<noteq> 0" and "sessions t c = Some e" and "ce_user_id e = u"
    and "window_of S e" and "finite S" and "S \<noteq> {}"
  shows "\<exists>t' e'. commit_requests c u requests t = Some t' \<and> sessions t' c = Some e' \<and>
    window_of (S \<union> fst ` set requests) e'"
  using assms
proof (induction requests arbitrary: t e S)
  case (Cons rk requests)
  obtain request k where rk: "rk = (request, k)"
    by fastforce
  from Cons.prems(1,2) show ?case
  proof (cases rule: commit_request_sessions [of t c u request k])
    case (folded e1 t1)
    then have "sessions t1 c = Some (fold_request request k e)" "ce_user_id (fold_request request k e) = u"
      using Cons.prems(3) by (simp_all add: fold_request_def Let_def)
    from Cons.IH [OF folded(4) Cons.prems(2) this window_fold [OF Cons.prems(5-7)]] folded(3) Cons.prems(6)
    show ?thesis
      by (simp add: rk)
  qed (use Cons.prems in auto)
qed auto

text \<open>
  C30. The 128-bit window is exact. However the committed requests of a client arrive at a partition
  slice, in any order and with repetitions, each is accepted, and afterwards every request number is
  classified as the set of committed requests says: new above the highest, of unknown outcome 128 or
  more below it, and in between committed if and only if it was committed.
\<close>

theorem slice_window_exact:
  assumes "table_wf t" and "c \<noteq> 0" and "sessions t c = None" and "count t < capacity t" and "requests \<noteq> []"
  shows "\<exists>t' e. commit_requests c u requests t = Some t' \<and> sessions t' c = Some e \<and>
    (\<forall>request. check_slice_request e request = slice_spec (fst ` set requests) request)"
proof -
  obtain request k rest where requests: "requests = (request, k) # rest"
    using assms(5) by (metis list.exhaust surj_pair)
  from assms(1,2) show ?thesis
  proof (cases rule: commit_request_sessions [of t c u request k])
    case (created t1)
    have "sessions t1 c = Some (watermark_only c u request 1 k)" "ce_user_id (watermark_only c u request 1 k) = u"
      using created(6) by (simp_all add: watermark_only_def)
    from commit_requests_window [OF created(4) assms(2) this window_new, of rest] created(3) show ?thesis
      by (auto simp: requests check_slice_window)
  qed (use assms in auto)
qed

theorem slice_window_exact_witness:
  "\<exists>t' e. commit_requests 7 5 [(3, 1), (9, 2), (4, 3)] (with_mode 2 PartitionSlice) = Some t' \<and>
     sessions t' 7 = Some e \<and>
     (\<forall>request. check_slice_request e request = slice_spec {3, 9, 4} request)"
proof -
  have "table_wf (with_mode 2 PartitionSlice)"
    by (rule table_wfI) (simp_all add: with_mode_def preallocate_slots_def)
  from slice_window_exact [OF this, of 7 "[(3, 1), (9, 2), (4, 3)]" 5] show ?thesis
    by (simp add: with_mode_def sessions_def count_def capacity_def)
qed

end
