(* ===== verification/Client_Table_Wire.thy ===== *)
theory Client_Table_Wire
  imports Client_Table
begin

text \<open>
  The two serialised forms of the client table (\<open>src/core/consensus/src/client_table.rs\<close>): the
  checkpoint snapshot, as the structure that is serialised, and the byte format of a state
  transfer. An outer \<open>None\<close> is a panic.
\<close>

section \<open>Checkpoints\<close>

record ClientEntrySnapshot =
  es_bind_verifier :: bytes
  es_ended_op :: "u64 option"
  es_client_id :: u128
  es_epoch :: u64
  es_user_id :: u32
  es_watermark :: u64
  es_reply :: bytes

record ClientTableSnapshot =
  ts_capacity :: nat
  ts_slots :: "(u32 \<times> ClientEntrySnapshot) list"

datatype ClientTableDecodeError =
    InvalidEntry nat
  | InvalidReplyAt nat ConsensusError
  | DuplicateClientId nat nat u128
  | DuplicateSlot nat
  | SlotOutOfRange nat nat

definition entry_snapshot :: "ClientEntry \<Rightarrow> ClientEntrySnapshot option" where
  "entry_snapshot e =
     map_option (\<lambda>reply.
       \<lparr>es_bind_verifier = ce_bind_verifier e, es_ended_op = ce_ended_op e,
        es_client_id = ce_client_id e, es_epoch = ce_epoch e, es_user_id = ce_user_id e,
        es_watermark = ce_watermark e, es_reply = as_bytes reply\<rparr>)
       (latest_reply e)"

fun snapshot_slots :: "nat \<Rightarrow> ClientEntry option list \<Rightarrow> (u32 \<times> ClientEntrySnapshot) list option" where
  "snapshot_slots slot [] = Some []"
| "snapshot_slots slot (None # slots) = snapshot_slots (Suc slot) slots"
| "snapshot_slots slot (Some e # slots) =
     (if slot < 2 ^ 32 then
        (case entry_snapshot e of
           None \<Rightarrow> None
         | Some s \<Rightarrow> map_option (Cons (of_nat slot, s)) (snapshot_slots (Suc slot) slots))
      else snapshot_slots (Suc slot) slots)"

definition to_snapshot :: "ClientTable \<Rightarrow> ClientTableSnapshot option" where
  "to_snapshot t =
     map_option (\<lambda>slots. \<lparr>ts_capacity = ct_clients_max t, ts_slots = slots\<rparr>)
       (snapshot_slots 0 (ct_slots t))"

definition restored_entry :: "ClientEntrySnapshot \<Rightarrow> CachedReply list \<Rightarrow> u64 \<Rightarrow> ClientEntry" where
  "restored_entry s ring latest_commit =
     \<lparr>ce_bind_verifier = es_bind_verifier s, ce_ended_op = es_ended_op s, ce_epoch = es_epoch s,
      ce_attachment = None, ce_user_id = es_user_id s, ce_watermark = es_watermark s,
      ce_committed_window = 0, ce_ring = ring, ce_client_id = es_client_id s,
      ce_latest_commit = latest_commit\<rparr>"

text \<open>The loop body and the loop over the slots of a snapshot.\<close>

definition restore_slot ::
    "(bytes \<Rightarrow> u64) \<Rightarrow> u32 \<times> ClientEntrySnapshot \<Rightarrow> ClientTable \<Rightarrow>
     (ClientTableDecodeError + ClientTable) option" where
  "restore_slot xxh3 entry t =
     (let slot = unat (fst entry); s = snd entry in
      case message_try_from xxh3 reply_kind (es_reply s) of
        Inl source \<Rightarrow> Some (Err (InvalidReplyAt slot source))
      | Inr bs \<Rightarrow>
          (case map_of (ct_index t) (es_client_id s) of
             Some first_slot \<Rightarrow> Some (Err (DuplicateClientId slot first_slot (es_client_id s)))
           | None \<Rightarrow>
               (case cached_reply bs of
                  None \<Rightarrow> None
                | Some reply \<Rightarrow>
                    (case get_at (ct_slots t) slot of
                       None \<Rightarrow> None
                     | Some (Some _) \<Rightarrow> Some (Err (DuplicateSlot slot))
                     | Some None \<Rightarrow>
                         let restored = restored_entry s [reply] (rp_commit (cr_header reply)) in
                         if \<not> valid_metadata_protection restored then Some (Err (InvalidEntry slot))
                         else Some (Ok ((put_entry slot restored t)
                                \<lparr>ct_index := AList.update (es_client_id s) slot (ct_index t)\<rparr>))))))"

fun restore_slots ::
    "(bytes \<Rightarrow> u64) \<Rightarrow> (u32 \<times> ClientEntrySnapshot) list \<Rightarrow> ClientTable \<Rightarrow>
     (ClientTableDecodeError + ClientTable) option" where
  "restore_slots xxh3 [] t = Some (Ok t)"
| "restore_slots xxh3 (entry # entries) t =
     (case restore_slot xxh3 entry t of
        None \<Rightarrow> None
      | Some (Inl e) \<Rightarrow> Some (Err e)
      | Some (Inr t') \<Rightarrow> restore_slots xxh3 entries t')"

definition from_snapshot ::
    "(bytes \<Rightarrow> u64) \<Rightarrow> ClientTableSnapshot \<Rightarrow> (ClientTableDecodeError + ClientTable) option" where
  "from_snapshot xxh3 snapshot =
     (let cap = ts_capacity snapshot in
      if cap = 0 \<or> cap > CLIENTS_TABLE_SLOT_MAX
      then Some (Err (SlotOutOfRange cap CLIENTS_TABLE_SLOT_MAX))
      else case find (\<lambda>entry. unat (fst entry) \<ge> cap) (ts_slots snapshot) of
        Some entry \<Rightarrow> Some (Err (SlotOutOfRange (unat (fst entry)) cap))
      | None \<Rightarrow>
          restore_slots xxh3 (ts_slots snapshot)
            \<lparr>ct_slots = replicate cap None, ct_index = [], ct_clients_max = cap,
             ct_capacity_committed = True, ct_mode = Metadata\<rparr>)"

section \<open>The transfer format\<close>

definition CLIENT_TABLE_MAGIC :: bytes where
  "CLIENT_TABLE_MAGIC = [0x49, 0x43, 0x54, 0x35]"

definition put_reply :: "CachedReply \<Rightarrow> bytes" where
  "put_reply reply = to_le_bytes (of_nat (length (as_bytes reply)) :: u32) @ as_bytes reply"

definition put_client_entry :: "ClientEntry \<Rightarrow> bytes" where
  "put_client_entry e =
     to_le_bytes (ce_client_id e) @ to_le_bytes (ce_epoch e) @ to_le_bytes (ce_user_id e) @
     to_le_bytes (ce_watermark e) @ ce_bind_verifier e @
     to_le_bytes (case ce_ended_op e of None \<Rightarrow> 0 | Some op \<Rightarrow> op) @
     [of_nat (length (transferable_replies e))] @
     concat (map put_reply (transferable_replies e))"

definition encode_content :: "ClientTable \<Rightarrow> bytes" where
  "encode_content t =
     CLIENT_TABLE_MAGIC @ to_le_bytes (of_nat (ct_clients_max t) :: u32) @
     to_le_bytes (of_nat (length (ct_index t)) :: u32) @ concat (map put_client_entry (occupied t))"

definition table_encode :: "(bytes \<Rightarrow> u64) \<Rightarrow> ClientTable \<Rightarrow> bytes" where
  "table_encode xxh3 t =
     (let out = encode_content t in out @ to_le_bytes (state_artifact_checksum xxh3 out))"

definition wire_truncated :: "Truncated + 'a \<Rightarrow> ClientTableWireError + 'a" where
  "wire_truncated = map_err (\<lambda>_. WireTruncated)"

text \<open>
  Reading one reply. The typed parse follows a successful parse as a generic message, so the
  header read it starts with cannot panic (\<open>typed_after_generic\<close>); that branch is an error here.
\<close>

definition get_reply_bytes :: "(bytes \<Rightarrow> u64) \<Rightarrow> bytes \<Rightarrow> ClientTableWireError + CachedReply \<times> bytes" where
  "get_reply_bytes xxh3 bs =
     rbind (wire_truncated (lc_u32 bs)) (\<lambda>(reply_len, bs).
     rbind (wire_truncated (lc_take (unat reply_len) bs)) (\<lambda>(reply_bytes, bs).
     rbind (map_err (\<lambda>_. InvalidReply) (message_try_from xxh3 generic_kind reply_bytes)) (\<lambda>generic.
     case try_into_typed xxh3 reply_kind generic of
       None \<Rightarrow> Err InvalidReply
     | Some typed \<Rightarrow>
         rbind (map_err (\<lambda>_. InvalidReply) typed) (\<lambda>message.
         rbind (ok_or InvalidReply (cached_reply message)) (\<lambda>reply. Ok (reply, bs))))))"

definition get_client_entry ::
    "(bytes \<Rightarrow> u64) \<Rightarrow> nat \<Rightarrow> bytes \<Rightarrow> ClientTableWireError + ClientEntry \<times> bytes" where
  "get_client_entry xxh3 slot bs =
     rbind (wire_truncated (lc_u128 bs)) (\<lambda>(client_id, bs).
     rbind (wire_truncated (lc_u64 bs)) (\<lambda>(epoch, bs).
     rbind (wire_truncated (lc_u32 bs)) (\<lambda>(user_id, bs).
     rbind (wire_truncated (lc_u64 bs)) (\<lambda>(watermark, bs).
     rbind (wire_truncated (lc_take BIND_SECRET_BYTES bs)) (\<lambda>(verifier, bs).
     rbind (wire_truncated (lc_u64 bs)) (\<lambda>(ended, bs).
     rbind (wire_truncated (lc_u8 bs)) (\<lambda>(ring_len, bs).
     if ring_len = 0 then Err EmptyRing
     else if unat ring_len > REPLY_RING_CAPACITY
       then Err (RingTooLong slot ring_len REPLY_RING_CAPACITY)
     else
       rbind (read_n (get_reply_bytes xxh3) (unat ring_len) bs) (\<lambda>(ring, bs).
       rbind (ok_or EmptyRing (last_opt ring)) (\<lambda>newest.
       let restored =
         \<lparr>ce_bind_verifier = verifier, ce_ended_op = (if ended = 0 then None else Some ended),
          ce_epoch = epoch, ce_attachment = None, ce_user_id = user_id, ce_watermark = watermark,
          ce_committed_window = 0, ce_ring = ring, ce_client_id = client_id,
          ce_latest_commit = rp_commit (cr_header newest)\<rparr>
       in if \<not> valid_metadata_protection restored then Err (InvalidWatermark client_id)
          else Ok (restored, bs))))))))))"

fun get_client_entries ::
    "(bytes \<Rightarrow> u64) \<Rightarrow> nat \<Rightarrow> nat \<Rightarrow> bytes \<Rightarrow> ClientTable \<Rightarrow>
     ClientTableWireError + ClientTable \<times> bytes" where
  "get_client_entries xxh3 slot 0 bs t = Ok (t, bs)"
| "get_client_entries xxh3 slot (Suc n) bs t =
     rbind (get_client_entry xxh3 slot bs) (\<lambda>(e, bs).
     case map_of (ct_index t) (ce_client_id e) of
       Some first_slot \<Rightarrow> Err (WireDuplicateClientId first_slot (ce_client_id e))
     | None \<Rightarrow>
         get_client_entries xxh3 (Suc slot) n bs
           ((put_entry slot e t)\<lparr>ct_index := AList.update (ce_client_id e) slot (ct_index t)\<rparr>))"

definition table_decode :: "(bytes \<Rightarrow> u64) \<Rightarrow> bytes \<Rightarrow> ClientTableWireError + ClientTable" where
  "table_decode xxh3 bs =
     rbind (map_err (\<lambda>mismatch. case mismatch of
                Some (expected, actual) \<Rightarrow> WireChecksumMismatch expected actual
              | None \<Rightarrow> WireTruncated)
             (split_verified_trailer (state_artifact_checksum xxh3) bs)) (\<lambda>content.
     rbind (wire_truncated (lc_take (length CLIENT_TABLE_MAGIC) content)) (\<lambda>(magic, bs).
     if magic \<noteq> CLIENT_TABLE_MAGIC then Err WireBadMagic
     else
       rbind (wire_truncated (lc_u32 bs)) (\<lambda>(cap, bs).
       rbind (wire_truncated (lc_u32 bs)) (\<lambda>(n, bs).
       if unat n > unat cap \<or> unat cap > CLIENTS_TABLE_SLOT_MAX
       then Err (TooManyEntries n (min (unat cap) CLIENTS_TABLE_SLOT_MAX))
       else
         rbind (commit_capacity (unat cap) (table_new (unat cap))) (\<lambda>t.
         rbind (get_client_entries xxh3 0 (unat n) bs t) (\<lambda>(t, bs).
         if bs \<noteq> [] then Err WireTruncated else Ok t))))))"

end
