(* ===== verification/Client_Table_Codec.thy ===== *)
theory Client_Table_Codec
  imports Client_Table_Wire Client_Table_Inv
begin

text \<open>
  The serialised forms of the client table keep its protection: a transfer of a valid table is read
  back as the same sessions, and whatever bytes or snapshot a decoder accepts, the table it builds
  is consistent and every session in it is protected.
\<close>

section \<open>One reply\<close>

context header_layout
begin

lemma try_into_typed_unsealed:
  assumes "well_formed h" and "validate kind h = Ok ()" and "accepts kind (fr_command h)" and "\<not> FRAME_SEALED kind"
  shows "try_into_typed xxh3 kind (header_bytes kind h @ body) = Some (Ok (header_bytes kind h @ body))"
  using generic_header [OF assms(1), of body] assms
  by (auto simp: try_into_typed_def cast_header_def cast_bytes length_bytes verify_frame_def)

end

text \<open>A reply message that fills its buffer.\<close>

definition wire_reply :: "CachedReply \<Rightarrow> bool" where
  "wire_reply r \<longleftrightarrow>
     wf_ReplyHeader (cr_header r) \<and> fr_command (cr_header r) = CmdReply \<and>
     unat (fr_size (cr_header r)) = HEADER_SIZE + length (cr_rest r)"

lemma as_bytes_layout: "as_bytes r = header_bytes reply_kind (cr_header r) @ cr_rest r"
  by (simp add: as_bytes_def reply_kind_def)

lemma cached_reply_bytes:
  assumes "wire_reply r"
  shows "cached_reply (as_bytes r) = Some r"
proof -
  have "wf_ReplyHeader (cr_header r)"
    using assms by (simp add: wire_reply_def)
  then have "message_header reply_kind (as_bytes r) = Some (cr_header r)" "drop HEADER_SIZE (as_bytes r) = cr_rest r"
    using reply_layout.message_header_bytes reply_layout.length_bytes by (simp_all add: as_bytes_layout)
  then show ?thesis
    by (simp add: cached_reply_def)
qed

lemma reply_message:
  assumes "wire_reply r"
  shows "message_try_from xxh3 reply_kind (as_bytes r) = Ok (as_bytes r)"
    and "message_try_from xxh3 generic_kind (as_bytes r) = Ok (as_bytes r)"
    and "try_into_typed xxh3 reply_kind (as_bytes r) = Some (Ok (as_bytes r))"
proof -
  have r: "wf_ReplyHeader (cr_header r)" "validate reply_kind (cr_header r) = Ok ()"
      "accepts reply_kind (fr_command (cr_header r))" "\<not> FRAME_SEALED reply_kind"
      "unat (fr_size (cr_header r)) = HEADER_SIZE + length (cr_rest r)"
    using assms by (simp_all add: wire_reply_def reply_kind_def validate_ReplyHeader_def)
  then show "message_try_from xxh3 reply_kind (as_bytes r) = Ok (as_bytes r)"
      "message_try_from xxh3 generic_kind (as_bytes r) = Ok (as_bytes r)"
      "try_into_typed xxh3 reply_kind (as_bytes r) = Some (Ok (as_bytes r))"
    unfolding as_bytes_layout
    by (intro reply_layout.message_roundtrip(1) reply_layout.generic_roundtrip reply_layout.try_into_typed_unsealed;
        simp)+
qed

lemma length_as_bytes: "wire_reply r \<Longrightarrow> length (as_bytes r) = unat (fr_size (cr_header r))"
  by (simp add: wire_reply_def as_bytes_def length_put_ReplyHeader HEADER_SIZE_def)

text \<open>The typed parse follows a parse as a generic message, so its header read cannot panic.\<close>

lemma typed_after_generic: "message_try_from xxh3 generic_kind bs = Ok g \<Longrightarrow> try_into_typed xxh3 k g \<noteq> None"
  by (auto simp: message_try_from_def try_into_typed_def cast_header_def message_header_def rbind_eq_Ok ok_or_def
    split: if_splits option.splits)

interpretation reply_codec: codec wire_reply put_reply "get_reply_bytes xxh3" for xxh3
proof
  fix r rest
  assume r: "wire_reply r"
  have "unat (of_nat (length (as_bytes r)) :: u32) = length (as_bytes r)"
    by (simp add: length_as_bytes [OF r])
  then show "get_reply_bytes xxh3 (put_reply r @ rest) = Ok (r, rest)"
    by (simp add: get_reply_bytes_def put_reply_def wire_truncated_def reply_message [OF r]
      cached_reply_bytes [OF r])
qed

section \<open>One entry\<close>

text \<open>What a transfer keeps of an entry: everything but the local handle and the oldest replies.\<close>

definition transferred :: "ClientEntry \<Rightarrow> ClientEntry" where
  "transferred e =
     e\<lparr>ce_attachment := None, ce_committed_window := 0, ce_ring := transferable_replies e\<rparr>"

definition wire_entry :: "ClientEntry \<Rightarrow> bool" where
  "wire_entry e \<longleftrightarrow>
     valid_metadata_protection e \<and> length (ce_bind_verifier e) = BIND_SECRET_BYTES \<and>
     (\<forall>r \<in> set (ce_ring e). wire_reply r)"

lemma last_opt_drop: "n < length xs \<Longrightarrow> last_opt (drop n xs) = last_opt xs"
  by (auto simp: last_opt_def)

lemma transferable_length:
  "ce_ring e \<noteq> [] \<Longrightarrow> 0 < length (transferable_replies e) \<and> length (transferable_replies e) \<le> 5"
  by (auto simp: transferable_replies_def REPLY_RING_CAPACITY_def)

lemma transferable_last: "ce_ring e \<noteq> [] \<Longrightarrow> last_opt (transferable_replies e) = last_opt (ce_ring e)"
  unfolding transferable_replies_def by (rule last_opt_drop) (simp add: REPLY_RING_CAPACITY_def)

lemma transferred_valid:
  assumes "valid_metadata_protection e"
  shows "valid_metadata_protection (transferred e)"
proof -
  have "ce_ring e \<noteq> []" and vr: "valid_ring e None (ce_ring e)"
    using assms by (auto simp: valid_protection_iff)
  have "valid_ring (transferred e) None (transferable_replies e)"
    using valid_ring_suffix [OF vr] valid_receipt_cong [of "transferred e" e None]
    by (simp add: transferred_def transferable_replies_def)
  then show ?thesis
    using assms transferable_last [OF \<open>ce_ring e \<noteq> []\<close>]
    by (auto simp: valid_metadata_protection_def transferred_def Let_def split: option.splits)
qed

lemma get_put_client_entry:
  assumes "wire_entry e"
  shows "get_client_entry xxh3 slot (put_client_entry e @ rest) = Ok (transferred e, rest)"
proof -
  have valid: "valid_metadata_protection e" and ring: "ce_ring e \<noteq> []"
    using assms by (auto simp: wire_entry_def valid_protection_iff)
  then obtain newest where newest: "last_opt (ce_ring e) = Some newest" "rp_commit (cr_header newest) = ce_latest_commit e"
    by (auto simp: valid_protection_iff)
  have ended: "(if (case ce_ended_op e of None \<Rightarrow> 0 | Some op \<Rightarrow> op) = 0 then None
      else Some (case ce_ended_op e of None \<Rightarrow> 0 | Some op \<Rightarrow> op)) = ce_ended_op e"
    using valid by (auto simp: valid_protection_iff split: option.splits)
  note len = transferable_length [OF ring]
  have ring_len: "unat (of_nat (length (transferable_replies e)) :: u8) = length (transferable_replies e)"
    using len by (simp add: unat_of_nat)
  have nonzero: "(of_nat (length (transferable_replies e)) :: u8) \<noteq> 0"
    using len ring_len by (metis less_irrefl unsigned_0)
  have read: "read_n (get_reply_bytes xxh3) (length (transferable_replies e))
      (concat (map put_reply (transferable_replies e)) @ rest) = Ok (transferable_replies e, rest)"
    using assms by (intro reply_codec.read_n_put)
      (auto simp: wire_entry_def transferable_replies_def dest: in_set_dropD)
  have restored: "\<lparr>ce_bind_verifier = ce_bind_verifier e, ce_ended_op = ce_ended_op e, ce_epoch = ce_epoch e,
      ce_attachment = None, ce_user_id = ce_user_id e, ce_watermark = ce_watermark e, ce_committed_window = 0,
      ce_ring = transferable_replies e, ce_client_id = ce_client_id e,
      ce_latest_commit = ce_latest_commit e\<rparr> = transferred e"
    by (simp add: transferred_def)
  show ?thesis
    using assms transferred_valid [OF valid] newest len ended read ring_len nonzero
    by (simp add: get_client_entry_def put_client_entry_def wire_truncated_def wire_entry_def
      transferable_last [OF ring] restored REPLY_RING_CAPACITY_def Let_def)
qed

section \<open>The transfer\<close>

lemma get_client_entries_put:
  assumes "table_wf t" and "\<And>e. e \<in> set es \<Longrightarrow> wire_entry e"
    and "distinct (map ce_client_id es)" and "\<And>e. e \<in> set es \<Longrightarrow> sessions t (ce_client_id e) = None"
    and "slot + length es \<le> length (ct_slots t)"
    and "\<And>i. slot \<le> i \<Longrightarrow> i < length (ct_slots t) \<Longrightarrow> ct_slots t ! i = None"
  shows "\<exists>t'. get_client_entries xxh3 slot (length es) (concat (map put_client_entry es) @ rest) t = Ok (t', rest) \<and>
    table_wf t' \<and> ct_clients_max t' = ct_clients_max t \<and> ct_mode t' = ct_mode t \<and>
    ct_capacity_committed t' = ct_capacity_committed t \<and>
    sessions t' = sessions t ++ map_of (map (\<lambda>e. (ce_client_id e, transferred e)) es)"
  using assms
proof (induction es arbitrary: slot t)
  case (Cons e es)
  have wire: "wire_entry e" and new: "map_of (ct_index t) (ce_client_id e) = None"
    using Cons.prems(2,4) sessions_None [OF Cons.prems(1)] by auto
  let ?e = "transferred e"
  let ?t = "(put_entry slot ?e t)\<lparr>ct_index := AList.update (ce_client_id e) slot (ct_index t)\<rparr>"
  have client: "ce_client_id ?e = ce_client_id e"
    by (simp add: transferred_def)
  have slot: "slot < length (ct_slots t)" "ct_slots t ! slot = None"
    using Cons.prems(5,6) by simp_all
  note ins = insert_sessions [OF Cons.prems(1) new slot client]
  have "\<exists>t'. get_client_entries xxh3 (Suc slot) (length es) (concat (map put_client_entry es) @ rest) ?t = Ok (t', rest) \<and>
    table_wf t' \<and> ct_clients_max t' = ct_clients_max ?t \<and> ct_mode t' = ct_mode ?t \<and>
    ct_capacity_committed t' = ct_capacity_committed ?t \<and>
    sessions t' = sessions ?t ++ map_of (map (\<lambda>e. (ce_client_id e, transferred e)) es)"
    (is "\<exists>t'. ?read t'")
  proof (rule Cons.IH)
    show "sessions ?t (ce_client_id e1) = None" if "e1 \<in> set es" for e1
    proof -
      have "ce_client_id e1 \<noteq> ce_client_id e"
        using that Cons.prems(3) by (metis distinct.simps(2) image_eqI list.set_map list.simps(9))
      then show ?thesis
        using that Cons.prems(4) by (simp add: ins(2))
    qed
    show "ct_slots ?t ! i = None" if "Suc slot \<le> i" "i < length (ct_slots ?t)" for i
      using that Cons.prems(6) by (simp add: put_entry_def)
  qed (use Cons.prems ins(1) in simp_all)
  then obtain t' where t': "?read t'" ..
  have "map_of (map (\<lambda>e. (ce_client_id e, transferred e)) es) (ce_client_id e) = None"
    using Cons.prems(3) by (simp add: map_of_eq_None_iff image_image)
  then have moved: "sessions ?t ++ map_of (map (\<lambda>e. (ce_client_id e, transferred e)) es) =
      sessions t ++ map_of (map (\<lambda>e. (ce_client_id e, transferred e)) (e # es))"
    unfolding ins(2) by (simp add: map_add_def fun_eq_iff split: option.split)
  have "get_client_entries xxh3 slot (length (e # es)) (concat (map put_client_entry (e # es)) @ rest) t =
      Ok (t', rest)"
    using t' get_put_client_entry [OF wire, of xxh3 slot "concat (map put_client_entry es) @ rest"] new
    by (simp add: client)
  moreover have "table_wf t' \<and> ct_clients_max t' = ct_clients_max t \<and> ct_mode t' = ct_mode t \<and>
      ct_capacity_committed t' = ct_capacity_committed t"
    using t' by simp
  moreover have "sessions t' = sessions t ++ map_of (map (\<lambda>e. (ce_client_id e, transferred e)) (e # es))"
    using t' moved by metis
  ultimately show ?case
    by blast
qed simp

text \<open>
  C31. A state transfer keeps every session. Encoding a consistent table whose sessions are valid and
  hold well-formed replies, and decoding the bytes, gives a consistent table with the same capacity
  and the same clients, each with its epoch, owner, verifier, watermark, end marker and the newest
  five replies, and without any local handle.
\<close>

theorem transfer_roundtrip:
  assumes "table_wf t" and "ct_mode t = Metadata" and "0 < capacity t" and "capacity t \<le> CLIENTS_TABLE_SLOT_MAX"
    and "\<forall>e \<in> set (occupied t). wire_entry e"
  shows "\<exists>t'. table_decode xxh3 (table_encode xxh3 t) = Ok t' \<and> table_wf t' \<and> capacity t' = capacity t \<and>
    ct_capacity_committed t' \<and> (\<forall>c. sessions t' c = map_option transferred (sessions t c))"
proof -
  let ?cap = "ct_clients_max t" and ?es = "occupied t"
  have cap: "0 < ?cap" "?cap \<le> 65536"
    using assms(3,4) by (simp_all add: capacity_def CLIENTS_TABLE_SLOT_MAX_def)
  have len: "length (ct_index t) = length ?es" "length ?es \<le> ?cap"
    using occupied_distinct(2) [OF assms(1)] count_le [OF assms(1)] table_wfD(2) [OF assms(1)] by simp_all
  define t0 where "t0 = (table_new ?cap)\<lparr>ct_capacity_committed := True\<rparr>"
  have t0: "commit_capacity ?cap (table_new ?cap) = Ok t0"
    using cap by (simp add: t0_def commit_capacity_def table_new_def with_mode_def preallocate_slots_def
      resize_slots_def count_def CLIENTS_TABLE_SLOT_MAX_def)
  have fields: "ct_slots t0 = replicate ?cap None" "ct_index t0 = []" "ct_mode t0 = Metadata" "ct_clients_max t0 = ?cap"
      "ct_capacity_committed t0"
    by (simp_all add: t0_def table_new_def with_mode_def preallocate_slots_def)
  have wf0: "table_wf t0" and s0: "sessions t0 = Map.empty"
    by (rule table_wfI) (simp_all add: fields sessions_def fun_eq_iff)
  obtain t' where t': "get_client_entries xxh3 0 (length ?es) (concat (map put_client_entry ?es)) t0 = Ok (t', [])"
      "table_wf t'" "ct_clients_max t' = ?cap" "ct_capacity_committed t'"
      "sessions t' = map_of (map (\<lambda>e. (ce_client_id e, transferred e)) ?es)"
    using get_client_entries_put [OF wf0, of ?es 0 xxh3 "[]"] assms(5) occupied_distinct(1) [OF assms(1)] len s0
    by (auto simp: fields)
  have "sessions t' c = map_option transferred (sessions t c)" for c
  proof (cases "sessions t c")
    case None
    then have "c \<notin> ce_client_id ` set ?es"
      by (metis imageE option.distinct(1) sessions_iff [OF assms(1)])
    with None show ?thesis
      by (simp add: t'(5) map_of_eq_None_iff image_image)
  next
    case (Some e)
    then have "e \<in> set ?es" "ce_client_id e = c"
      using sessions_iff [OF assms(1)] by blast+
    with Some occupied_distinct(1) [OF assms(1)] show ?thesis
      by (auto simp: t'(5) comp_def intro!: map_of_is_SomeI)
  qed
  moreover have "table_decode xxh3 (table_encode xxh3 t) = Ok t'"
    unfolding table_decode_def table_encode_def Let_def split_verified_trailer_stamp
    using t'(1) t0 cap len
    by (simp add: encode_content_def wire_truncated_def CLIENTS_TABLE_SLOT_MAX_def unat_of_nat)
  ultimately show ?thesis
    using t' by (auto simp: capacity_def)
qed


section \<open>What a decoder accepts\<close>

definition restored_ok :: "ClientTable \<Rightarrow> bool" where
  "restored_ok t \<longleftrightarrow>
     table_wf t \<and> ct_mode t = Metadata \<and> ct_capacity_committed t \<and>
     (\<forall>c e. sessions t c = Some e \<longrightarrow> valid_metadata_protection e \<and> ce_attachment e = None)"

lemma restored_ok_insert:
  assumes "restored_ok t" and "map_of (ct_index t) (ce_client_id e) = None"
    and "slot < length (ct_slots t)" and "ct_slots t ! slot = None"
    and "valid_metadata_protection e" and "ce_attachment e = None"
  shows "restored_ok ((put_entry slot e t)\<lparr>ct_index := AList.update (ce_client_id e) slot (ct_index t)\<rparr>)"
  using assms insert_sessions [of t "ce_client_id e" slot e] by (auto simp: restored_ok_def)

lemma restored_ok_count: "restored_ok t \<Longrightarrow> count t \<le> capacity t"
  using count_le [of t] table_wfD(2) [of t] by (simp add: restored_ok_def count_def capacity_def)

lemma restored_ok_empty:
  assumes "ct_slots t = replicate (ct_clients_max t) None" and "ct_index t = []" and "ct_mode t = Metadata"
    and "ct_capacity_committed t"
  shows "restored_ok t"
proof -
  have "table_wf t"
    by (rule table_wfI) (simp_all add: assms)
  then show ?thesis
    using assms by (simp add: restored_ok_def sessions_def)
qed

lemma get_client_entry_valid:
  "get_client_entry xxh3 slot bs = Ok (e, rest) \<Longrightarrow> valid_metadata_protection e \<and> ce_attachment e = None"
  by (auto simp: get_client_entry_def rbind_eq_Ok Let_def split: if_splits)

lemma get_client_entries_restored:
  assumes "get_client_entries xxh3 slot n bs t = Ok (t', rest)" and "restored_ok t"
    and "slot + n \<le> length (ct_slots t)"
    and "\<And>i. slot \<le> i \<Longrightarrow> i < length (ct_slots t) \<Longrightarrow> ct_slots t ! i = None"
  shows "restored_ok t'"
  using assms
proof (induction xxh3 slot n bs t rule: get_client_entries.induct)
  case (2 xxh3 slot n bs t)
  obtain e bs' where entry: "get_client_entry xxh3 slot bs = Ok (e, bs')"
    using "2.prems"(1) by (auto simp: rbind_eq_Ok)
  then have new: "map_of (ct_index t) (ce_client_id e) = None"
    using "2.prems"(1) by (auto split: option.splits)
  let ?t = "(put_entry slot e t)\<lparr>ct_index := AList.update (ce_client_id e) slot (ct_index t)\<rparr>"
  have rest: "get_client_entries xxh3 (Suc slot) n bs' ?t = Ok (t', rest)"
    using "2.prems"(1) entry new by simp
  have "restored_ok ?t"
    using "2.prems" new get_client_entry_valid [OF entry] by (intro restored_ok_insert) simp_all
  then show ?case
    using "2.prems"(3,4) by (intro "2.IH" [OF new rest]) (simp_all add: put_entry_def)
qed simp

lemma get_client_entries_capacity:
  "get_client_entries xxh3 slot n bs t = Ok (t', rest) \<Longrightarrow> ct_clients_max t' = ct_clients_max t"
  by (induction xxh3 slot n bs t rule: get_client_entries.induct)
    (auto simp: rbind_eq_Ok split: option.splits)

text \<open>
  C32. A table read from the bytes of a state transfer is protected, whatever the bytes: if the decoder
  accepts, the slots and the index agree, the capacity is committed and within the hard limit, the
  number of sessions is within the capacity, and every session passes the protection check and
  carries no local handle.
\<close>

theorem decoded_table_protected:
  assumes "table_decode xxh3 bs = Ok t"
  shows "restored_ok t \<and> 0 < capacity t \<and> capacity t \<le> CLIENTS_TABLE_SLOT_MAX \<and> count t \<le> capacity t"
proof -
  obtain cap n bs' t0 rest where cap: "unat n \<le> unat (cap :: u32)" "unat cap \<le> CLIENTS_TABLE_SLOT_MAX"
      and t0: "commit_capacity (unat cap) (table_new (unat cap)) = Ok t0"
      and entries: "get_client_entries xxh3 0 (unat (n :: u32)) bs' t0 = Ok (t, rest)"
    using assms by (auto simp: table_decode_def rbind_eq_Ok not_less split: if_splits)
  have nonzero: "0 < unat cap" and
      t0_fields: "ct_slots t0 = replicate (unat cap) None" "ct_index t0 = []" "ct_mode t0 = Metadata"
      "ct_clients_max t0 = unat cap" "ct_capacity_committed t0"
    using t0 by (auto simp: commit_capacity_def table_new_def with_mode_def preallocate_slots_def
      resize_slots_def count_def split: if_splits)
  then have "restored_ok t0"
    by (intro restored_ok_empty) simp_all
  from get_client_entries_restored [OF entries this] have ok: "restored_ok t"
    using cap t0_fields by simp
  moreover have "ct_clients_max t = unat cap"
    using get_client_entries_capacity [OF entries] t0_fields by simp
  ultimately show ?thesis
    using cap nonzero restored_ok_count [OF ok] by (simp add: capacity_def)
qed


lemma restore_slot_restored:
  assumes "restore_slot xxh3 entry t = Some (Ok t')" and "restored_ok t"
  shows "restored_ok t' \<and> ct_clients_max t' = ct_clients_max t"
proof -
  let ?slot = "unat (fst entry)"
  obtain e where t': "t' = (put_entry ?slot e t)\<lparr>ct_index := AList.update (ce_client_id e) ?slot (ct_index t)\<rparr>"
      and "map_of (ct_index t) (ce_client_id e) = None" "get_at (ct_slots t) ?slot = Some None"
      "valid_metadata_protection e" "ce_attachment e = None"
  proof -
    obtain reply where "t' = (put_entry ?slot (restored_entry (snd entry) [reply] (rp_commit (cr_header reply))) t)
          \<lparr>ct_index := AList.update (es_client_id (snd entry)) ?slot (ct_index t)\<rparr>"
        "valid_metadata_protection (restored_entry (snd entry) [reply] (rp_commit (cr_header reply)))"
        "map_of (ct_index t) (es_client_id (snd entry)) = None" "get_at (ct_slots t) ?slot = Some None"
      using assms(1) by (auto simp: restore_slot_def Let_def split: sum.splits option.splits if_splits)
    then show thesis
      by (intro that [of "restored_entry (snd entry) [reply] (rp_commit (cr_header reply))"])
        (simp_all add: restored_entry_def)
  qed
  then show ?thesis
    using assms(2) restored_ok_insert [of t e ?slot] by (simp add: get_at_def split: if_splits)
qed

lemma restore_slots_restored:
  "restore_slots xxh3 entries t = Some (Ok t') \<Longrightarrow> restored_ok t \<Longrightarrow>
     restored_ok t' \<and> ct_clients_max t' = ct_clients_max t"
proof (induction entries arbitrary: t)
  case (Cons entry entries)
  then show ?case
    using restore_slot_restored [of xxh3 entry t] by (auto split: option.splits sum.splits)
qed simp

lemma restore_slot_total:
  assumes "unat (fst entry) < length (ct_slots t)"
  shows "restore_slot xxh3 entry t \<noteq> None"
proof -
  have "cached_reply bs \<noteq> None" if "message_try_from xxh3 reply_kind (es_reply (snd entry)) = Ok bs" for bs
    using that by (auto simp: message_try_from_def cast_header_def cached_reply_def message_header_def rbind_eq_Ok
      ok_or_def split: if_splits option.splits)
  then show ?thesis
    using assms by (auto simp: restore_slot_def Let_def get_at_def split: sum.splits option.splits)
qed

lemma restore_slot_length: "restore_slot xxh3 entry t = Some (Ok t') \<Longrightarrow> length (ct_slots t') = length (ct_slots t)"
  by (auto simp: restore_slot_def Let_def split: sum.splits option.splits if_splits)

lemma restore_slots_total:
  "(\<And>entry. entry \<in> set entries \<Longrightarrow> unat (fst entry) < length (ct_slots t)) \<Longrightarrow> restore_slots xxh3 entries t \<noteq> None"
proof (induction entries arbitrary: t)
  case (Cons entry entries)
  have "restore_slot xxh3 entry t \<noteq> None"
    using Cons.prems by (intro restore_slot_total) simp
  then show ?case
    using Cons restore_slot_length [of xxh3 entry t] by (auto split: option.splits sum.splits)
qed simp

text \<open>
  C33. Restoring a checkpoint never panics, and a table it produces is protected: consistent slots and
  index, a committed capacity within the hard limit, valid sessions without local handles.
\<close>

theorem restored_table_protected:
  "\<exists>result. from_snapshot xxh3 snapshot = Some result \<and>
     (case result of
        Inl _ \<Rightarrow> True
      | Inr t \<Rightarrow> restored_ok t \<and> 0 < capacity t \<and> capacity t \<le> CLIENTS_TABLE_SLOT_MAX \<and> count t \<le> capacity t)"
proof (cases "ts_capacity snapshot = 0 \<or> ts_capacity snapshot > CLIENTS_TABLE_SLOT_MAX \<or>
    find (\<lambda>entry. unat (fst entry) \<ge> ts_capacity snapshot) (ts_slots snapshot) \<noteq> None")
  case True
  then show ?thesis
    by (auto simp: from_snapshot_def Let_def)
next
  case False
  let ?cap = "ts_capacity snapshot"
  let ?t = "\<lparr>ct_slots = replicate ?cap None, ct_index = [], ct_clients_max = ?cap,
             ct_capacity_committed = True, ct_mode = Metadata\<rparr>"
  have loop: "from_snapshot xxh3 snapshot = restore_slots xxh3 (ts_slots snapshot) ?t"
    using False by (auto simp: from_snapshot_def Let_def split: option.split)
  have "unat (fst entry) < length (ct_slots ?t)" if "entry \<in> set (ts_slots snapshot)" for entry
    using False that by (cases entry) (auto simp: find_None_iff)
  then obtain result where result: "restore_slots xxh3 (ts_slots snapshot) ?t = Some result"
    using restore_slots_total [of "ts_slots snapshot" ?t xxh3] by auto
  have ok: "restored_ok t \<and> capacity t = ?cap" if "result = Inr t" for t
    using restore_slots_restored [of xxh3 _ ?t t] restored_ok_empty [of ?t] result that by (auto simp: capacity_def)
  then have "restored_ok t \<and> 0 < capacity t \<and> capacity t \<le> CLIENTS_TABLE_SLOT_MAX \<and> count t \<le> capacity t"
    if "result = Inr t" for t
    using False restored_ok_count [of t] that by simp
  then show ?thesis
    unfolding loop result by (auto split: sum.splits)
qed


section \<open>Checkpoints\<close>

text \<open>What a checkpoint keeps of an entry: the newest reply and no local handle.\<close>

definition checkpointed :: "ClientEntry \<Rightarrow> ClientEntry" where
  "checkpointed e = e\<lparr>ce_attachment := None, ce_committed_window := 0, ce_ring := [last (ce_ring e)]\<rparr>"

lemma checkpointed_valid:
  assumes "valid_metadata_protection e"
  shows "valid_metadata_protection (checkpointed e)"
proof -
  have ring: "ce_ring e \<noteq> []" and vr: "valid_ring e None (ce_ring e)"
    using assms by (auto simp: valid_protection_iff)
  have "drop (length (ce_ring e) - 1) (ce_ring e) = [last (ce_ring e)]"
    using ring by (metis append_butlast_last_id append_eq_conv_conj length_butlast)
  then have "valid_ring e None [last (ce_ring e)]"
    using valid_ring_suffix [OF vr] by metis
  moreover have "valid_ring (checkpointed e) None r = valid_ring e None r" for r
    by (rule valid_receipt_cong) (simp_all add: checkpointed_def)
  ultimately have "valid_ring (checkpointed e) None [last (ce_ring e)]"
    by blast
  then show ?thesis
    using assms ring
    by (auto simp: valid_metadata_protection_def checkpointed_def Let_def last_opt_def split: option.splits)
qed

lemma restore_snapshot_entry:
  assumes "wire_entry e" and "entry_snapshot e = Some s" and "unat slot = length pre"
    and "ct_slots t = pre @ None # post" and "map_of (ct_index t) (ce_client_id e) = None"
  shows "restore_slot xxh3 (slot, s) t =
    Some (Ok ((put_entry (length pre) (checkpointed e) t)
      \<lparr>ct_index := AList.update (ce_client_id e) (length pre) (ct_index t)\<rparr>))"
proof -
  have valid: "valid_metadata_protection e" and ring: "ce_ring e \<noteq> []" "wire_reply (last (ce_ring e))"
    using assms(1) by (auto simp: wire_entry_def valid_protection_iff)
  then have commit: "rp_commit (cr_header (last (ce_ring e))) = ce_latest_commit e"
    by (auto simp: valid_protection_iff last_opt_def)
  have s: "es_client_id s = ce_client_id e" "es_reply s = as_bytes (last (ce_ring e))"
      "restored_entry s [last (ce_ring e)] (ce_latest_commit e) = checkpointed e"
    using assms(2) ring by (auto simp: entry_snapshot_def latest_reply_def last_opt_def restored_entry_def checkpointed_def)
  show ?thesis
    using assms(3-5) checkpointed_valid [OF valid]
    by (simp add: restore_slot_def Let_def s commit reply_message(1) [OF ring(2)] cached_reply_bytes [OF ring(2)]
      get_at_def)
qed

lemma restore_snapshot_slots:
  assumes "\<And>e. Some e \<in> set slots \<Longrightarrow> wire_entry e" and "length pre + length slots < 2 ^ 32"
    and "distinct (map ce_client_id (List.map_filter id slots))"
    and "\<And>e. Some e \<in> set slots \<Longrightarrow> map_of (ct_index t) (ce_client_id e) = None"
    and "ct_slots t = pre @ replicate (length slots) None"
  shows "\<exists>entries t'. snapshot_slots (length pre) slots = Some entries \<and>
    (\<forall>entry \<in> set entries. unat (fst entry) < length pre + length slots) \<and>
    restore_slots xxh3 entries t = Some (Ok t') \<and> ct_slots t' = pre @ map (map_option checkpointed) slots"
  using assms
proof (induction slots arbitrary: pre t)
  case (Cons slot slots)
  show ?case
  proof (cases slot)
    case None
    with Cons.IH [of "pre @ [None]" t] Cons.prems show ?thesis
      by (auto simp: map_filter_def)
  next
    case (Some e)
    have wire: "wire_entry e" "map_of (ct_index t) (ce_client_id e) = None"
      using Cons.prems(1,4) Some by auto
    then have ring: "ce_ring e \<noteq> []"
      by (auto simp: wire_entry_def valid_protection_iff)
    then obtain s where s: "entry_snapshot e = Some s"
      by (auto simp: entry_snapshot_def latest_reply_def last_opt_def)
    have slot: "unat (of_nat (length pre) :: u32) = length pre" "length pre < 2 ^ 32"
      using Cons.prems(2) by (simp_all add: unat_of_nat)
    let ?t = "(put_entry (length pre) (checkpointed e) t)
      \<lparr>ct_index := AList.update (ce_client_id e) (length pre) (ct_index t)\<rparr>"
    have one: "restore_slot xxh3 (of_nat (length pre), s) t = Some (Ok ?t)"
      using restore_snapshot_entry [OF wire(1) s slot(1), of t "replicate (length slots) None" xxh3] Cons.prems(5) wire(2)
      by simp
    have other: "map_of (ct_index ?t) (ce_client_id e1) = None" if "Some e1 \<in> set slots" for e1
    proof -
      have "ce_client_id e1 \<in> ce_client_id ` set (List.map_filter id slots)"
        using that by (force simp: map_filter_def)
      then have "ce_client_id e1 \<noteq> ce_client_id e"
        using Cons.prems(3) Some by (auto simp: map_filter_simps id_def)
      then show ?thesis
        using Cons.prems(4) [of e1] that by (simp add: update_conv')
    qed
    have "ct_slots ?t = (pre @ [Some (checkpointed e)]) @ replicate (length slots) None"
      using Cons.prems(5) by (simp add: put_entry_def list_update_append)
    then obtain entries t' where
        "snapshot_slots (Suc (length pre)) slots = Some entries"
        "\<forall>entry \<in> set entries. unat (fst entry) < Suc (length pre) + length slots"
        "restore_slots xxh3 entries ?t = Some (Ok t')"
        "ct_slots t' = (pre @ [Some (checkpointed e)]) @ map (map_option checkpointed) slots"
      using Cons.IH [of "pre @ [Some (checkpointed e)]" ?t] Cons.prems Some other
      by (auto simp: map_filter_def)
    then show ?thesis
      using Some s slot one by simp
  qed
qed simp

text \<open>
  C34. A checkpoint keeps every session in its slot. Taking a snapshot of a consistent table whose
  sessions are valid and hold well-formed replies, and restoring it, gives a protected table with the
  same slots, each entry with its newest reply and without a local handle.
\<close>

theorem checkpoint_roundtrip:
  assumes "table_wf t" and "ct_mode t = Metadata" and "0 < capacity t" and "capacity t \<le> CLIENTS_TABLE_SLOT_MAX"
    and "\<forall>e \<in> set (occupied t). wire_entry e"
  shows "\<exists>snapshot t'. to_snapshot t = Some snapshot \<and> from_snapshot xxh3 snapshot = Some (Ok t') \<and>
    restored_ok t' \<and> ct_slots t' = map (map_option checkpointed) (ct_slots t)"
proof -
  let ?cap = "ct_clients_max t"
  let ?t = "\<lparr>ct_slots = replicate ?cap None, ct_index = [], ct_clients_max = ?cap,
             ct_capacity_committed = True, ct_mode = Metadata\<rparr>"
  have cap: "0 < ?cap" "?cap \<le> 65536" "length (ct_slots t) = ?cap"
    using assms table_wfD(3) [OF assms(1)] by (simp_all add: capacity_def CLIENTS_TABLE_SLOT_MAX_def)
  have "wire_entry e" if "Some e \<in> set (ct_slots t)" for e
    using that assms(5) in_occupied [of e t] by (auto simp: in_set_conv_nth)
  then obtain entries t' where entries: "snapshot_slots 0 (ct_slots t) = Some entries"
      "\<forall>entry \<in> set entries. unat (fst entry) < ?cap" "restore_slots xxh3 entries ?t = Some (Ok t')"
      "ct_slots t' = map (map_option checkpointed) (ct_slots t)"
    using restore_snapshot_slots [of "ct_slots t" "[]" ?t xxh3] cap occupied_distinct(1) [OF assms(1)]
    by (auto simp: occupied_def)
  have "find (\<lambda>entry. ?cap \<le> unat (fst entry)) entries = None"
    using entries(2) by (auto simp: find_None_iff)
  then have "from_snapshot xxh3 \<lparr>ts_capacity = ?cap, ts_slots = entries\<rparr> = Some (Ok t')"
    using cap entries(3) by (simp add: from_snapshot_def Let_def CLIENTS_TABLE_SLOT_MAX_def)
  moreover have "restored_ok t'"
    using restore_slots_restored [OF entries(3)] restored_ok_empty [of ?t] by simp
  ultimately show ?thesis
    using entries by (auto simp: to_snapshot_def)
qed


section \<open>A table with one session\<close>

definition sample_wire_reply :: "u128 \<Rightarrow> u64 \<Rightarrow> u64 \<Rightarrow> Operation \<Rightarrow> CachedReply" where
  "sample_wire_reply client request commit operation =
     \<lparr>cr_header = default_ReplyHeader\<lparr>fr_command := CmdReply, fr_size := 258, rp_client := client,
        rp_request := request, rp_commit := commit, rp_operation := operation\<rparr>, cr_rest = [1, 2]\<rparr>"

definition sample_wire_table :: ClientTable where
  "sample_wire_table =
     fst (the (commit_reply 7 5 (sample_wire_reply 7 3 2 OpCreateStream)
       (fst (the (commit_register 7 5 (replicate 32 1) (sample_wire_reply 7 0 1 OpRegister) (table_new 2))))))"

lemma sample_wire_table_facts:
  "table_wf sample_wire_table" "ct_mode sample_wire_table = Metadata" "0 < capacity sample_wire_table"
  "capacity sample_wire_table \<le> CLIENTS_TABLE_SLOT_MAX" "\<forall>e \<in> set (occupied sample_wire_table). wire_entry e"
proof -
  obtain e where t: "ct_slots sample_wire_table = [Some e, None]" "ct_index sample_wire_table = [(7, 0)]"
      "ct_clients_max sample_wire_table = 2" "ce_client_id e = 7"
    by (rule that [of "the (ct_slots sample_wire_table ! 0)"]) code_simp+
  show "table_wf sample_wire_table"
    by (rule table_wfI) (auto simp: t less_Suc_eq nth_Cons' split: if_splits)
  show "0 < capacity sample_wire_table" "capacity sample_wire_table \<le> CLIENTS_TABLE_SLOT_MAX"
    by (simp_all add: capacity_def CLIENTS_TABLE_SLOT_MAX_def t)
qed code_simp+

theorem transfer_roundtrip_witness:
  "\<exists>t'. table_decode (\<lambda>_. 0) (table_encode (\<lambda>_. 0) sample_wire_table) = Ok t' \<and> capacity t' = 2 \<and>
     sessions t' 7 = map_option transferred (sessions sample_wire_table 7)"
proof -
  have "capacity sample_wire_table = 2"
    by code_simp
  then show ?thesis
    using transfer_roundtrip [OF sample_wire_table_facts, of "\<lambda>_. 0"] by metis
qed

theorem decoded_table_protected_witness:
  "\<exists>t. table_decode (\<lambda>_. 0) (table_encode (\<lambda>_. 0) (table_new 2)) = Ok t \<and> restored_ok t \<and> count t \<le> capacity t"
proof -
  have "table_decode (\<lambda>_. 0) (table_encode (\<lambda>_. 0) (table_new 2)) = Ok ((table_new 2)\<lparr>ct_capacity_committed := True\<rparr>)"
    unfolding table_decode_def table_encode_def Let_def split_verified_trailer_stamp
    using u32_codec.get_put [of 0 "[]"]
    by (simp add: encode_content_def wire_truncated_def occupied_def map_filter_def table_new_def with_mode_def
      preallocate_slots_def commit_capacity_def count_def resize_slots_def CLIENTS_TABLE_SLOT_MAX_def)
  from this decoded_table_protected [OF this] show ?thesis
    by blast
qed

theorem checkpoint_roundtrip_witness:
  "\<exists>snapshot t'. to_snapshot sample_wire_table = Some snapshot \<and> from_snapshot (\<lambda>_. 0) snapshot = Some (Ok t') \<and>
     ct_slots t' = map (map_option checkpointed) (ct_slots sample_wire_table)"
  using checkpoint_roundtrip [OF sample_wire_table_facts, of "\<lambda>_. 0"] by blast

end
