(* ===== verification/Vsr_Pipeline.thy ===== *)
theory Vsr_Pipeline
  imports Dvc_Merge Client_Table
begin

text \<open>
  The two queues of a primary (\<open>src/core/consensus/src/impls.rs\<close>): prepares in flight with the
  acknowledgements each has collected, and requests that wait for a prepare slot. A bit set of
  replicas is a set of numbers, a reply channel is its identity, a mutable reference into a queue is
  the index of the entry, and a panic is \<open>None\<close>. The \<open>debug_assert\<close>s of the lookups are not part of a
  release build and are left out; the queue invariant makes them true.
\<close>

section \<open>Entries\<close>

definition PIPELINE_PREPARE_QUEUE_MAX :: nat where "PIPELINE_PREPARE_QUEUE_MAX = 32"
definition PIPELINE_REQUEST_QUEUE_MAX :: nat where "PIPELINE_REQUEST_QUEUE_MAX = 64"

type_synonym Sender = nat

record PipelineEntry =
  pe_header :: PrepareHeader
  pe_local_order :: "u64 option"
  pe_ok_from_replicas :: "nat set"
  pe_ok_quorum_received :: bool
  pe_reply_sender :: "Sender option"

definition pipeline_entry :: "PrepareHeader \<Rightarrow> PipelineEntry" where
  "pipeline_entry header =
     \<lparr>pe_header = header, pe_local_order = None, pe_ok_from_replicas = {}, pe_ok_quorum_received = False,
      pe_reply_sender = None\<rparr>"

definition entry_with_sender :: "PrepareHeader \<Rightarrow> Sender \<Rightarrow> PipelineEntry" where
  "entry_with_sender header sender =
     \<lparr>pe_header = header, pe_local_order = None, pe_ok_from_replicas = {}, pe_ok_quorum_received = False,
      pe_reply_sender = Some sender\<rparr>"

definition take_reply_sender :: "PipelineEntry \<Rightarrow> Sender option \<times> PipelineEntry" where
  "take_reply_sender e = (pe_reply_sender e, e\<lparr>pe_reply_sender := None\<rparr>)"

definition add_ack :: "u8 \<Rightarrow> PipelineEntry \<Rightarrow> PipelineEntry \<times> nat" where
  "add_ack replica e =
     (let acks = insert (unat replica) (pe_ok_from_replicas e)
      in (e\<lparr>pe_ok_from_replicas := acks\<rparr>, card acks))"

definition has_ack :: "PipelineEntry \<Rightarrow> u8 \<Rightarrow> bool" where
  "has_ack e replica \<longleftrightarrow> unat replica \<in> pe_ok_from_replicas e"

definition ack_count :: "PipelineEntry \<Rightarrow> nat" where
  "ack_count e = card (pe_ok_from_replicas e)"

text \<open>The message of a queued request is its header and the bytes after it.\<close>

record RequestEntry =
  re_local_order :: "u64 option"
  re_auto_commit :: "nat option"
  re_header :: RoutedRequestHeader
  re_body :: bytes
  re_received_at :: u64
  re_reply_sender :: "Sender option"

definition request_entry :: "RoutedRequestHeader \<Rightarrow> bytes \<Rightarrow> Sender option \<Rightarrow> RequestEntry" where
  "request_entry header body sender =
     \<lparr>re_local_order = None, re_auto_commit = None, re_header = header, re_body = body, re_received_at = 0,
      re_reply_sender = sender\<rparr>"

definition with_auto_commit :: "RoutedRequestHeader \<Rightarrow> bytes \<Rightarrow> nat \<Rightarrow> RequestEntry" where
  "with_auto_commit header body reservation =
     (request_entry header body None)\<lparr>re_auto_commit := Some reservation\<rparr>"

definition take_auto_commit :: "RequestEntry \<Rightarrow> nat option \<times> RequestEntry" where
  "take_auto_commit e = (re_auto_commit e, e\<lparr>re_auto_commit := None\<rparr>)"

definition queue_wait_micros :: "RequestEntry \<Rightarrow> u64 \<Rightarrow> u64" where
  "queue_wait_micros e now = saturating_sub now (re_received_at e)"

section \<open>The queues\<close>

record LocalPipeline =
  lp_prepare_queue :: "PipelineEntry list"
  lp_request_queue :: "RequestEntry list"
  lp_prepare_queue_max :: nat
  lp_request_queue_max :: nat

definition with_capacities :: "nat \<Rightarrow> nat \<Rightarrow> LocalPipeline option" where
  "with_capacities prepare_max request_max =
     (if \<not> (prepare_max > 0 \<and> request_max > 0) then None
      else if \<not> prepare_max < DVC_HEADERS_MAX then None
      else Some \<lparr>lp_prepare_queue = [], lp_request_queue = [], lp_prepare_queue_max = prepare_max,
                 lp_request_queue_max = request_max\<rparr>)"

definition pipeline_new :: "LocalPipeline option" where
  "pipeline_new = with_capacities PIPELINE_PREPARE_QUEUE_MAX PIPELINE_REQUEST_QUEUE_MAX"

definition prepare_queue_full :: "LocalPipeline \<Rightarrow> bool" where
  "prepare_queue_full p \<longleftrightarrow> length (lp_prepare_queue p) \<ge> lp_prepare_queue_max p"

definition request_queue_full :: "LocalPipeline \<Rightarrow> bool" where
  "request_queue_full p \<longleftrightarrow> length (lp_request_queue p) \<ge> lp_request_queue_max p"

definition has_request_before :: "LocalPipeline \<Rightarrow> u64 \<Rightarrow> bool" where
  "has_request_before p order \<longleftrightarrow>
     list_ex (\<lambda>e. case pe_local_order e of None \<Rightarrow> True | Some admitted \<Rightarrow> admitted < order) (lp_prepare_queue p) \<or>
     list_ex (\<lambda>e. case re_local_order e of None \<Rightarrow> True | Some admitted \<Rightarrow> admitted < order) (lp_request_queue p)"

definition push_request :: "RequestEntry \<Rightarrow> LocalPipeline \<Rightarrow> RequestEntry + LocalPipeline" where
  "push_request e p =
     (if request_queue_full p then Err e else Ok (p\<lparr>lp_request_queue := lp_request_queue p @ [e]\<rparr>))"

definition pop_front :: "'a list \<Rightarrow> 'a option \<times> 'a list" where
  "pop_front xs = (case xs of [] \<Rightarrow> (None, []) | x # xs \<Rightarrow> (Some x, xs))"

definition pop_request :: "LocalPipeline \<Rightarrow> RequestEntry option \<times> LocalPipeline" where
  "pop_request p = (let (e, queue) = pop_front (lp_request_queue p) in (e, p\<lparr>lp_request_queue := queue\<rparr>))"

definition pipeline_is_empty :: "LocalPipeline \<Rightarrow> bool" where
  "pipeline_is_empty p \<longleftrightarrow> lp_prepare_queue p = [] \<and> lp_request_queue p = []"

definition push_prepare :: "PipelineEntry \<Rightarrow> LocalPipeline \<Rightarrow> LocalPipeline option" where
  "push_prepare e p =
     (if prepare_queue_full p then None
      else case last_opt (lp_prepare_queue p) of
        None \<Rightarrow> Some (p\<lparr>lp_prepare_queue := lp_prepare_queue p @ [e]\<rparr>)
      | Some tail \<Rightarrow>
          if ph_op (pe_header e) \<noteq> ph_op (pe_header tail) + 1 then None
          else if ph_parent (pe_header e) \<noteq> fr_checksum (pe_header tail) then None
          else Some (p\<lparr>lp_prepare_queue := lp_prepare_queue p @ [e]\<rparr>))"

definition pop_message :: "LocalPipeline \<Rightarrow> PipelineEntry option \<times> LocalPipeline" where
  "pop_message p = (let (e, queue) = pop_front (lp_prepare_queue p) in (e, p\<lparr>lp_prepare_queue := queue\<rparr>))"

definition remove_prepare_tail :: "u64 \<Rightarrow> u128 \<Rightarrow> LocalPipeline \<Rightarrow> PipelineEntry option \<times> LocalPipeline" where
  "remove_prepare_tail op checksum p =
     (case last_opt (lp_prepare_queue p) of
        None \<Rightarrow> (None, p)
      | Some tail \<Rightarrow>
          if ph_op (pe_header tail) \<noteq> op \<or> fr_checksum (pe_header tail) \<noteq> checksum then (None, p)
          else (Some tail, p\<lparr>lp_prepare_queue := butlast (lp_prepare_queue p)\<rparr>))"

definition prepare_head :: "LocalPipeline \<Rightarrow> PipelineEntry option" where
  "prepare_head p = first_opt (lp_prepare_queue p)"

definition message_by_op_and_checksum :: "LocalPipeline \<Rightarrow> u64 \<Rightarrow> u128 \<Rightarrow> PipelineEntry option" where
  "message_by_op_and_checksum p op checksum =
     (case (first_opt (lp_prepare_queue p), last_opt (lp_prepare_queue p)) of
        (Some head, Some tail) \<Rightarrow>
          if op < ph_op (pe_header head) \<or> op > ph_op (pe_header tail) then None
          else case get_at (lp_prepare_queue p) (unat (op - ph_op (pe_header head))) of
            None \<Rightarrow> None
          | Some e \<Rightarrow> if fr_checksum (pe_header e) = checksum then Some e else None
      | _ \<Rightarrow> None)"

definition message_by_op :: "LocalPipeline \<Rightarrow> u64 \<Rightarrow> PipelineEntry option" where
  "message_by_op p op =
     (case first_opt (lp_prepare_queue p) of
        None \<Rightarrow> None
      | Some head \<Rightarrow>
          if op < ph_op (pe_header head) then None
          else get_at (lp_prepare_queue p) (unat (op - ph_op (pe_header head))))"

definition message_by_op_mut :: "LocalPipeline \<Rightarrow> u64 \<Rightarrow> nat option" where
  "message_by_op_mut p op =
     (case first_opt (lp_prepare_queue p) of
        None \<Rightarrow> None
      | Some head \<Rightarrow>
          if op < ph_op (pe_header head) then None
          else let index = unat (op - ph_op (pe_header head))
               in if index \<ge> length (lp_prepare_queue p) then None else Some index)"

definition has_message_from_client :: "LocalPipeline \<Rightarrow> u128 \<Rightarrow> bool" where
  "has_message_from_client p client \<longleftrightarrow>
     list_ex (\<lambda>e. ph_client (pe_header e) = client) (lp_prepare_queue p) \<or>
     list_ex (\<lambda>r. rr_client (re_header r) = client) (lp_request_queue p)"

text \<open>The loop of \<open>verify\<close>: the entries are consecutive from \<open>op\<close> and chained from \<open>parent\<close>.\<close>

fun verify_chain :: "u64 \<Rightarrow> u128 \<Rightarrow> PipelineEntry list \<Rightarrow> bool" where
  "verify_chain op parent [] \<longleftrightarrow> True"
| "verify_chain op parent (e # es) \<longleftrightarrow>
     ph_op (pe_header e) = op \<and> ph_parent (pe_header e) = parent \<and>
     verify_chain (op + 1) (fr_checksum (pe_header e)) es"

definition pipeline_verify :: "LocalPipeline \<Rightarrow> bool" where
  "pipeline_verify p \<longleftrightarrow>
     length (lp_prepare_queue p) \<le> lp_prepare_queue_max p \<and>
     length (lp_request_queue p) \<le> lp_request_queue_max p \<and>
     (case first_opt (lp_prepare_queue p) of
        None \<Rightarrow> True
      | Some head \<Rightarrow> verify_chain (ph_op (pe_header head)) (ph_parent (pe_header head)) (lp_prepare_queue p))"

definition pipeline_clear :: "LocalPipeline \<Rightarrow> LocalPipeline" where
  "pipeline_clear p = p\<lparr>lp_prepare_queue := [], lp_request_queue := []\<rparr>"

definition cancel_all_subscribers :: "LocalPipeline \<Rightarrow> LocalPipeline" where
  "cancel_all_subscribers p =
     p\<lparr>lp_prepare_queue := map (\<lambda>e. snd (take_reply_sender e)) (lp_prepare_queue p)\<rparr>"

definition retain_requests :: "(RequestEntry \<Rightarrow> bool) \<Rightarrow> LocalPipeline \<Rightarrow> LocalPipeline" where
  "retain_requests keep p = p\<lparr>lp_request_queue := filter keep (lp_request_queue p)\<rparr>"

definition clear_request_queue :: "LocalPipeline \<Rightarrow> LocalPipeline" where
  "clear_request_queue p = p\<lparr>lp_request_queue := []\<rparr>"

definition pending_request :: "LocalPipeline \<Rightarrow> u128 \<Rightarrow> (u64 \<times> u64 \<times> Operation) option" where
  "pending_request p client =
     (case find (\<lambda>e. ph_client (pe_header e) = client) (lp_prepare_queue p) of
        Some e \<Rightarrow> Some (ph_session (pe_header e), ph_request (pe_header e), ph_operation (pe_header e))
      | None \<Rightarrow>
          map_option (\<lambda>r. (rr_session (re_header r), rr_request (re_header r), rr_operation (re_header r)))
            (find (\<lambda>r. rr_client (re_header r) = client) (lp_request_queue p)))"

definition pending_client_ids :: "LocalPipeline \<Rightarrow> u128 list" where
  "pending_client_ids p =
     map (\<lambda>e. ph_client (pe_header e)) (lp_prepare_queue p) @ map (\<lambda>r. rr_client (re_header r)) (lp_request_queue p)"

section \<open>Reserved retry protection\<close>

definition AUTO_COMMIT_CLIENT_ID :: u128 where "AUTO_COMMIT_CLIENT_ID = - 1"

definition is_auto_commit_client :: "u128 \<Rightarrow> bool" where
  "is_auto_commit_client client_id \<longleftrightarrow> client_id = AUTO_COMMIT_CLIENT_ID"

definition retry_capacity :: "LocalPipeline \<Rightarrow> ClientTable \<Rightarrow> nat" where
  "retry_capacity p table =
     (if ct_capacity_committed table then capacity table
      else case prepare_head p of
        Some e \<Rightarrow>
          if ph_retry_capacity (pe_header e) \<noteq> 0 then unat (ph_retry_capacity (pe_header e)) else capacity table
      | None \<Rightarrow> capacity table)"

definition has_retry_capacity :: "LocalPipeline \<Rightarrow> ClientTable \<Rightarrow> u128 \<Rightarrow> bool" where
  "has_retry_capacity p table client =
     (if contains table client \<or> is_auto_commit_client client then True
      else
        let cap = retry_capacity p table in
        if length (lp_prepare_queue p) + length (lp_request_queue p) < cap - count table then True
        else
          let pending = set (filter (\<lambda>c. c \<noteq> 0 \<and> \<not> is_auto_commit_client c \<and> \<not> contains table c)
                           (pending_client_ids p))
          in client \<in> pending \<or> count table + card pending < cap)"

section \<open>The queue of prepares is a chain\<close>

text \<open>Each prepare follows the one before it: the next op number, and its parent is that prepare's checksum.\<close>

definition follows :: "PipelineEntry \<Rightarrow> PipelineEntry \<Rightarrow> bool" where
  "follows a b \<longleftrightarrow>
     ph_op (pe_header b) = ph_op (pe_header a) + 1 \<and> ph_parent (pe_header b) = fr_checksum (pe_header a)"

abbreviation linked :: "PipelineEntry list \<Rightarrow> bool" where
  "linked \<equiv> successively follows"

lemma verify_chain_linked:
  "verify_chain op parent (e # es) \<longleftrightarrow>
     ph_op (pe_header e) = op \<and> ph_parent (pe_header e) = parent \<and> linked (e # es)"
proof (induction es arbitrary: op parent e)
  case (Cons f es)
  show ?case
    unfolding verify_chain.simps(2) [of op parent e] Cons.IH by (auto simp: follows_def)
qed simp

lemma pipeline_verify_linked:
  "pipeline_verify p \<longleftrightarrow>
     length (lp_prepare_queue p) \<le> lp_prepare_queue_max p \<and>
     length (lp_request_queue p) \<le> lp_request_queue_max p \<and> linked (lp_prepare_queue p)"
  by (cases "lp_prepare_queue p") (simp_all only: pipeline_verify_def first_opt_simps option.simps
    verify_chain_linked successively.simps simp_thms)

lemma linked_nth:
  assumes "linked es" and "i < length es"
  shows "ph_op (pe_header (es ! i)) = ph_op (pe_header (hd es)) + of_nat i"
  using assms(2)
proof (induction i)
  case 0
  then show ?case
    by (simp add: hd_conv_nth)
next
  case (Suc i)
  then have "follows (es ! i) (es ! Suc i)"
    using assms(1) by (simp add: successively_conv_nth)
  with Suc show ?case
    by (simp add: follows_def add.assoc add.commute)
qed

text \<open>What a client of the trait \<open>Pipeline\<close> relies on.\<close>

locale pipeline_contract =
  fixes entries :: "'p \<Rightarrow> PipelineEntry list"
    and push :: "PipelineEntry \<Rightarrow> 'p \<Rightarrow> 'p option"
    and pop :: "'p \<Rightarrow> PipelineEntry option \<times> 'p"
    and remove_tail :: "u64 \<Rightarrow> u128 \<Rightarrow> 'p \<Rightarrow> PipelineEntry option \<times> 'p"
    and entry_by_op :: "'p \<Rightarrow> u64 \<Rightarrow> PipelineEntry option"
    and verify :: "'p \<Rightarrow> bool"
  assumes verify_linked: "verify p \<Longrightarrow> linked (entries p)"
    and push_entries: "push e p = Some p' \<Longrightarrow> entries p' = entries p @ [e]"
    and push_verify: "verify p \<Longrightarrow> push e p = Some p' \<Longrightarrow> verify p'"
    and pop_entries: "pop p = (x, p') \<Longrightarrow> entries p = (case x of None \<Rightarrow> [] | Some e \<Rightarrow> [e]) @ entries p'"
    and pop_None: "fst (pop p) = None \<longleftrightarrow> entries p = []"
    and pop_verify: "verify p \<Longrightarrow> verify (snd (pop p))"
    and remove_entries: "remove_tail op c p = (Some e, p') \<Longrightarrow>
      entries p = entries p' @ [e] \<and> ph_op (pe_header e) = op \<and> fr_checksum (pe_header e) = c"
    and remove_Some: "entries p = es @ [e] \<Longrightarrow>
      fst (remove_tail (ph_op (pe_header e)) (fr_checksum (pe_header e)) p) = Some e"
    and by_op_entries: "entry_by_op p op =
      (case first_opt (entries p) of
         None \<Rightarrow> None
       | Some head \<Rightarrow> if op < ph_op (pe_header head) then None
           else get_at (entries p) (unat (op - ph_op (pe_header head))))"
begin

text \<open>A lookup by op number finds only an entry with that number.\<close>

lemma by_op_sound:
  assumes "verify p" and "entry_by_op p op = Some e"
  shows "e \<in> set (entries p) \<and> ph_op (pe_header e) = op"
proof -
  obtain head es where es: "entries p = head # es"
    using assms(2) by (cases "entries p") (simp_all add: by_op_entries)
  let ?i = "unat (op - ph_op (pe_header head))"
  have at: "?i < length (entries p)" "entries p ! ?i = e"
    using assms(2) by (simp_all add: by_op_entries es get_at_eq_Some split: if_splits)
  from linked_nth [OF verify_linked [OF assms(1)] at(1)] at(2) have "ph_op (pe_header e) = op"
    by (simp add: es)
  with at show ?thesis
    by auto
qed

text \<open>Every entry is found, as long as the op numbers of the queue do not wrap around.\<close>

lemma by_op_complete:
  assumes "verify p" and "i < length (entries p)"
    and "unat (ph_op (pe_header (hd (entries p)))) + length (entries p) \<le> 2 ^ 64"
  shows "entry_by_op p (ph_op (pe_header (entries p ! i))) = Some (entries p ! i)"
proof -
  obtain head es where es: "entries p = head # es"
    using assms(2) by (cases "entries p") auto
  let ?h = "ph_op (pe_header head)"
  have op: "ph_op (pe_header (entries p ! i)) = ?h + of_nat i"
    using linked_nth [OF verify_linked [OF assms(1)] assms(2)] by (simp add: es)
  have small: "unat ?h + i < 2 ^ 64"
    using assms(2,3) by (simp add: es)
  then have i: "unat (of_nat i :: u64) = i"
    by (simp add: unat_of_nat)
  then have "\<not> ?h + of_nat i < ?h"
    using small by (simp add: word_less_nat_alt unat_word_ariths)
  then show ?thesis
    using assms(2) i unfolding op by_op_entries by (simp add: es get_at_def)
qed

text \<open>Removing the entry just pushed gives back the queue.\<close>

lemma push_remove:
  assumes "push e p = Some p'"
  shows "\<exists>p''. remove_tail (ph_op (pe_header e)) (fr_checksum (pe_header e)) p' = (Some e, p'') \<and>
    entries p'' = entries p"
proof -
  note pushed = push_entries [OF assms]
  obtain p'' where p'': "remove_tail (ph_op (pe_header e)) (fr_checksum (pe_header e)) p' = (Some e, p'')"
    using remove_Some [OF pushed] by (cases "remove_tail (ph_op (pe_header e)) (fr_checksum (pe_header e)) p'") simp
  from remove_entries [OF this] pushed have "entries p'' = entries p"
    by simp
  with p'' show ?thesis
    by blast
qed

end

lemma push_prepare_eq:
  "push_prepare e p = Some p' \<longleftrightarrow>
     \<not> prepare_queue_full p \<and> (lp_prepare_queue p = [] \<or> follows (last (lp_prepare_queue p)) e) \<and>
     p' = p\<lparr>lp_prepare_queue := lp_prepare_queue p @ [e]\<rparr>"
  by (auto simp: push_prepare_def last_opt_def follows_def split: option.splits)

lemma linked_snoc: "linked (es @ [e]) \<longleftrightarrow> linked es \<and> (es = [] \<or> follows (last es) e)"
  by (auto simp: successively_append_iff)

lemma linked_tl: "linked (e # es) \<Longrightarrow> linked es"
  by (cases es) simp_all

interpretation local_pipeline: pipeline_contract lp_prepare_queue push_prepare pop_message
  remove_prepare_tail message_by_op pipeline_verify
proof unfold_locales
  fix p p' :: LocalPipeline and e x op c es
  show "pipeline_verify p \<Longrightarrow> linked (lp_prepare_queue p)"
    by (simp add: pipeline_verify_linked)
  show "push_prepare e p = Some p' \<Longrightarrow> lp_prepare_queue p' = lp_prepare_queue p @ [e]"
    by (simp add: push_prepare_eq)
  show "pipeline_verify p \<Longrightarrow> push_prepare e p = Some p' \<Longrightarrow> pipeline_verify p'"
    by (auto simp: pipeline_verify_linked push_prepare_eq linked_snoc prepare_queue_full_def)
  show "pop_message p = (x, p') \<Longrightarrow>
      lp_prepare_queue p = (case x of None \<Rightarrow> [] | Some e \<Rightarrow> [e]) @ lp_prepare_queue p'"
    by (auto simp: pop_message_def pop_front_def split: list.splits)
  show "(fst (pop_message p) = None) = (lp_prepare_queue p = [])"
    by (auto simp: pop_message_def pop_front_def split: list.splits)
  show "pipeline_verify p \<Longrightarrow> pipeline_verify (snd (pop_message p))"
    by (auto simp: pop_message_def pop_front_def pipeline_verify_linked split: list.splits dest: linked_tl)
  show "remove_prepare_tail op c p = (Some e, p') \<Longrightarrow>
      lp_prepare_queue p = lp_prepare_queue p' @ [e] \<and> ph_op (pe_header e) = op \<and> fr_checksum (pe_header e) = c"
    by (auto simp: remove_prepare_tail_def last_opt_def split: option.splits if_splits)
  show "lp_prepare_queue p = es @ [e] \<Longrightarrow>
      fst (remove_prepare_tail (ph_op (pe_header e)) (fr_checksum (pe_header e)) p) = Some e"
    by (simp add: remove_prepare_tail_def)
  show "message_by_op p op =
      (case first_opt (lp_prepare_queue p) of
         None \<Rightarrow> None
       | Some head \<Rightarrow> if op < ph_op (pe_header head) then None
           else get_at (lp_prepare_queue p) (unat (op - ph_op (pe_header head))))"
    by (simp add: message_by_op_def)
qed

lemma message_by_op_mut_eq:
  "message_by_op_mut p op = Some i \<longleftrightarrow>
     message_by_op p op = Some (lp_prepare_queue p ! i) \<and> i < length (lp_prepare_queue p) \<and>
     i = unat (op - ph_op (pe_header (hd (lp_prepare_queue p))))"
  by (cases "lp_prepare_queue p") (auto simp: message_by_op_mut_def message_by_op_def get_at_def)

lemma pipeline_verify_clear [simp]: "pipeline_verify (pipeline_clear p)"
  by (simp add: pipeline_verify_linked pipeline_clear_def)

section \<open>Admission against reserved retry protection\<close>

text \<open>The clients that would enter the table if everything queued were committed.\<close>

definition uncounted :: "LocalPipeline \<Rightarrow> ClientTable \<Rightarrow> u128 set" where
  "uncounted p table =
     {c \<in> set (pending_client_ids p). c \<noteq> 0 \<and> \<not> is_auto_commit_client c \<and> \<not> contains table c}"

text \<open>
  C38. Admission by the reserved capacity is exact. Without looking at the queues when they are short,
  the check gives the answer of the full count: a client is admitted if and only if it is in the table
  already, is the auto-commit client, is pending already, or the table and the distinct new clients of
  both queues leave room for one more.
\<close>

theorem retry_admission_exact:
  "has_retry_capacity p table client \<longleftrightarrow>
     contains table client \<or> is_auto_commit_client client \<or> client \<in> uncounted p table \<or>
     count table + card (uncounted p table) < retry_capacity p table"
proof -
  let ?n = "length (lp_prepare_queue p) + length (lp_request_queue p)"
  have set: "set (filter (\<lambda>c. c \<noteq> 0 \<and> \<not> is_auto_commit_client c \<and> \<not> contains table c) (pending_client_ids p)) =
      uncounted p table"
    by (simp add: uncounted_def)
  have "card (uncounted p table) \<le> card (set (pending_client_ids p))"
    by (rule card_mono) (auto simp: uncounted_def)
  also have "\<dots> \<le> ?n"
    using card_length [of "pending_client_ids p"] by (simp add: pending_client_ids_def)
  finally have "count table + card (uncounted p table) < retry_capacity p table"
    if "?n < retry_capacity p table - count table"
    using that by simp
  then show ?thesis
    unfolding has_retry_capacity_def Let_def set by auto
qed

end
