(* ===== verification/Vsr_Replica.thy ===== *)
theory Vsr_Replica
  imports Vsr_Pipeline Vsr_State Vsr_Timeout "HOL-Library.Monad_Syntax"
begin

text \<open>
  The state of one replica of a consensus group and the operations its handlers are built from
  (\<open>VsrConsensus\<close> in \<open>src/core/consensus/src/impls.rs\<close>). A \<open>Cell\<close> or \<open>RefCell\<close> is a field; an operation
  returns the changed state, \<open>None\<close> when the code panics. The clock, the message bus, the loopback
  notifier and the log and simulation events have no effect on the state and are left out; a clock
  reading is an argument. The fields are those of the struct, in its order.
\<close>

section \<open>The state\<close>

definition METADATA_GROUP :: u64 where "METADATA_GROUP = push_bit 63 1"
definition PROBE_ATTEMPTS_MAX :: u32 where "PROBE_ATTEMPTS_MAX = 5"

datatype Status = Normal | ViewChange | Recovering

datatype StateTransferStage = Idle | AwaitingTarget | Fetching | Installing

fun valid_transition :: "StateTransferStage \<Rightarrow> StateTransferStage \<Rightarrow> bool" where
  "valid_transition Idle AwaitingTarget = True"
| "valid_transition AwaitingTarget Fetching = True"
| "valid_transition AwaitingTarget Idle = True"
| "valid_transition Fetching Installing = True"
| "valid_transition Fetching AwaitingTarget = True"
| "valid_transition Fetching Idle = True"
| "valid_transition Installing Idle = True"
| "valid_transition _ _ = False"

record ReplicaCommitProgress =
  cp_acked :: u64
  cp_sent :: u64

definition default_progress :: ReplicaCommitProgress where
  "default_progress = \<lparr>cp_acked = 0, cp_sent = 0\<rparr>"

definition progress_owes :: "ReplicaCommitProgress \<Rightarrow> u64 \<Rightarrow> bool" where
  "progress_owes p eager \<longleftrightarrow> cp_sent p < min eager (cp_acked p)"

record CommitAnnouncements =
  ca_eager :: u64
  ca_replicas :: "ReplicaCommitProgress list"

definition announcements_new :: "u8 \<Rightarrow> CommitAnnouncements" where
  "announcements_new replica_count = \<lparr>ca_eager = 0, ca_replicas = replicate (unat replica_count) default_progress\<rparr>"

definition announcements_reset :: "CommitAnnouncements \<Rightarrow> CommitAnnouncements" where
  "announcements_reset a = \<lparr>ca_eager = 0, ca_replicas = map (\<lambda>_. default_progress) (ca_replicas a)\<rparr>"

definition record_ack :: "u8 \<Rightarrow> u64 \<Rightarrow> CommitAnnouncements \<Rightarrow> CommitAnnouncements" where
  "record_ack replica op a =
     (case get_at (ca_replicas a) (unat replica) of
        None \<Rightarrow> a
      | Some progress \<Rightarrow>
          a\<lparr>ca_replicas := (ca_replicas a)[unat replica := progress\<lparr>cp_acked := max (cp_acked progress) op\<rparr>]\<rparr>)"

definition record_broadcast :: "u64 \<Rightarrow> CommitAnnouncements \<Rightarrow> CommitAnnouncements" where
  "record_broadcast commit a =
     a\<lparr>ca_replicas := map (\<lambda>progress. progress\<lparr>cp_sent := max (cp_sent progress) commit\<rparr>) (ca_replicas a)\<rparr>"

definition announcements_owe :: "CommitAnnouncements \<Rightarrow> u8 \<Rightarrow> bool" where
  "announcements_owe a replica =
     (case get_at (ca_replicas a) (unat replica) of
        None \<Rightarrow> False
      | Some progress \<Rightarrow> progress_owes progress (ca_eager a))"

definition take_owed :: "u8 \<Rightarrow> u64 \<Rightarrow> CommitAnnouncements \<Rightarrow> u64 option \<times> CommitAnnouncements" where
  "take_owed replica commit_min a =
     (case get_at (ca_replicas a) (unat replica) of
        None \<Rightarrow> (None, a)
      | Some progress \<Rightarrow>
          if \<not> progress_owes progress (ca_eager a) then (None, a)
          else let sent = min commit_min (cp_acked progress)
               in (Some sent, a\<lparr>ca_replicas := (ca_replicas a)[unat replica := progress\<lparr>cp_sent := sent\<rparr>]\<rparr>))"

record 'g VsrConsensus =
  vc_cluster :: u128
  vc_replica :: u8
  vc_replica_count :: u8
  vc_group :: u64
  vc_partition_incarnation :: u64
  vc_view :: u32
  vc_log_view :: u32
  vc_view_durable :: u32
  vc_log_view_durable :: u32
  vc_incarnation :: u128
  vc_recovery_barrier :: u64
  vc_recovery_deadline :: nat
  vc_view_start_head :: u64
  vc_ceded_primaryship :: bool
  vc_status :: Status
  vc_state_transfer_stage :: StateTransferStage
  vc_observed_newer_view :: u32
  vc_observed_primary :: "(u32 \<times> u8) option"
  vc_commit_min :: u64
  vc_commit_max :: u64
  vc_sequencer :: u64
  vc_last_timestamp :: u64
  vc_last_prepare_checksum :: u128
  vc_pipeline :: LocalPipeline
  vc_prepare_queue_max :: nat
  vc_loopback_queue :: "bytes list"
  vc_start_view_change_from_all_replicas :: "nat set"
  vc_probe_attempts :: u32
  vc_probe_attempts_max :: u32
  vc_recovery_election_allowed :: bool
  vc_recovered_log_complete :: bool
  vc_rejoined_on_recovered_log :: bool
  vc_untrusted_log :: bool
  vc_untrusted_view_change_timeouts :: u32
  vc_local_dvc_suffix :: "(u64 \<times> u64 \<times> u64 \<times> DvcSuffix) option"
  vc_journal_mutations :: u64
  vc_pending_view_log :: "MergedLog option"
  vc_adopted_view :: "AdoptedView option"
  vc_adopted_view_dirty :: bool
  vc_view_log_unproven :: bool
  vc_log_view_proven :: u32
  vc_view_log_merged :: bool
  vc_view_log_merge_uncertified :: bool
  vc_view_log_unproven_through :: u64
  vc_view_log_missing_op :: "u64 option"
  vc_history_certificate :: "HistoryCertificate option"
  vc_history_certificate_durable :: "HistoryCertificate option"
  vc_do_view_change_from_all_replicas :: DvcQuorumArray
  vc_do_view_change_quorum :: bool
  vc_sent_own_start_view_change :: bool
  vc_sent_own_do_view_change :: bool
  vc_timeouts :: "'g TimeoutManager"
  vc_heartbeat_watermark :: "u32 \<times> u64"
  vc_eager_commit :: bool
  vc_commit_announcements :: CommitAnnouncements
  vc_applied_log_contradictions :: u64
  vc_applied_log_contradictions_taken :: u64
  vc_contradiction_reported_view :: "u32 option"


text \<open>\<open>assert!\<close> and \<open>assert_eq!\<close>.\<close>

definition assert_that :: "bool \<Rightarrow> unit option" where
  "assert_that b = (if b then Some () else None)"

definition start_timeout :: "TimeoutKind \<Rightarrow> 'g VsrConsensus \<Rightarrow> 'g VsrConsensus" where
  "start_timeout kind s = s\<lparr>vc_timeouts := tm_start kind (vc_timeouts s)\<rparr>"

definition stop_timeout :: "TimeoutKind \<Rightarrow> 'g VsrConsensus \<Rightarrow> 'g VsrConsensus" where
  "stop_timeout kind s = s\<lparr>vc_timeouts := tm_stop kind (vc_timeouts s)\<rparr>"

definition reset_timeout :: "TimeoutKind \<Rightarrow> 'g VsrConsensus \<Rightarrow> 'g VsrConsensus" where
  "reset_timeout kind s = s\<lparr>vc_timeouts := tm_reset kind (vc_timeouts s)\<rparr>"

section \<open>Roles and commit numbers\<close>

definition primary_index :: "'g VsrConsensus \<Rightarrow> u32 \<Rightarrow> u8" where
  "primary_index s v = ucast (v mod ucast (vc_replica_count s))"

definition is_primary_for_view :: "'g VsrConsensus \<Rightarrow> u32 \<Rightarrow> bool" where
  "is_primary_for_view s v \<longleftrightarrow> primary_index s v = vc_replica s"

definition is_primary :: "'g VsrConsensus \<Rightarrow> bool" where
  "is_primary s \<longleftrightarrow> primary_index s (vc_view s) = vc_replica s"

definition is_acting_primary :: "'g VsrConsensus \<Rightarrow> bool" where
  "is_acting_primary s \<longleftrightarrow> is_primary s \<and> vc_status s = Normal \<and> \<not> vc_ceded_primaryship s"

definition is_transferring :: "'g VsrConsensus \<Rightarrow> bool" where
  "is_transferring s \<longleftrightarrow> vc_state_transfer_stage s \<noteq> Idle"

definition has_observed_newer_view :: "'g VsrConsensus \<Rightarrow> bool" where
  "has_observed_newer_view s \<longleftrightarrow> vc_observed_newer_view s > vc_view s"

definition applied_view_start :: "'g VsrConsensus \<Rightarrow> bool" where
  "applied_view_start s \<longleftrightarrow> vc_commit_min s \<ge> vc_view_start_head s"

definition advance_commit_max :: "u64 \<Rightarrow> 'g VsrConsensus \<Rightarrow> 'g VsrConsensus option" where
  "advance_commit_max commit s =
     (let s' = (if commit > vc_commit_max s then
                  let s' = s\<lparr>vc_commit_max := commit\<rparr> in
                  if vc_sequencer s' > commit then start_timeout Prepare s' else s'
                else s)
      in do { assert_that (vc_commit_max s' \<ge> vc_commit_min s'); Some s' })"

definition advance_commit_min :: "u64 \<Rightarrow> 'g VsrConsensus \<Rightarrow> 'g VsrConsensus option" where
  "advance_commit_min op s =
     do {
       assert_that (op = vc_commit_min s + 1);
       let s' = s\<lparr>vc_commit_min := op\<rparr>;
       assert_that (vc_commit_max s' \<ge> vc_commit_min s');
       Some s'
     }"

definition restore_commit_state :: "u64 \<Rightarrow> u64 \<Rightarrow> 'g VsrConsensus \<Rightarrow> 'g VsrConsensus option" where
  "restore_commit_state cmin cmax s =
     do {
       assert_that (cmin \<le> cmax);
       assert_that (vc_commit_min s = 0);
       assert_that (vc_commit_max s = 0);
       Some (s\<lparr>vc_commit_max := cmax, vc_commit_min := cmin\<rparr>)
     }"

definition redecide_recovery_barrier :: "u64 \<Rightarrow> 'g VsrConsensus \<Rightarrow> 'g VsrConsensus" where
  "redecide_recovery_barrier head s =
     (let barrier = vc_recovery_barrier s in
      if barrier = 0 \<or> head = 0 then s else s\<lparr>vc_recovery_barrier := min barrier head\<rparr>)"

section \<open>The pipeline of a replica\<close>

definition sync_prepare_timeout :: "'g VsrConsensus \<Rightarrow> 'g VsrConsensus" where
  "sync_prepare_timeout s =
     (if pipeline_is_empty (vc_pipeline s) then stop_timeout Prepare s else start_timeout Prepare s)"

definition pop_committed_prepare :: "'g VsrConsensus \<Rightarrow> PipelineEntry option \<times> 'g VsrConsensus" where
  "pop_committed_prepare s =
     (let (popped, p) = pop_message (vc_pipeline s); s' = s\<lparr>vc_pipeline := p\<rparr> in
      (popped, if popped \<noteq> None then sync_prepare_timeout s' else s'))"

definition clear_pipeline :: "'g VsrConsensus \<Rightarrow> 'g VsrConsensus" where
  "clear_pipeline s = stop_timeout Prepare (s\<lparr>vc_pipeline := pipeline_clear (vc_pipeline s)\<rparr>)"

definition push_queued_request :: "u64 \<Rightarrow> RequestEntry \<Rightarrow> 'g VsrConsensus \<Rightarrow> RequestEntry + 'g VsrConsensus" where
  "push_queued_request now e s =
     rbind (push_request (e\<lparr>re_received_at := now\<rparr>) (vc_pipeline s)) (\<lambda>p. Ok (s\<lparr>vc_pipeline := p\<rparr>))"

definition observe_prepare_timestamp :: "u64 \<Rightarrow> 'g VsrConsensus \<Rightarrow> 'g VsrConsensus" where
  "observe_prepare_timestamp timestamp s =
     (if timestamp > vc_last_timestamp s then s\<lparr>vc_last_timestamp := timestamp\<rparr> else s)"

definition next_monotonic_timestamp :: "u64 \<Rightarrow> 'g VsrConsensus \<Rightarrow> u64 \<times> 'g VsrConsensus" where
  "next_monotonic_timestamp now s =
     (let next_ts = max now (saturating_add (vc_last_timestamp s) 1)
      in (next_ts, s\<lparr>vc_last_timestamp := next_ts\<rparr>))"

definition push_prepare_entry :: "PrepareHeader \<Rightarrow> PipelineEntry \<Rightarrow> 'g VsrConsensus \<Rightarrow> 'g VsrConsensus option" where
  "push_prepare_entry header e s =
     do {
       assert_that (is_primary s);
       p \<leftarrow> push_prepare e (vc_pipeline s);
       let s = s\<lparr>vc_pipeline := p, vc_sequencer := ph_op header, vc_last_prepare_checksum := fr_checksum header\<rparr>;
       let s = observe_prepare_timestamp (ph_timestamp header) s;
       Some (if \<not> tm_is_ticking (vc_timeouts s) Prepare then start_timeout Prepare s else s)
     }"

definition pipeline_message_with_order ::
    "PrepareHeader \<Rightarrow> Sender option \<Rightarrow> u64 option \<Rightarrow> 'g VsrConsensus \<Rightarrow> 'g VsrConsensus option" where
  "pipeline_message_with_order header sender order s =
     (let e = (case sender of None \<Rightarrow> pipeline_entry header | Some ch \<Rightarrow> entry_with_sender header ch)
      in push_prepare_entry header (e\<lparr>pe_local_order := order\<rparr>) s)"

datatype PrepareRollback = Unwound | NotPreAdvanced | Superseded u32 | Overtaken u64 | TailMismatch

definition rollback_pipelined_prepare ::
    "PrepareHeader \<Rightarrow> 'g VsrConsensus \<Rightarrow> PrepareRollback \<times> 'g VsrConsensus" where
  "rollback_pipelined_prepare header s =
     (if \<not> is_primary s then (NotPreAdvanced, s)
      else if fr_view header \<noteq> vc_view s \<or> vc_status s \<noteq> Normal then (Superseded (vc_view s), s)
      else if vc_sequencer s \<noteq> ph_op header then (Overtaken (vc_sequencer s), s)
      else case remove_prepare_tail (ph_op header) (fr_checksum header) (vc_pipeline s) of
        (None, _) \<Rightarrow> (TailMismatch, s)
      | (Some _, p) \<Rightarrow>
          (Unwound, sync_prepare_timeout
             (s\<lparr>vc_pipeline := p, vc_sequencer := saturating_sub (ph_op header) 1,
                vc_last_prepare_checksum := ph_parent header\<rparr>)))"

section \<open>Log views and certificates\<close>

definition set_log_view :: "u32 \<Rightarrow> 'g VsrConsensus \<Rightarrow> 'g VsrConsensus" where
  "set_log_view lv s =
     (let s = s\<lparr>vc_log_view := lv\<rparr> in
      if vc_group s \<noteq> METADATA_GROUP then s\<lparr>vc_log_view_proven := lv\<rparr> else s)"

definition certified_view :: "'g VsrConsensus \<Rightarrow> u32" where
  "certified_view s = (case vc_history_certificate s of None \<Rightarrow> 0 | Some c \<Rightarrow> hc_view c)"

definition log_view_claim :: "'g VsrConsensus \<Rightarrow> u32" where
  "log_view_claim s =
     (let proven = (if vc_group s = METADATA_GROUP then certified_view s
                    else if vc_view_log_unproven s then vc_log_view_proven s
                    else vc_log_view s)
      in case vc_adopted_view s of None \<Rightarrow> proven | Some adopted \<Rightarrow> max proven (av_view adopted))"

definition persisted_log_view :: "'g VsrConsensus \<Rightarrow> u32" where
  "persisted_log_view s =
     (if vc_group s = METADATA_GROUP then vc_log_view s
      else if vc_view_log_unproven s then vc_log_view_proven s
      else vc_log_view s)"

definition vsr_state :: "u64 \<Rightarrow> u128 \<Rightarrow> 'g VsrConsensus \<Rightarrow> VsrState" where
  "vsr_state checkpoint_op checkpoint_checksum s =
     with_history_certificate (vc_history_certificate s)
       \<lparr>vs_cluster = vc_cluster s, vs_replica_id = vc_replica s, vs_replica_count = vc_replica_count s,
        vs_view = vc_view s, vs_log_view = persisted_log_view s, vs_commit_max = vc_commit_max s,
        vs_checkpoint_op = checkpoint_op, vs_checkpoint_checksum = checkpoint_checksum,
        vs_offset_frontier = 0, vs_offset_reserved = 0, vs_adopted_view = vc_adopted_view s\<rparr>"

definition history_certified :: "'g VsrConsensus \<Rightarrow> bool" where
  "history_certified s \<longleftrightarrow>
     vc_group s \<noteq> METADATA_GROUP \<or>
     (case vc_history_certificate s of None \<Rightarrow> False | Some c \<Rightarrow> hc_view c = vc_log_view s)"

definition certify_view_log :: "u64 \<Rightarrow> u128 \<Rightarrow> 'g VsrConsensus \<Rightarrow> 'g VsrConsensus" where
  "certify_view_log op checksum s =
     s\<lparr>vc_history_certificate := Some (certificate_new (vc_log_view s) op checksum),
       vc_recovery_election_allowed := True\<rparr>"

definition extend_history_certificate :: "u64 \<Rightarrow> u128 \<Rightarrow> 'g VsrConsensus \<Rightarrow> 'g VsrConsensus" where
  "extend_history_certificate op checksum s =
     (case vc_history_certificate s of
        Some c \<Rightarrow>
          if hc_view c = vc_log_view s \<and> hc_op c < op \<and> vc_status s = Normal \<and> \<not> vc_view_log_unproven s
          then s\<lparr>vc_history_certificate := Some (certificate_new (hc_view c) op checksum)\<rparr> else s
      | None \<Rightarrow> s)"

definition lower_history_certificate :: "u64 \<Rightarrow> u64 \<Rightarrow> u128 \<Rightarrow> 'g VsrConsensus \<Rightarrow> 'g VsrConsensus" where
  "lower_history_certificate from op checksum s =
     (case vc_history_certificate s of
        Some c \<Rightarrow>
          if hc_op c \<ge> from
          then s\<lparr>vc_history_certificate := Some (certificate_new (hc_view c) op checksum)\<rparr> else s
      | None \<Rightarrow> s)"

definition invalidate_local_dvc_suffix :: "'g VsrConsensus \<Rightarrow> 'g VsrConsensus" where
  "invalidate_local_dvc_suffix s = s\<lparr>vc_local_dvc_suffix := None\<rparr>"

definition restore_history ::
    "HistoryRecovery \<Rightarrow> u64 \<times> u128 \<Rightarrow> VsrState option \<Rightarrow> 'g VsrConsensus \<Rightarrow> 'g VsrConsensus" where
  "restore_history recovery head recorded s =
     (let (cert, s) = (case recovery of
        Certified v _ \<Rightarrow>
          (let kept = (case recorded of
               None \<Rightarrow> None
             | Some st \<Rightarrow>
                 (case vs_adopted_view st of
                    None \<Rightarrow> None
                  | Some adopted \<Rightarrow> if av_view adopted > v then history_certificate st else None))
           in (case kept of None \<Rightarrow> Some (certificate_new v (fst head) (snd head)) | Some c \<Rightarrow> Some c, s))
      | Unproven \<Rightarrow>
          (None, invalidate_local_dvc_suffix
             (s\<lparr>vc_recovery_election_allowed := False, vc_view_log_unproven := True,
                vc_view_log_unproven_through := - 1, vc_view_log_missing_op := None\<rparr>)))
      in s\<lparr>vc_history_certificate := cert,
           vc_history_certificate_durable := (case recorded of None \<Rightarrow> cert | Some st \<Rightarrow> history_certificate st)\<rparr>)"

definition history_certificate_needs_persist :: "'g VsrConsensus \<Rightarrow> bool" where
  "history_certificate_needs_persist s =
     (case (vc_history_certificate s, vc_history_certificate_durable s) of
        (Some c, Some durable) \<Rightarrow> hc_view c \<noteq> hc_view durable \<or> hc_op c < hc_op durable
      | (Some _, None) \<Rightarrow> True
      | (None, _) \<Rightarrow> False)"

definition needs_superblock_persist :: "'g VsrConsensus \<Rightarrow> bool" where
  "needs_superblock_persist s \<longleftrightarrow>
     vc_view s \<noteq> vc_view_durable s \<or> persisted_log_view s \<noteq> vc_log_view_durable s \<or>
     history_certificate_needs_persist s \<or> vc_adopted_view_dirty s"

definition mark_superblock_durable :: "u32 \<Rightarrow> u32 \<Rightarrow> 'g VsrConsensus \<Rightarrow> 'g VsrConsensus" where
  "mark_superblock_durable v lv s = s\<lparr>vc_view_durable := v, vc_log_view_durable := lv\<rparr>"

section \<open>The suffix this replica votes with\<close>

definition dvc_commit_of :: "'g VsrConsensus \<Rightarrow> u64" where
  "dvc_commit_of s = min (vc_commit_max s) (vc_sequencer s)"

definition local_dvc_suffix_tag :: "'g VsrConsensus \<Rightarrow> u64 \<times> u64 \<times> u64" where
  "local_dvc_suffix_tag s = (vc_sequencer s, min (vc_commit_max s) (vc_sequencer s), vc_journal_mutations s)"

definition set_local_dvc_suffix :: "DvcSuffix \<Rightarrow> 'g VsrConsensus \<Rightarrow> 'g VsrConsensus" where
  "set_local_dvc_suffix suffix s =
     (let (op, commit, mutations) = local_dvc_suffix_tag s
      in s\<lparr>vc_local_dvc_suffix := Some (op, commit, mutations, suffix)\<rparr>)"

definition note_journal_mutation :: "'g VsrConsensus \<Rightarrow> 'g VsrConsensus" where
  "note_journal_mutation s = s\<lparr>vc_journal_mutations := vc_journal_mutations s + 1\<rparr>"

definition local_dvc_suffix :: "'g VsrConsensus \<Rightarrow> DvcSuffix" where
  "local_dvc_suffix s =
     (case vc_local_dvc_suffix s of
        Some (op, commit, mutations, suffix) \<Rightarrow>
          if (op, commit, mutations) = local_dvc_suffix_tag s then suffix else suffix_empty
      | None \<Rightarrow> suffix_empty)"

definition local_dvc_suffix_stale :: "'g VsrConsensus \<Rightarrow> bool" where
  "local_dvc_suffix_stale s =
     (case vc_local_dvc_suffix s of
        Some (op, commit, mutations, suffix) \<Rightarrow> (op, commit, mutations) \<noteq> local_dvc_suffix_tag s
      | None \<Rightarrow> True)"

section \<open>The proof of the view's log\<close>

definition view_log_is_pending :: "'g VsrConsensus \<Rightarrow> bool" where
  "view_log_is_pending s \<longleftrightarrow> vc_pending_view_log s \<noteq> None"

definition is_primary_elect :: "'g VsrConsensus \<Rightarrow> bool" where
  "is_primary_elect s \<longleftrightarrow> vc_do_view_change_quorum s \<and> view_log_is_pending s"

definition settle_view_log_proof :: "'g VsrConsensus \<Rightarrow> 'g VsrConsensus" where
  "settle_view_log_proof s =
     (let s = s\<lparr>vc_view_log_unproven := False, vc_untrusted_log := False,
                vc_view_log_merged := is_primary_elect s, vc_view_log_merge_uncertified := False\<rparr>;
          s = (if vc_group s \<noteq> METADATA_GROUP then s\<lparr>vc_log_view_proven := vc_log_view s\<rparr> else s)
      in invalidate_local_dvc_suffix s)"

definition note_uncertified_merge :: "'g VsrConsensus \<Rightarrow> 'g VsrConsensus" where
  "note_uncertified_merge s = invalidate_local_dvc_suffix (s\<lparr>vc_view_log_merge_uncertified := True\<rparr>)"

definition mark_view_log_unproven :: "'g VsrConsensus \<Rightarrow> 'g VsrConsensus" where
  "mark_view_log_unproven s =
     (let s = (if vc_group s \<noteq> METADATA_GROUP \<and> \<not> vc_view_log_unproven s
               then s\<lparr>vc_log_view_proven := vc_log_view s\<rparr> else s)
      in s\<lparr>vc_view_log_unproven := True\<rparr>)"

definition reopen_view_log_proof :: "'g VsrConsensus \<Rightarrow> 'g VsrConsensus" where
  "reopen_view_log_proof s =
     (mark_view_log_unproven s)\<lparr>vc_view_log_unproven_through := - 1, vc_view_log_missing_op := None\<rparr>"

definition uncertified_merge_settled :: "'g VsrConsensus \<Rightarrow> bool" where
  "uncertified_merge_settled s \<longleftrightarrow>
     vc_group s \<noteq> METADATA_GROUP \<and> vc_view_log_merged s \<and> vc_view_log_merge_uncertified s \<and>
     \<not> vc_view_log_unproven s"

definition unprove_superseded_merge :: "'g VsrConsensus \<Rightarrow> 'g VsrConsensus" where
  "unprove_superseded_merge s =
     (if uncertified_merge_settled s then reopen_view_log_proof (s\<lparr>vc_view_log_merged := False\<rparr>) else s)"

definition fence_view_log :: "u64 \<Rightarrow> u64 \<Rightarrow> 'g VsrConsensus \<Rightarrow> 'g VsrConsensus" where
  "fence_view_log op unproven_through s =
     invalidate_local_dvc_suffix
       ((mark_view_log_unproven s)\<lparr>vc_view_log_unproven_through := unproven_through,
          vc_view_log_missing_op := Some op\<rparr>)"

definition view_log_entry_proven :: "'g VsrConsensus \<Rightarrow> u64 \<Rightarrow> bool" where
  "view_log_entry_proven s op \<longleftrightarrow>
     \<not> vc_view_log_unproven s \<or> op \<le> vc_commit_min s \<or> op > vc_view_log_unproven_through s"

definition view_log_proof_covers :: "'g VsrConsensus \<Rightarrow> u64 \<Rightarrow> bool" where
  "view_log_proof_covers s op \<longleftrightarrow>
     \<not> view_log_entry_proven s op \<and>
     op \<le> (case vc_pending_view_log s of None \<Rightarrow> vc_sequencer s | Some pending \<Rightarrow> ml_op_head pending)"

text \<open>The bounds of the inclusive range.\<close>

definition view_log_unproven_range :: "'g VsrConsensus \<Rightarrow> u64 \<times> u64" where
  "view_log_unproven_range s =
     (saturating_add (vc_commit_min s) 1,
      if vc_view_log_unproven s then vc_view_log_unproven_through s
      else if uncertified_merge_settled s then - 1 else 0)"

definition view_log_repair_op :: "'g VsrConsensus \<Rightarrow> u64 option" where
  "view_log_repair_op s =
     (case vc_view_log_missing_op s of
        Some op \<Rightarrow> if vc_view_log_unproven s \<and> op > vc_commit_min s then Some op else None
      | None \<Rightarrow> None)"

datatype RepairEvidence = EvidenceProven | EvidenceUnproven | EvidenceContradicted

definition note_repaired_view_header :: "PrepareHeader \<Rightarrow> RepairEvidence \<Rightarrow> 'g VsrConsensus \<Rightarrow> 'g VsrConsensus" where
  "note_repaired_view_header header evidence s =
     (if evidence \<noteq> EvidenceProven then s
      else case vc_pending_view_log s of
        None \<Rightarrow> s
      | Some pending \<Rightarrow>
          if ml_op_head pending = ph_op header \<and>
             (case first_opt (ml_headers pending) of None \<Rightarrow> True | Some head \<Rightarrow> dvc_header_kind head = Blank)
          then
            let headers = (case ml_headers pending of [] \<Rightarrow> [header] | _ # rest \<Rightarrow> header # rest)
            in invalidate_local_dvc_suffix (s\<lparr>vc_pending_view_log := Some (pending\<lparr>ml_headers := headers\<rparr>)\<rparr>)
          else s)"

definition set_commit_floor :: "u64 \<Rightarrow> 'g VsrConsensus \<Rightarrow> 'g VsrConsensus option" where
  "set_commit_floor floor_op s =
     do {
       assert_that (vc_commit_min s \<le> floor_op);
       let s = s\<lparr>vc_commit_min := floor_op\<rparr>;
       Some (if (case vc_view_log_missing_op s of None \<Rightarrow> False | Some missing \<Rightarrow> missing \<le> floor_op)
             then invalidate_local_dvc_suffix (s\<lparr>vc_view_log_missing_op := None, vc_view_log_unproven_through := - 1\<rparr>)
             else s)
     }"

section \<open>Votes of a view change\<close>

definition svc_count_excluding_self :: "'g VsrConsensus \<Rightarrow> nat" where
  "svc_count_excluding_self s =
     (let svc = vc_start_view_change_from_all_replicas s in
      if unat (vc_replica s) \<in> svc then card svc - 1 else card svc)"

definition reset_dvc_quorum :: "'g VsrConsensus \<Rightarrow> 'g VsrConsensus" where
  "reset_dvc_quorum s =
     s\<lparr>vc_do_view_change_from_all_replicas := dvc_reset (vc_do_view_change_from_all_replicas s),
       vc_do_view_change_quorum := False\<rparr>"

definition reset_view_change_state :: "'g VsrConsensus \<Rightarrow> 'g VsrConsensus" where
  "reset_view_change_state s =
     (let s = reset_dvc_quorum (s\<lparr>vc_start_view_change_from_all_replicas := {}\<rparr>)
      in s\<lparr>vc_sent_own_start_view_change := False, vc_sent_own_do_view_change := False,
           vc_pending_view_log := None, vc_loopback_queue := [],
           vc_commit_announcements := announcements_reset (vc_commit_announcements s),
           vc_pipeline := clear_request_queue (cancel_all_subscribers (vc_pipeline s))\<rparr>)"

section \<open>State transfer and probing\<close>

definition set_state_transfer_stage :: "StateTransferStage \<Rightarrow> 'g VsrConsensus \<Rightarrow> 'g VsrConsensus option" where
  "set_state_transfer_stage stage s =
     do {
       assert_that (valid_transition (vc_state_transfer_stage s) stage);
       Some (s\<lparr>vc_state_transfer_stage := stage\<rparr>)
     }"

definition begin_view_probe :: "'g VsrConsensus \<Rightarrow> 'g VsrConsensus" where
  "begin_view_probe s =
     start_timeout RequestStartViewMessage (stop_timeout NormalHeartbeat (stop_timeout CommitMessage
       (stop_timeout Prepare (s\<lparr>vc_status := Recovering, vc_probe_attempts := 0\<rparr>))))"

definition finish_view_probe :: "'g VsrConsensus \<Rightarrow> 'g VsrConsensus" where
  "finish_view_probe s = stop_timeout RequestStartViewMessage (s\<lparr>vc_probe_attempts := 0\<rparr>)"

definition observe_newer_view :: "u32 \<Rightarrow> 'g VsrConsensus \<Rightarrow> 'g VsrConsensus" where
  "observe_newer_view v s =
     (if v > vc_observed_newer_view s then s\<lparr>vc_observed_newer_view := v\<rparr> else s)"

definition observe_primary :: "u32 \<Rightarrow> u8 \<Rightarrow> 'g VsrConsensus \<Rightarrow> 'g VsrConsensus" where
  "observe_primary v r s =
     (if r \<noteq> primary_index s v then s
      else if (case vc_observed_primary s of None \<Rightarrow> True | Some (observed_view, _) \<Rightarrow> v > observed_view)
      then s\<lparr>vc_observed_primary := Some (v, r)\<rparr> else s)"

definition forget_primary :: "u8 \<Rightarrow> 'g VsrConsensus \<Rightarrow> 'g VsrConsensus" where
  "forget_primary r s =
     (if (case vc_observed_primary s of None \<Rightarrow> False | Some (_, observed) \<Rightarrow> observed = r)
      then s\<lparr>vc_observed_primary := None\<rparr> else s)"

definition primary_hint :: "'g VsrConsensus \<Rightarrow> u8 option" where
  "primary_hint s =
     (let otherwise = (if vc_view s = vc_log_view s then Some (primary_index s (vc_view s)) else None)
      in case vc_observed_primary s of
           Some (v, r) \<Rightarrow> if v \<ge> vc_log_view s then Some r else otherwise
         | None \<Rightarrow> otherwise)"

section \<open>Start and restart\<close>

definition init_replica :: "'g VsrConsensus \<Rightarrow> 'g VsrConsensus" where
  "init_replica s =
     (let s = s\<lparr>vc_status := Normal, vc_rejoined_on_recovered_log := False\<rparr>
      in if is_primary s then start_timeout CommitMessage s else start_timeout NormalHeartbeat s)"

definition init_as_backup :: "'g VsrConsensus \<Rightarrow> 'g VsrConsensus" where
  "init_as_backup s =
     start_timeout NormalHeartbeat
       (s\<lparr>vc_status := Normal, vc_rejoined_on_recovered_log := False, vc_ceded_primaryship := True\<rparr>)"

datatype JoinMode = Init | ProbeAsBackup bool

definition join_group :: "JoinMode \<Rightarrow> 'g VsrConsensus \<Rightarrow> 'g VsrConsensus option" where
  "join_group mode s =
     (case mode of
        Init \<Rightarrow> Some (init_replica s)
      | ProbeAsBackup await_state_transfer \<Rightarrow>
          let s = begin_view_probe ((init_as_backup s)\<lparr>vc_rejoined_on_recovered_log := True\<rparr>)
          in if await_state_transfer then set_state_transfer_stage AwaitingTarget s else Some s)"

record ViewRestore =
  vr_durable_view :: "(u32 \<times> u32) option"
  vr_view_fallback :: "u32 option"
  vr_seed_view :: "u32 option"

definition restore_view :: "ViewRestore \<Rightarrow> 'g VsrConsensus \<Rightarrow> 'g VsrConsensus" where
  "restore_view r s =
     (case vr_durable_view r of
        Some (v, lv) \<Rightarrow>
          let installed = (case vr_view_fallback r of
                Some floor_view \<Rightarrow> if lv = 0 then max v floor_view else v
              | None \<Rightarrow> v)
          in mark_superblock_durable v lv (set_log_view lv (s\<lparr>vc_view := installed\<rparr>))
      | None \<Rightarrow>
          (case vr_view_fallback r of
             Some v \<Rightarrow> s\<lparr>vc_view := v\<rparr>
           | None \<Rightarrow>
               (case vr_seed_view r of
                  Some v \<Rightarrow> set_log_view v (s\<lparr>vc_view := v\<rparr>)
                | None \<Rightarrow> s)))"

record FreshGroupStart =
  fg_join :: JoinMode
  fg_view_fallback :: "u32 option"
  fg_seed_view :: "u32 option"

definition fresh_group_start :: "bool \<Rightarrow> (u32 \<times> u32) option \<Rightarrow> u32 \<Rightarrow> FreshGroupStart" where
  "fresh_group_start restarted durable created_view =
     (let join = (if restarted then ProbeAsBackup False else Init);
          (fallback, seed) = (case (durable, join) of
             (None, Init) \<Rightarrow> (None, Some created_view)
           | _ \<Rightarrow> (Some created_view, None))
      in \<lparr>fg_join = join, fg_view_fallback = fallback, fg_seed_view = seed\<rparr>)"

definition replica_new ::
    "(u64 \<Rightarrow> 'g) \<Rightarrow> u128 \<Rightarrow> u8 \<Rightarrow> u8 \<Rightarrow> u64 \<Rightarrow> LocalPipeline \<Rightarrow> 'g VsrConsensus option" where
  "replica_new seed_from_u64 cluster_id r rcount g p =
     do {
       assert_that (r < rcount);
       assert_that (rcount \<ge> 1);
       let empty_history = (if g = METADATA_GROUP then Some (certificate_new 0 0 0) else None);
       Some
         \<lparr>vc_cluster = cluster_id, vc_replica = r, vc_replica_count = rcount, vc_group = g,
          vc_partition_incarnation = 0, vc_view = 0, vc_log_view = 0, vc_view_durable = 0,
          vc_log_view_durable = 0, vc_incarnation = 0, vc_recovery_barrier = 0, vc_recovery_deadline = 0,
          vc_view_start_head = 0, vc_ceded_primaryship = False, vc_status = Recovering,
          vc_state_transfer_stage = Idle, vc_observed_newer_view = 0, vc_observed_primary = None,
          vc_commit_min = 0, vc_commit_max = 0, vc_sequencer = 0, vc_last_timestamp = 0,
          vc_last_prepare_checksum = 0, vc_pipeline = p, vc_prepare_queue_max = lp_prepare_queue_max p,
          vc_loopback_queue = [], vc_start_view_change_from_all_replicas = {}, vc_probe_attempts = 0,
          vc_probe_attempts_max = PROBE_ATTEMPTS_MAX, vc_recovery_election_allowed = True,
          vc_recovered_log_complete = True, vc_rejoined_on_recovered_log = False, vc_untrusted_log = False,
          vc_untrusted_view_change_timeouts = 0, vc_local_dvc_suffix = None, vc_journal_mutations = 0,
          vc_pending_view_log = None, vc_adopted_view = None, vc_adopted_view_dirty = False,
          vc_view_log_unproven = False, vc_log_view_proven = 0, vc_view_log_merged = False,
          vc_view_log_merge_uncertified = False, vc_view_log_unproven_through = - 1,
          vc_view_log_missing_op = None, vc_history_certificate = empty_history,
          vc_history_certificate_durable = empty_history,
          vc_do_view_change_from_all_replicas = dvc_quorum_array_empty, vc_do_view_change_quorum = False,
          vc_sent_own_start_view_change = False, vc_sent_own_do_view_change = False,
          vc_timeouts = tm_new seed_from_u64 (ucast r XOR ucast g), vc_heartbeat_watermark = (0, 0),
          vc_eager_commit = False, vc_commit_announcements = announcements_new rcount,
          vc_applied_log_contradictions = 0, vc_applied_log_contradictions_taken = 0,
          vc_contradiction_reported_view = None\<rparr>
     }"

record ConsensusTimers =
  ct_normal_heartbeat_ticks :: u64
  ct_commit_message_ticks :: u64
  ct_prepare_ticks :: u64
  ct_view_change_retransmit_ticks :: u64
  ct_view_change_status_ticks :: u64
  ct_request_start_view_ticks :: u64
  ct_probe_attempts_max :: u32

record VsrRestore =
  rs_timers :: ConsensusTimers
  rs_durable_view :: "(u32 \<times> u32) option"
  rs_view_fallback :: "u32 option"
  rs_seed_view :: "u32 option"
  rs_incarnation :: "u128 option"
  rs_join :: JoinMode

definition apply_timers :: "ConsensusTimers \<Rightarrow> 'g VsrConsensus \<Rightarrow> 'g VsrConsensus" where
  "apply_timers t s =
     s\<lparr>vc_timeouts :=
         set_request_start_view_ticks (ct_request_start_view_ticks t)
        (set_view_change_status_ticks (ct_view_change_status_ticks t)
        (set_view_change_retransmit_ticks (ct_view_change_retransmit_ticks t)
        (set_prepare_ticks (ct_prepare_ticks t)
        (set_commit_message_ticks (ct_commit_message_ticks t)
        (set_normal_heartbeat_ticks (ct_normal_heartbeat_ticks t) (vc_timeouts s)))))),
       vc_probe_attempts_max := ct_probe_attempts_max t\<rparr>"

definition restored ::
    "(u64 \<Rightarrow> 'g) \<Rightarrow> u128 \<Rightarrow> u8 \<Rightarrow> u8 \<Rightarrow> u64 \<Rightarrow> LocalPipeline \<Rightarrow> VsrRestore \<Rightarrow> 'g VsrConsensus option" where
  "restored seed_from_u64 cluster_id r rcount g p restore =
     do {
       s \<leftarrow> replica_new seed_from_u64 cluster_id r rcount g p;
       let s = apply_timers (rs_timers restore) s;
       let s = (case rs_incarnation restore of None \<Rightarrow> s | Some i \<Rightarrow> s\<lparr>vc_incarnation := i\<rparr>);
       let s = restore_view \<lparr>vr_durable_view = rs_durable_view restore,
                             vr_view_fallback = rs_view_fallback restore,
                             vr_seed_view = rs_seed_view restore\<rparr> s;
       join_group (rs_join restore) s
     }"

section \<open>Adopted evidence\<close>

definition adopted_view_log :: "'g VsrConsensus \<Rightarrow> MergedLog option" where
  "adopted_view_log s =
     (if vc_view_log_unproven s \<or> uncertified_merge_settled s
      then map_option merged_log (vc_adopted_view s) else None)"

definition adopted_view_vouches_for :: "'g VsrConsensus \<Rightarrow> PrepareHeader \<Rightarrow> bool" where
  "adopted_view_vouches_for s header =
     (case vc_adopted_view s of None \<Rightarrow> False | Some adopted \<Rightarrow> vouches_for adopted header)"

definition mark_adopted_view_durable :: "AdoptedView option \<Rightarrow> 'g VsrConsensus \<Rightarrow> 'g VsrConsensus" where
  "mark_adopted_view_durable written s =
     (if vc_adopted_view s = written then s\<lparr>vc_adopted_view_dirty := False\<rparr> else s)"

definition restore_adopted_view :: "AdoptedView option \<Rightarrow> 'g VsrConsensus \<Rightarrow> 'g VsrConsensus" where
  "restore_adopted_view adopted s = s\<lparr>vc_adopted_view := adopted, vc_adopted_view_dirty := False\<rparr>"

definition mark_history_certificate_durable ::
    "HistoryCertificate option \<Rightarrow> 'g VsrConsensus \<Rightarrow> 'g VsrConsensus" where
  "mark_history_certificate_durable cert s = s\<lparr>vc_history_certificate_durable := cert\<rparr>"

definition resume_adopted_view :: "'g VsrConsensus \<Rightarrow> 'g VsrConsensus option" where
  "resume_adopted_view s =
     (case vc_adopted_view s of
        None \<Rightarrow> Some s
      | Some adopted \<Rightarrow>
          let proven = (if vc_group s = METADATA_GROUP then certified_view s else vc_log_view_proven s) in
          if av_view adopted > proven then
            map_option invalidate_local_dvc_suffix
              (advance_commit_max (av_commit_max adopted)
                (s\<lparr>vc_log_view := av_view adopted, vc_view_log_unproven := True,
                   vc_view_log_unproven_through := - 1, vc_view_log_missing_op := None,
                   vc_sequencer := av_op_head adopted, vc_pending_view_log := Some (merged_log adopted)\<rparr>))
          else Some s)"

section \<open>Repair sources\<close>

text \<open>A stable sort stands for \<open>sort_unstable_by_key\<close>; the order of senders with equal keys is not relied on.\<close>

definition pending_view_sources :: "'g VsrConsensus \<Rightarrow> (StoredDvc \<Rightarrow> bool) \<Rightarrow> u8 list" where
  "pending_view_sources s serving =
     map snd (sort_key (\<lambda>(lv, _). - int (unat lv))
       (map (\<lambda>dvc. (sd_log_view dvc, sd_replica dvc))
         (filter serving (filter (\<lambda>dvc. sd_replica dvc \<noteq> vc_replica s)
           (dvc_iter (vc_do_view_change_from_all_replicas s))))))"

definition merged_checksum_at :: "'g VsrConsensus \<Rightarrow> u64 \<Rightarrow> u128 option" where
  "merged_checksum_at s op =
     (case vc_pending_view_log s of
        None \<Rightarrow> None
      | Some pending \<Rightarrow>
          map_option fr_checksum
            (find (\<lambda>header. ph_op header = op \<and> dvc_header_kind header = Valid) (ml_headers pending)))"

definition pending_view_body_sources :: "'g VsrConsensus \<Rightarrow> u64 \<Rightarrow> u8 list" where
  "pending_view_body_sources s op =
     pending_view_sources s (\<lambda>dvc.
       case index_of (sd_suffix dvc) (sd_op dvc) op of
         None \<Rightarrow> False
       | Some index \<Rightarrow>
           offers_body (sd_suffix dvc) index \<and>
           (case merged_checksum_at s op of
              None \<Rightarrow> True
            | Some checksum \<Rightarrow>
                (case valid_header_at (sd_suffix dvc) index of
                   None \<Rightarrow> False
                 | Some header \<Rightarrow> fr_checksum header = checksum)))"

definition pending_view_commit_sources :: "'g VsrConsensus \<Rightarrow> u64 \<Rightarrow> u8 list" where
  "pending_view_commit_sources s op = pending_view_sources s (\<lambda>dvc. sd_commit dvc \<ge> op)"

section \<open>Messages to itself\<close>

definition push_loopback :: "bytes \<Rightarrow> 'g VsrConsensus \<Rightarrow> 'g VsrConsensus option" where
  "push_loopback message s =
     do {
       assert_that (length (vc_loopback_queue s) < vc_prepare_queue_max s);
       Some (s\<lparr>vc_loopback_queue := vc_loopback_queue s @ [message]\<rparr>)
     }"

definition loopback_holds_prepare_ok :: "'g VsrConsensus \<Rightarrow> u64 \<Rightarrow> bool" where
  "loopback_holds_prepare_ok s op \<longleftrightarrow>
     list_ex (\<lambda>message.
       (case message_header generic_kind message of
          None \<Rightarrow> False
        | Some generic \<Rightarrow> fr_command generic = CmdPrepareOk) \<and>
       (case message_header prepare_ok_kind message of
          None \<Rightarrow> False
        | Some header \<Rightarrow> po_op header = op)) (vc_loopback_queue s)"

definition drain_loopback_into :: "bytes list \<Rightarrow> 'g VsrConsensus \<Rightarrow> bytes list \<times> 'g VsrConsensus" where
  "drain_loopback_into buf s = (buf @ vc_loopback_queue s, s\<lparr>vc_loopback_queue := []\<rparr>)"

definition note_backup_ack :: "u8 \<Rightarrow> u64 \<Rightarrow> 'g VsrConsensus \<Rightarrow> 'g VsrConsensus" where
  "note_backup_ack r op s =
     (if r = vc_replica s then s
      else
        let announcements = record_ack r op (vc_commit_announcements s);
            s = s\<lparr>vc_commit_announcements := announcements\<rparr>
        in if announcements_owe announcements r then s\<lparr>vc_eager_commit := True\<rparr> else s)"

end
