(* ===== verification/Vsr_Handlers.thy ===== *)
theory Vsr_Handlers
  imports Vsr_Replica
begin

text \<open>
  What a replica does on a timer tick and on each protocol message (\<open>VsrConsensus\<close> in
  \<open>src/core/consensus/src/impls.rs\<close>). A handler takes the replica's state and returns the actions for
  its caller with the new state, \<open>None\<close> when the code panics. The plane and the reason of a view change
  are arguments of the code that only its log events read, and are left out. An increment of a view or
  an op number wraps as in a release build.
\<close>

section \<open>Actions and outcomes\<close>

text \<open>
  The arguments of an action are the fields of the variant in their order: a view-change vote is
  \<open>SendDoViewChange view target log_view op commit group suffix untrusted_log\<close>, the start of a view
  \<open>SendStartView view op commit incarnation target group suffix\<close>, acknowledgements
  \<open>SendPrepareOk view from_op to_op target group\<close>, and a commit point
  \<open>SendCommit view commit group timestamp_monotonic target\<close>.
\<close>

datatype VsrAction =
    SendStartViewChange u32 u64
  | SendDoViewChange u32 u8 u32 u64 u64 u64 DvcSuffix bool
  | SendRequestStartView u32 u64
  | SendStartView u32 u64 u64 u128 "u8 option" u64 "PrepareHeader list"
  | SendPrepareOk u32 u64 u64 u8 u64
  | RetransmitPrepares "(PrepareHeader \<times> u8 list) list"
  | RetryLocalWrite u64
  | RebuildPipeline u64 u64
  | CommitJournal
  | SendCommit u32 u64 u64 u64 "u8 option"

definition action_is_empty_vote :: "VsrAction \<Rightarrow> bool" where
  "action_is_empty_vote a =
     (case a of
        SendDoViewChange _ _ lv op commit _ suffix untrusted \<Rightarrow>
          lv = 0 \<and> op = 0 \<and> commit = 0 \<and> untrusted \<and> suffix_is_empty suffix
      | _ \<Rightarrow> False)"

datatype CommitOutcome = Accepted | Advanced | RespondStartView

datatype IgnoreReason =
    NotPrimary | NotNormal | StateTransfer | NewerView | OlderView | OldPrepare | UnknownPrepare
  | DuplicateAck | ChecksumMismatch | InvalidOperation | ApplyFailed | PersistFailed

datatype PrepareOkOutcome = AckAccepted nat bool | AckIgnored IgnoreReason

definition quorum_reached :: "PrepareOkOutcome \<Rightarrow> bool" where
  "quorum_reached outcome = (case outcome of AckAccepted _ reached \<Rightarrow> reached | AckIgnored _ \<Rightarrow> False)"

datatype StartViewRefusal = InvalidEvidence | ContradictsAppliedLog MergedLog

section \<open>Entering a view change\<close>

definition enter_view_change :: "u32 \<Rightarrow> 'g VsrConsensus \<Rightarrow> VsrAction list \<times> 'g VsrConsensus" where
  "enter_view_change new_view s =
     (let s = unprove_superseded_merge
                (reset_view_change_state (s\<lparr>vc_view := new_view, vc_status := ViewChange\<rparr>));
          s = s\<lparr>vc_sent_own_start_view_change := True,
                vc_start_view_change_from_all_replicas :=
                  insert (unat (vc_replica s)) (vc_start_view_change_from_all_replicas s)\<rparr>;
          s = start_timeout RequestStartViewMessage (start_timeout ViewChangeStatus
                (start_timeout StartViewChangeMessage (stop_timeout NormalHeartbeat s)))
      in ([SendStartViewChange new_view (vc_group s)], s))"

definition start_election :: "'g VsrConsensus \<Rightarrow> VsrAction list \<times> 'g VsrConsensus" where
  "start_election s = enter_view_change (vc_view s + 1) s"

definition request_primary_transfer ::
    "u32 \<Rightarrow> u8 \<Rightarrow> 'g VsrConsensus \<Rightarrow> VsrAction list \<times> 'g VsrConsensus" where
  "request_primary_transfer expected_view target s =
     (if vc_group s = METADATA_GROUP \<or> target \<ge> vc_replica_count s \<or> vc_view s \<noteq> expected_view \<or>
         vc_status s \<noteq> Normal \<or> vc_ceded_primaryship s \<or> is_transferring s \<or> vc_view_log_unproven s \<or>
         vc_observed_newer_view s > vc_view s \<or> vc_commit_min s \<noteq> vc_commit_max s \<or>
         vc_commit_max s < vc_recovery_barrier s \<or> \<not> applied_view_start s
      then ([], s)
      else
        let primary = primary_index s (vc_view s) in
        if target = primary then ([], s)
        else
          let replicas = ucast (vc_replica_count s);
              distance = (ucast target + replicas - ucast primary) mod replicas
          in case checked_add (vc_view s) distance of
               None \<Rightarrow> ([], s)
             | Some next_view \<Rightarrow> enter_view_change next_view s)"

section \<open>Timers\<close>

definition handle_normal_heartbeat_timeout :: "'g VsrConsensus \<Rightarrow> VsrAction list \<times> 'g VsrConsensus" where
  "handle_normal_heartbeat_timeout s =
     (if vc_status s = Recovering then ([], s)
      else if is_primary s \<and> \<not> vc_ceded_primaryship s then ([], s)
      else if vc_status s = ViewChange then ([], s)
      else if vc_observed_newer_view s > vc_view s then ([], begin_view_probe s)
      else start_election s)"

definition handle_start_view_change_message_timeout ::
    "'g VsrConsensus \<Rightarrow> VsrAction list \<times> 'g VsrConsensus" where
  "handle_start_view_change_message_timeout s =
     (if \<not> vc_sent_own_start_view_change s then ([], s)
      else ([SendStartViewChange (vc_view s) (vc_group s)], reset_timeout StartViewChangeMessage s))"

definition build_do_view_change :: "u8 \<Rightarrow> 'g VsrConsensus \<Rightarrow> VsrAction" where
  "build_do_view_change target s =
     SendDoViewChange (vc_view s) target (log_view_claim s) (vc_sequencer s) (dvc_commit_of s) (vc_group s)
       (local_dvc_suffix s) (vc_untrusted_log s)"

definition handle_do_view_change_message_timeout ::
    "'g VsrConsensus \<Rightarrow> VsrAction list \<times> 'g VsrConsensus" where
  "handle_do_view_change_message_timeout s =
     (if vc_status s \<noteq> ViewChange then ([], s)
      else if \<not> vc_sent_own_do_view_change s then ([], s)
      else if is_primary s \<and> vc_do_view_change_quorum s then ([], s)
      else
        let s = reset_timeout DoViewChangeMessage s
        in ([build_do_view_change (primary_index s (vc_view s)) s], s))"

text \<open>What \<open>warn_untrusted_halt\<close> changes: its count of escalations. The rest of it is a log line.\<close>

definition warn_untrusted_halt :: "'g VsrConsensus \<Rightarrow> 'g VsrConsensus" where
  "warn_untrusted_halt s =
     s\<lparr>vc_untrusted_view_change_timeouts := saturating_add (vc_untrusted_view_change_timeouts s) 1\<rparr>"

definition handle_view_change_status_timeout :: "'g VsrConsensus \<Rightarrow> VsrAction list \<times> 'g VsrConsensus" where
  "handle_view_change_status_timeout s =
     (if vc_status s \<noteq> ViewChange then ([], s)
      else
        let s = (if vc_untrusted_log s then warn_untrusted_halt s else s)
        in enter_view_change (vc_view s + 1) s)"

definition replica_ids :: "u8 \<Rightarrow> u8 list" where
  "replica_ids n = map of_nat [0..<unat n]"

text \<open>
  The loop over the ops above the commit point. Its counter cannot step past the largest op number:
  a release build would then loop forever, which is \<open>None\<close>.
\<close>

function targets_from ::
    "'g VsrConsensus \<Rightarrow> u64 \<Rightarrow> ((PrepareHeader \<times> u8 list) list \<times> u64 list) option" where
  "targets_from s op =
     (if \<not> op \<le> vc_sequencer s then Some ([], [])
      else if op = - 1 then None
      else
        map_option (\<lambda>(retransmits, local_retries).
          case message_by_op (vc_pipeline s) op of
            None \<Rightarrow> (retransmits, local_retries)
          | Some entry \<Rightarrow>
              if pe_ok_quorum_received entry then (retransmits, local_retries)
              else
                let retry = (if \<not> has_ack entry (vc_replica s) \<and> \<not> loopback_holds_prepare_ok s op
                             then [op] else []);
                    missing = filter (\<lambda>r. r \<noteq> vc_replica s \<and> \<not> has_ack entry r)
                                (replica_ids (vc_replica_count s))
                in ((if missing \<noteq> [] then [(pe_header entry, missing)] else []) @ retransmits,
                    retry @ local_retries))
        (targets_from s (op + 1)))"
  by pat_completeness auto
termination
  by (relation "measure (\<lambda>(s, op). Suc (unat (vc_sequencer s)) - unat op)")
    (auto simp: unat_add_one word_le_nat_alt)

declare targets_from.simps [simp del]

definition prepare_timeout_targets ::
    "'g VsrConsensus \<Rightarrow> ((PrepareHeader \<times> u8 list) list \<times> u64 list) option" where
  "prepare_timeout_targets s = targets_from s (vc_commit_max s + 1)"

definition handle_prepare_timeout ::
    "(u64 \<Rightarrow> 'g \<Rightarrow> u64 \<times> 'g) \<Rightarrow> 'g VsrConsensus \<Rightarrow> (VsrAction list \<times> 'g VsrConsensus) option" where
  "handle_prepare_timeout random_range s =
     (if \<not> is_acting_primary s then Some ([], stop_timeout Prepare s)
      else if pipeline_is_empty (vc_pipeline s) then Some ([], stop_timeout Prepare s)
      else do {
        (targets, local_retries) \<leftarrow> prepare_timeout_targets s;
        let s = s\<lparr>vc_timeouts := tm_backoff random_range Prepare (vc_timeouts s)\<rparr>;
        Some (map RetryLocalWrite local_retries @ (if targets \<noteq> [] then [RetransmitPrepares targets] else []), s)
      })"

definition commit_message :: "u8 option \<Rightarrow> u64 \<Rightarrow> 'g VsrConsensus \<Rightarrow> VsrAction \<times> 'g VsrConsensus" where
  "commit_message target commit s =
     (let ts = snd (vc_heartbeat_watermark s) + 1
      in (SendCommit (vc_view s) commit (vc_group s) ts target,
          s\<lparr>vc_heartbeat_watermark := (vc_view s, ts)\<rparr>))"

definition commit_heartbeat :: "'g VsrConsensus \<Rightarrow> VsrAction \<times> 'g VsrConsensus" where
  "commit_heartbeat s =
     (let commit = vc_commit_min s
      in commit_message None commit
           (s\<lparr>vc_commit_announcements := record_broadcast commit (vc_commit_announcements s)\<rparr>))"

definition handle_commit_message_timeout :: "'g VsrConsensus \<Rightarrow> VsrAction list \<times> 'g VsrConsensus" where
  "handle_commit_message_timeout s =
     (if \<not> is_primary s \<or> vc_status s \<noteq> Normal then ([], s)
      else if vc_observed_newer_view s > vc_view s then ([], begin_view_probe s)
      else let (action, s) = commit_heartbeat (reset_timeout CommitMessage s) in ([action], s))"

definition request_eager_commit :: "'g VsrConsensus \<Rightarrow> 'g VsrConsensus" where
  "request_eager_commit s =
     (if vc_replica_count s > 1 \<and> is_acting_primary s
      then s\<lparr>vc_commit_announcements := (vc_commit_announcements s)\<lparr>ca_eager := vc_commit_min s\<rparr>,
             vc_eager_commit := True\<rparr>
      else s)"

text \<open>The iteration over the backups of \<open>eager_commit_actions\<close>.\<close>

fun owed_commits :: "u64 \<Rightarrow> u8 list \<Rightarrow> 'g VsrConsensus \<Rightarrow> VsrAction list \<times> 'g VsrConsensus" where
  "owed_commits commit_min [] s = ([], s)"
| "owed_commits commit_min (r # rs) s =
     (case take_owed r commit_min (vc_commit_announcements s) of
        (None, _) \<Rightarrow> owed_commits commit_min rs s
      | (Some commit, announcements) \<Rightarrow>
          let (action, s) = commit_message (Some r) commit (s\<lparr>vc_commit_announcements := announcements\<rparr>);
              (actions, s) = owed_commits commit_min rs s
          in (action # actions, s))"

definition eager_commit_actions :: "'g VsrConsensus \<Rightarrow> VsrAction list \<times> 'g VsrConsensus" where
  "eager_commit_actions s =
     (if \<not> is_acting_primary s \<or> has_observed_newer_view s then ([], s)
      else if (case message_by_op (vc_pipeline s) (vc_sequencer s) of
                 None \<Rightarrow> False
               | Some entry \<Rightarrow> ph_commit (pe_header entry) \<ge> vc_commit_min s)
      then ([], s)
      else owed_commits (vc_commit_min s) (filter (\<lambda>r. r \<noteq> vc_replica s) (replica_ids (vc_replica_count s))) s)"

text \<open>The branch of a tick for the probe's timer.\<close>

definition handle_request_start_view_timeout ::
    "'g VsrConsensus \<Rightarrow> (VsrAction list \<times> 'g VsrConsensus) option" where
  "handle_request_start_view_timeout s =
     (case vc_status s of
        Recovering \<Rightarrow>
          let attempts = saturating_add (vc_probe_attempts s) 1;
              s = s\<lparr>vc_probe_attempts := attempts\<rparr>
          in if attempts \<ge> vc_probe_attempts_max s \<and> vc_recovery_election_allowed s then
               do {
                 s \<leftarrow> (if vc_state_transfer_stage s \<noteq> Idle then set_state_transfer_stage Idle s else Some s);
                 let s = finish_view_probe s;
                 let s = (if vc_rejoined_on_recovered_log s \<and> \<not> vc_recovered_log_complete s
                          then s\<lparr>vc_untrusted_log := True, vc_untrusted_view_change_timeouts := 0\<rparr> else s);
                 Some (start_election s)
               }
             else Some ([SendRequestStartView (vc_view s) (vc_group s)], reset_timeout RequestStartViewMessage s)
      | ViewChange \<Rightarrow>
          if primary_index s (vc_view s) \<noteq> vc_replica s
          then Some ([SendRequestStartView (vc_view s) (vc_group s)], reset_timeout RequestStartViewMessage s)
          else Some ([], stop_timeout RequestStartViewMessage s)
      | Normal \<Rightarrow> Some ([], stop_timeout RequestStartViewMessage s))"

text \<open>One handler of a tick, run when its timer has fired; the actions follow those of the handlers before it.\<close>

definition on_fired ::
    "bool \<Rightarrow> TimeoutKind \<Rightarrow> ('g VsrConsensus \<Rightarrow> (VsrAction list \<times> 'g VsrConsensus) option) \<Rightarrow>
     VsrAction list \<times> 'g VsrConsensus \<Rightarrow> (VsrAction list \<times> 'g VsrConsensus) option" where
  "on_fired enabled kind handler acc =
     (case acc of (actions, s) \<Rightarrow>
        if enabled \<and> tm_fired (vc_timeouts s) kind
        then map_option (\<lambda>(more, s). (actions @ more, s)) (handler s)
        else Some (actions, s))"

definition commit_phase ::
    "VsrAction list \<times> 'g VsrConsensus \<Rightarrow> (VsrAction list \<times> 'g VsrConsensus) option" where
  "commit_phase acc =
     (case acc of (actions, s) \<Rightarrow>
        let eager = vc_eager_commit s;
            s = s\<lparr>vc_eager_commit := False\<rparr>;
            (more, s) = (if tm_fired (vc_timeouts s) CommitMessage then handle_commit_message_timeout s
                         else if eager then eager_commit_actions s else ([], s))
        in Some (actions @ more, s))"

definition tick_with_history_fence ::
    "(u64 \<Rightarrow> 'g \<Rightarrow> u64 \<times> 'g) \<Rightarrow> bool \<Rightarrow> 'g VsrConsensus \<Rightarrow> (VsrAction list \<times> 'g VsrConsensus) option" where
  "tick_with_history_fence random_range history_fenced s =
     do {
       let acc = ([], s\<lparr>vc_timeouts := tm_tick (vc_timeouts s)\<rparr>);
       acc \<leftarrow> on_fired (\<not> history_fenced) NormalHeartbeat (Some \<circ> handle_normal_heartbeat_timeout) acc;
       acc \<leftarrow> on_fired True StartViewChangeMessage (Some \<circ> handle_start_view_change_message_timeout) acc;
       acc \<leftarrow> on_fired True DoViewChangeMessage (Some \<circ> handle_do_view_change_message_timeout) acc;
       acc \<leftarrow> on_fired True Prepare (handle_prepare_timeout random_range) acc;
       acc \<leftarrow> commit_phase acc;
       acc \<leftarrow> on_fired (\<not> history_fenced) RequestStartViewMessage handle_request_start_view_timeout acc;
       on_fired (\<not> history_fenced) ViewChangeStatus (Some \<circ> handle_view_change_status_timeout) acc
     }"

definition tick :: "(u64 \<Rightarrow> 'g \<Rightarrow> u64 \<times> 'g) \<Rightarrow> 'g VsrConsensus \<Rightarrow> (VsrAction list \<times> 'g VsrConsensus) option" where
  "tick random_range s = tick_with_history_fence random_range False s"

section \<open>Collecting votes\<close>

definition own_dvc :: "'g VsrConsensus \<Rightarrow> StoredDvc" where
  "own_dvc s =
     \<lparr>sd_replica = vc_replica s, sd_log_view = log_view_claim s, sd_op = vc_sequencer s,
      sd_commit = dvc_commit_of s, sd_suffix = local_dvc_suffix s, sd_untrusted_log = vc_untrusted_log s\<rparr>"

text \<open>Record a vote; the flag says that the array changed.\<close>

definition record_dvc :: "StoredDvc \<Rightarrow> 'g VsrConsensus \<Rightarrow> ('g VsrConsensus \<times> bool) option" where
  "record_dvc dvc s =
     map_option (\<lambda>(array, fresh). (s\<lparr>vc_do_view_change_from_all_replicas := array\<rparr>, fresh))
       (dvc_record (vc_do_view_change_from_all_replicas s) dvc)"

text \<open>Completing a view change sends nothing: the merged log is parked until it is repaired.\<close>

definition complete_view_change_as_primary :: "'g VsrConsensus \<Rightarrow> 'g VsrConsensus option" where
  "complete_view_change_as_primary s =
     do {
       outcome \<leftarrow> merge_view_change (vc_do_view_change_from_all_replicas s) (merge_quorums (vc_replica_count s));
       case outcome of
         Ready merged \<Rightarrow>
           if unat (saturating_sub (ml_op_head merged) (ml_commit_max merged)) > vc_prepare_queue_max s
           then Some s
           else do {
             s \<leftarrow> advance_commit_max (ml_commit_max merged) (s\<lparr>vc_do_view_change_quorum := True\<rparr>);
             let s = reopen_view_log_proof (s\<lparr>vc_pending_view_log := Some merged\<rparr>);
             Some (s\<lparr>vc_pipeline := pipeline_clear (cancel_all_subscribers (vc_pipeline s)),
                     vc_loopback_queue := []\<rparr>)
           }
       | _ \<Rightarrow> Some s
     }"

definition try_complete :: "'g VsrConsensus \<Rightarrow> 'g VsrConsensus option" where
  "try_complete s =
     (if \<not> vc_do_view_change_quorum s \<and>
         dvc_count (vc_do_view_change_from_all_replicas s) \<ge> quorum_view_change (vc_replica_count s)
      then complete_view_change_as_primary s else Some s)"

definition empty_do_view_change :: "u32 \<Rightarrow> 'g VsrConsensus \<Rightarrow> VsrAction option" where
  "empty_do_view_change v s =
     (if vc_recovered_log_complete s \<or> vc_recovery_election_allowed s \<or> v < vc_view s \<or> is_primary_for_view s v
      then None
      else Some (SendDoViewChange v (primary_index s v) 0 0 0 (vc_group s) suffix_empty True))"

definition handle_start_view_change ::
    "StartViewChangeHeader \<Rightarrow> 'g VsrConsensus \<Rightarrow> (VsrAction list \<times> 'g VsrConsensus) option" where
  "handle_start_view_change header s =
     do {
       assert_that (svc_group header = vc_group s);
       if vc_status s = Recovering
       then Some (case empty_do_view_change (fr_view header) s of None \<Rightarrow> [] | Some a \<Rightarrow> [a], s)
       else if fr_view header < vc_view s then Some ([], s)
       else do {
         let (actions, s) = (if fr_view header > vc_view s then enter_view_change (fr_view header) s else ([], s));
         let s = s\<lparr>vc_start_view_change_from_all_replicas :=
                     insert (unat (fr_replica header)) (vc_start_view_change_from_all_replicas s)\<rparr>;
         if \<not> vc_sent_own_do_view_change s \<and> svc_count_excluding_self s \<ge> max_faulty (vc_replica_count s)
         then do {
           let s = start_timeout DoViewChangeMessage (s\<lparr>vc_sent_own_do_view_change := True\<rparr>);
           let candidate_id = primary_index s (vc_view s);
           let actions = actions @ [build_do_view_change candidate_id s];
           if candidate_id = vc_replica s
           then do {
             (s, _) \<leftarrow> record_dvc (own_dvc s) s;
             s \<leftarrow> try_complete s;
             Some (actions, s)
           }
           else Some (actions, s)
         }
         else Some (actions, s)
       }
     }"

definition decode_peer_suffix ::
    "(bytes \<Rightarrow> u64) \<Rightarrow> DoViewChangeHeader \<Rightarrow> bytes \<Rightarrow> DvcSuffix option option" where
  "decode_peer_suffix xxh3 header suffix_body =
     map_option (\<lambda>decoded. case decoded of Inl _ \<Rightarrow> None | Inr suffix \<Rightarrow> Some suffix)
       (dvc_suffix_decode xxh3 suffix_body (dvc_op header) (dvc_nack_bitset header) (dvc_present_bitset header))"

definition handle_do_view_change ::
    "(bytes \<Rightarrow> u64) \<Rightarrow> DoViewChangeHeader \<Rightarrow> bytes \<Rightarrow> 'g VsrConsensus \<Rightarrow>
     (VsrAction list \<times> 'g VsrConsensus) option" where
  "handle_do_view_change xxh3 header suffix_body s =
     do {
       assert_that (dvc_group header = vc_group s);
       if vc_status s = Recovering then Some ([], s)
       else do {
         decoded \<leftarrow> decode_peer_suffix xxh3 header suffix_body;
         case decoded of
           None \<Rightarrow> Some ([], s)
         | Some suffix \<Rightarrow>
             if fr_view header < vc_view s then Some ([], s)
             else do {
               let (actions, s) = (if fr_view header > vc_view s then enter_view_change (fr_view header) s
                                   else ([], s));
               if \<not> is_primary_for_view s (vc_view s) then Some (actions, s)
               else if vc_status s \<noteq> ViewChange then Some (actions, s)
               else do {
                 s \<leftarrow> (if \<not> vc_sent_own_do_view_change s
                        then map_option fst (record_dvc (own_dvc s) (s\<lparr>vc_sent_own_do_view_change := True\<rparr>))
                        else Some s);
                 (s, fresh) \<leftarrow> record_dvc
                   \<lparr>sd_replica = fr_replica header, sd_log_view = dvc_log_view header, sd_op = dvc_op header,
                    sd_commit = dvc_commit header, sd_suffix = suffix,
                    sd_untrusted_log = untrusted_log header\<rparr> s;
                 if \<not> fresh then Some (actions, s)
                 else map_option (\<lambda>s. (actions, s)) (try_complete s)
               }
             }
       }
     }"

section \<open>Starting a view\<close>

definition start_pending_view :: "'g VsrConsensus \<Rightarrow> VsrAction list \<times> 'g VsrConsensus" where
  "start_pending_view s =
     (if \<not> is_primary_elect s then ([], s)
      else case vc_pending_view_log s of
        None \<Rightarrow> ([], s)
      | Some merged \<Rightarrow>
          let s = s\<lparr>vc_pending_view_log := None\<rparr>;
              s = (if vc_adopted_view s \<noteq> None then s\<lparr>vc_adopted_view := None, vc_adopted_view_dirty := True\<rparr> else s);
              new_op = ml_op_head merged;
              max_commit = ml_commit_max merged;
              rebuild_after = max (vc_commit_min s) max_commit;
              s = invalidate_local_dvc_suffix
                    (s\<lparr>vc_do_view_change_from_all_replicas := dvc_reset (vc_do_view_change_from_all_replicas s)\<rparr>);
              s = s\<lparr>vc_status := Normal, vc_rejoined_on_recovered_log := False, vc_ceded_primaryship := False,
                    vc_untrusted_log := False, vc_sequencer := new_op, vc_view_start_head := new_op\<rparr>;
              s = redecide_recovery_barrier new_op s;
              s = (case first_opt (ml_headers merged) of
                     None \<Rightarrow> s | Some head \<Rightarrow> s\<lparr>vc_last_prepare_checksum := fr_checksum head\<rparr>);
              s = foldl (\<lambda>s header. observe_prepare_timestamp (ph_timestamp header) s) s (ml_headers merged);
              s = s\<lparr>vc_log_view := vc_view s, vc_view_log_merged := False\<rparr>;
              s = (if vc_group s = METADATA_GROUP
                   then certify_view_log new_op
                          (case first_opt (ml_headers merged) of None \<Rightarrow> 0 | Some head \<Rightarrow> fr_checksum head) s
                   else s\<lparr>vc_log_view_proven := vc_view s\<rparr>);
              s = start_timeout CommitMessage (stop_timeout RequestStartViewMessage
                    (stop_timeout StartViewChangeMessage (stop_timeout DoViewChangeMessage
                      (stop_timeout ViewChangeStatus s))));
              s = (if rebuild_after < new_op then start_timeout Prepare s else s)
          in ([SendStartView (vc_view s) new_op max_commit 0 None (vc_group s) (ml_headers merged), CommitJournal] @
                (if rebuild_after < new_op then [RebuildPipeline (rebuild_after + 1) new_op] else []), s))"

definition handle_request_start_view ::
    "RequestStartViewHeader \<Rightarrow> 'g VsrConsensus \<Rightarrow> (VsrAction list \<times> 'g VsrConsensus) option" where
  "handle_request_start_view header s =
     do {
       assert_that (rsv_group header = vc_group s);
       Some
         (if vc_status s \<noteq> Normal then ([], s)
          else if fr_replica header = vc_replica s then ([], s)
          else if primary_index s (vc_view s) = fr_replica header then
            (if fr_view header = vc_view s then start_election s else ([], s))
          else if \<not> is_primary s \<or> vc_ceded_primaryship s then ([], s)
          else if vc_log_view s \<noteq> vc_view s then ([], s)
          else ([SendStartView (vc_view s) (vc_sequencer s) (dvc_commit_of s) (rsv_incarnation header)
                   (Some (fr_replica header)) (vc_group s) (sf_headers (local_dvc_suffix s))], s))
     }"

definition adopt_start_view_suffix ::
    "StartViewHeader \<Rightarrow> DvcSuffix \<Rightarrow> 'g VsrConsensus \<Rightarrow> u64 \<times> 'g VsrConsensus" where
  "adopt_start_view_suffix header suffix s =
     (if sf_headers suffix = [] \<and> \<not> vc_view_log_unproven s then (stv_op header, s)
      else
        (stv_op header,
         s\<lparr>vc_pending_view_log :=
             Some \<lparr>ml_op_head = stv_op header, ml_commit_max = stv_commit header,
                   ml_headers = sf_headers suffix, ml_committed_elsewhere = []\<rparr>\<rparr>))"

definition contradicts :: "(u64 \<Rightarrow> PrepareHeader option) \<Rightarrow> u64 \<Rightarrow> PrepareHeader \<Rightarrow> bool" where
  "contradicts applied_at commit_min header \<longleftrightarrow>
     ph_op header \<le> commit_min \<and> dvc_header_kind header = Valid \<and>
     (case applied_at (ph_op header) of
        None \<Rightarrow> False
      | Some applied \<Rightarrow>
          fr_checksum applied \<noteq> fr_checksum header \<and> fr_checksum applied \<noteq> CHECKSUM_UNSEALED \<and>
          fr_checksum header \<noteq> CHECKSUM_UNSEALED)"

definition contradicts_applied_log ::
    "u32 \<Rightarrow> PrepareHeader list \<Rightarrow> (u64 \<Rightarrow> PrepareHeader option) \<Rightarrow> 'g VsrConsensus \<Rightarrow> bool \<times> 'g VsrConsensus" where
  "contradicts_applied_log v headers applied_at s =
     (if \<not> list_ex (contradicts applied_at (vc_commit_min s)) headers then (False, s)
      else if (case vc_contradiction_reported_view s of None \<Rightarrow> False | Some reported \<Rightarrow> reported \<ge> v)
      then (True, s)
      else (True, s\<lparr>vc_contradiction_reported_view := Some v,
                    vc_applied_log_contradictions := saturating_add (vc_applied_log_contradictions s) 1\<rparr>))"

definition take_applied_log_contradictions :: "'g VsrConsensus \<Rightarrow> u64 \<times> 'g VsrConsensus" where
  "take_applied_log_contradictions s =
     (let total = vc_applied_log_contradictions s
      in (total - vc_applied_log_contradictions_taken s, s\<lparr>vc_applied_log_contradictions_taken := total\<rparr>))"

text \<open>The part of \<open>try_handle_start_view\<close> after every check: the view is adopted.\<close>

definition adopt_start_view ::
    "StartViewHeader \<Rightarrow> DvcSuffix \<Rightarrow> AdoptedView \<Rightarrow> 'g VsrConsensus \<Rightarrow> (VsrAction list \<times> 'g VsrConsensus) option" where
  "adopt_start_view header suffix adopted s =
     do {
       let s = finish_view_probe s;
       let needs_reconciliation =
         vc_view_log_unproven s \<or> vc_status s \<noteq> Normal \<or> vc_log_view s \<noteq> fr_view header;
       let s = (if vc_group s \<noteq> METADATA_GROUP \<and> \<not> vc_view_log_unproven s
                then s\<lparr>vc_log_view_proven := vc_log_view s\<rparr> else s);
       let s = s\<lparr>vc_view := fr_view header, vc_log_view := fr_view header, vc_status := Normal,
                 vc_rejoined_on_recovered_log := False, vc_ceded_primaryship := False\<rparr>;
       let s = (if \<not> needs_reconciliation then s\<lparr>vc_untrusted_log := False\<rparr> else s);
       s \<leftarrow> advance_commit_max (stv_commit header) s;
       let s = reset_view_change_state s;
       let s = s\<lparr>vc_view_log_unproven := needs_reconciliation, vc_view_log_unproven_through := - 1,
                 vc_view_log_missing_op := None, vc_pipeline := pipeline_clear (vc_pipeline s)\<rparr>;
       let (announced, s) = adopt_start_view_suffix header suffix s;
       let s = s\<lparr>vc_adopted_view := Some adopted, vc_adopted_view_dirty := True, vc_sequencer := announced\<rparr>;
       let s = redecide_recovery_barrier announced s;
       let s = start_timeout NormalHeartbeat (stop_timeout RequestStartViewMessage
                 (stop_timeout DoViewChangeMessage (stop_timeout ViewChangeStatus s)));
       Some
         (CommitJournal #
            (if stv_commit header < stv_op header
             then [SendPrepareOk (fr_view header) (stv_commit header + 1) (stv_op header) (fr_replica header)
                     (vc_group s)]
             else []), s)
     }"

definition try_handle_start_view ::
    "(bytes \<Rightarrow> u64) \<Rightarrow> StartViewHeader \<Rightarrow> bytes \<Rightarrow> (u64 \<Rightarrow> PrepareHeader option) \<Rightarrow> 'g VsrConsensus \<Rightarrow>
     ((StartViewRefusal + VsrAction list) \<times> 'g VsrConsensus) option" where
  "try_handle_start_view xxh3 header suffix_body applied_at s =
     do {
       assert_that (stv_group header = vc_group s);
       if primary_index s (fr_view header) \<noteq> fr_replica header then Some (Ok [], s)
       else if fr_view header < vc_view s then Some (Ok [], s)
       else if vc_status s = Recovering \<and> vc_incarnation s \<noteq> 0 \<and> stv_incarnation header \<noteq> 0 \<and>
               fr_view header \<le> vc_view s \<and> stv_op header < vc_sequencer s \<and>
               stv_incarnation header \<noteq> vc_incarnation s
       then Some (Ok [], s)
       else if vc_status s = Normal \<and> \<not> vc_view_log_unproven s \<and> fr_view header = vc_log_view s \<and>
               stv_op header \<le> vc_sequencer s
       then (if stv_commit header > vc_commit_max s
             then map_option (\<lambda>s. (Ok [CommitJournal], s)) (advance_commit_max (stv_commit header) s)
             else Some (Ok [], s))
       else if stv_op header < vc_commit_max s then Some (Ok [], s)
       else if fr_replica header = vc_replica s then Some (Ok [], s)
       else do {
         decoded \<leftarrow> dvc_suffix_decode xxh3 suffix_body (stv_op header) 0 0;
         case decoded of
           Inl _ \<Rightarrow> Some (Err InvalidEvidence, s)
         | Inr suffix \<Rightarrow> do {
             let adopted = \<lparr>av_view = fr_view header, av_group = vc_group s,
                            av_partition_incarnation = vc_partition_incarnation s, av_op_head = stv_op header,
                            av_commit_max = stv_commit header, av_headers = sf_headers suffix\<rparr>;
             valid \<leftarrow> validate_adopted xxh3 adopted (vc_cluster s) (fr_view header);
             case valid of
               Inl _ \<Rightarrow> Some (Err InvalidEvidence, s)
             | Inr _ \<Rightarrow>
                 (case contradicts_applied_log (fr_view header) (sf_headers suffix) applied_at s of
                    (True, s) \<Rightarrow> Some (Err (ContradictsAppliedLog (merged_log adopted)), s)
                  | (False, s) \<Rightarrow>
                      map_option (\<lambda>(actions, s). (Ok actions, s)) (adopt_start_view header suffix adopted s))
           }
       }
     }"

section \<open>Commit points and acknowledgements\<close>

definition heartbeat_less :: "u32 \<times> u64 \<Rightarrow> u32 \<times> u64 \<Rightarrow> bool" where
  "heartbeat_less a b \<longleftrightarrow> fst a < fst b \<or> fst a = fst b \<and> snd a < snd b"

definition handle_commit :: "CommitHeader \<Rightarrow> 'g VsrConsensus \<Rightarrow> (CommitOutcome \<times> 'g VsrConsensus) option" where
  "handle_commit header s =
     do {
       assert_that (ch_group header = vc_group s);
       let observed = (if fr_view header > vc_view s then observe_newer_view (fr_view header) s else s);
       if is_primary s
       then Some
         (if vc_status s = Normal \<and> fr_view header < vc_view s \<and>
             fr_replica header = primary_index s (fr_view header)
          then (RespondStartView, s) else (Accepted, observed))
       else if vc_status s \<noteq> Normal then Some (Accepted, s)
       else if fr_view header \<noteq> vc_view s then Some (Accepted, observed)
       else if fr_replica header \<noteq> primary_index s (fr_view header) then Some (Accepted, s)
       else do {
         let heartbeat = (fr_view header, ch_timestamp_monotonic header);
         let s = (if heartbeat_less (vc_heartbeat_watermark s) heartbeat
                  then reset_timeout NormalHeartbeat (s\<lparr>vc_heartbeat_watermark := heartbeat\<rparr>) else s);
         let old_commit_max = vc_commit_max s;
         s \<leftarrow> advance_commit_max (ch_commit header) s;
         Some (if vc_commit_max s > old_commit_max then Advanced else Accepted, s)
       }
     }"

definition handle_prepare_ok :: "PrepareOkHeader \<Rightarrow> 'g VsrConsensus \<Rightarrow> (PrepareOkOutcome \<times> 'g VsrConsensus) option" where
  "handle_prepare_ok header s =
     do {
       assert_that (fr_command header = CmdPrepareOk);
       assert_that (fr_replica header < vc_replica_count s);
       Some
         (if fr_view header < vc_view s then (AckIgnored OlderView, s)
          else if fr_view header > vc_view s then (AckIgnored NewerView, s)
          else if is_transferring s then (AckIgnored StateTransfer, s)
          else case message_by_op_mut (vc_pipeline s) (po_op header) of
            None \<Rightarrow> (AckIgnored UnknownPrepare, s)
          | Some index \<Rightarrow>
              let entry = lp_prepare_queue (vc_pipeline s) ! index in
              if fr_checksum (pe_header entry) \<noteq> po_prepare_checksum header then (AckIgnored ChecksumMismatch, s)
              else if has_ack entry (fr_replica header) then (AckIgnored DuplicateAck, s)
              else
                let (entry, acks) = add_ack (fr_replica header) entry;
                    reached = (acks \<ge> quorum_replication (vc_replica_count s) \<and> \<not> pe_ok_quorum_received entry);
                    entry = (if reached then entry\<lparr>pe_ok_quorum_received := True\<rparr> else entry);
                    s = s\<lparr>vc_pipeline := (vc_pipeline s)
                            \<lparr>lp_prepare_queue := (lp_prepare_queue (vc_pipeline s))[index := entry]\<rparr>\<rparr>
                in (AckAccepted acks reached, note_backup_ack (fr_replica header) (po_op header) s))
     }"

definition handle_late_prepare_ok :: "PrepareOkHeader \<Rightarrow> 'g VsrConsensus \<Rightarrow> 'g VsrConsensus" where
  "handle_late_prepare_ok header s =
     (if fr_view header = vc_view s \<and> po_op header \<le> vc_commit_min s \<and> \<not> is_transferring s
      then note_backup_ack (fr_replica header) (po_op header) s else s)"

end
