(* ===== verification/Vsr_Prepare.thy ===== *)
theory Vsr_Prepare
  imports Vsr_Handlers
begin

text \<open>
  How a primary turns a request into a prepare and a prepare into an acknowledgement or a reply
  (the projections of \<open>src/core/consensus/src/impls.rs\<close> and the builders of
  \<open>src/core/consensus/src/plane_helpers.rs\<close>). A message is its bytes, a header kind is an argument, and
  a panic is \<open>None\<close>. The hash is the parameter \<open>xxh3\<close>, as in the wire theories.
\<close>

section \<open>Rewriting headers\<close>

definition transmute_header ::
    "(bytes \<Rightarrow> u64) \<Rightarrow> 'x HeaderKind \<Rightarrow> 'y HeaderKind \<Rightarrow> ('x Frame_scheme \<Rightarrow> 'y Frame_scheme) \<Rightarrow> bytes \<Rightarrow>
     bytes option" where
  "transmute_header xxh3 from to f message =
     do {
       old \<leftarrow> message_header from message;
       case message_try_from xxh3 to (header_bytes to (f old) @ drop HEADER_SIZE message) of
         Inl _ \<Rightarrow> None
       | Inr m \<Rightarrow> Some m
     }"

definition seal_prepare_checksum :: "(bytes \<Rightarrow> u64) \<Rightarrow> bytes \<Rightarrow> bytes option" where
  "seal_prepare_checksum xxh3 message =
     do {
       header \<leftarrow> message_header prepare_kind message;
       Some (put_PrepareHeader (header\<lparr>fr_checksum := identity_checksum xxh3 header\<rparr>) @ drop HEADER_SIZE message)
     }"

definition seal_prepare_capacity :: "(bytes \<Rightarrow> u64) \<Rightarrow> bytes \<Rightarrow> nat \<Rightarrow> bytes option" where
  "seal_prepare_capacity xxh3 message cap =
     do {
       assert_that (cap < 2 ^ 32);
       message \<leftarrow> transmute_header xxh3 prepare_kind prepare_kind (\<lambda>old. old\<lparr>ph_retry_capacity := of_nat cap\<rparr>) message;
       seal_prepare_checksum xxh3 message
     }"

definition verify_prepare_integrity :: "(bytes \<Rightarrow> u64) \<Rightarrow> PrepareHeader \<Rightarrow> bytes \<Rightarrow> string + unit" where
  "verify_prepare_integrity xxh3 header frame =
     (if fr_checksum header \<noteq> CHECKSUM_UNSEALED \<and> identity_checksum xxh3 header \<noteq> fr_checksum header
      then Err ''prepare header does not match its own checksum''
      else if fr_checksum_body header \<noteq> 0 \<and>
              ucast (xxh3 (frame_body frame (fr_size header))) \<noteq> fr_checksum_body header
      then Err ''prepare body does not match its checksum''
      else Ok ())"

definition restamp_prepare_view :: "(bytes \<Rightarrow> u64) \<Rightarrow> bytes \<Rightarrow> u32 \<Rightarrow> bytes option" where
  "restamp_prepare_view xxh3 stored v =
     (if length stored < HEADER_SIZE then None
      else do {
        header \<leftarrow> cast_PrepareHeader (take HEADER_SIZE stored);
        if fr_view header = v then Some stored
        else case message_try_from xxh3 generic_kind (take 52 stored @ to_le_bytes v @ drop 56 stored) of
          Inl _ \<Rightarrow> None
        | Inr m \<Rightarrow> Some m
      })"

definition frozen_prepare_header :: "bytes \<Rightarrow> PrepareHeader option" where
  "frozen_prepare_header message =
     (if length message < HEADER_SIZE then None
      else do {
        header \<leftarrow> cast_PrepareHeader (take HEADER_SIZE message);
        case validate_PrepareHeader header of
          Inl _ \<Rightarrow> None
        | Inr _ \<Rightarrow>
            if HEADER_SIZE \<le> unat (fr_size header) \<and> unat (fr_size header) \<le> length message
            then Some header else None
      })"

section \<open>From a request to a prepare\<close>

definition PREPARED_OWNER_GENERATION_SIZE :: nat where "PREPARED_OWNER_GENERATION_SIZE = 8"

text \<open>An offset request is extended by the generation of the partition's owner.\<close>

definition stamp_owner_generation :: "(bytes \<Rightarrow> u64) \<Rightarrow> bytes \<Rightarrow> bytes option" where
  "stamp_owner_generation xxh3 message =
     do {
       header \<leftarrow> message_header routed_request_kind message;
       let payload_end = unat (fr_size header);
       let total_size = payload_end + PREPARED_OWNER_GENERATION_SIZE;
       prepared \<leftarrow>
         (if is_auto_commit_client (rr_client header) \<and> length message = total_size then Some message
          else map_option (\<lambda>body. replicate HEADER_SIZE 0 @ body @ replicate PREPARED_OWNER_GENERATION_SIZE 0)
                 (message_body routed_request_kind message));
       let prepared = take payload_end prepared @ to_le_bytes (rr_owner_generation header);
       assert_that (total_size < 2 ^ 32);
       transmute_header xxh3 routed_request_kind routed_request_kind (\<lambda>_. header\<lparr>fr_size := of_nat total_size\<rparr>) prepared
     }"

definition prepare_of_request ::
    "'g VsrConsensus \<Rightarrow> u64 \<Rightarrow> u64 \<Rightarrow> u128 \<Rightarrow> RoutedRequestHeader \<Rightarrow> PrepareHeader" where
  "prepare_of_request s op timestamp checksum_body old =
     default_PrepareHeader
       \<lparr>fr_cluster := vc_cluster s, fr_size := fr_size old, fr_view := vc_view s, fr_release := fr_release old,
        fr_command := CmdPrepare, fr_replica := vc_replica s, ph_client := rr_client old,
        ph_parent := vc_last_prepare_checksum s, ph_request_checksum := rr_request_checksum old,
        ph_request := rr_request old, ph_session := rr_session old, ph_commit := vc_commit_max s, ph_op := op,
        ph_timestamp := timestamp, ph_operation := rr_operation old, ph_group := vc_group s,
        fr_checksum_body := checksum_body, ph_user_id := rr_user_id old,
        ph_partition_incarnation := vc_partition_incarnation s\<rparr>"

definition project_prepare ::
    "(bytes \<Rightarrow> u64) \<Rightarrow> u64 \<Rightarrow> bytes \<Rightarrow> 'g VsrConsensus \<Rightarrow> (bytes \<times> 'g VsrConsensus) option" where
  "project_prepare xxh3 now message s =
     do {
       header \<leftarrow> message_header routed_request_kind message;
       message \<leftarrow>
         (if rr_operation header = OpStoreConsumerOffset \<or> rr_operation header = OpDeleteConsumerOffset
          then stamp_owner_generation xxh3 message else Some message);
       let op = vc_sequencer s + 1;
       let (timestamp, s) = next_monotonic_timestamp now s;
       header \<leftarrow> message_header routed_request_kind message;
       let checksum_body =
         (if rr_operation header = OpSendMessages then 0
          else ucast (xxh3 (frame_body message (fr_size header))));
       prepared \<leftarrow> transmute_header xxh3 routed_request_kind prepare_kind
         (prepare_of_request s op timestamp checksum_body) message;
       sealed \<leftarrow> seal_prepare_checksum xxh3 prepared;
       Some (sealed, s)
     }"

definition project_prepare_ok :: "(bytes \<Rightarrow> u64) \<Rightarrow> bytes \<Rightarrow> 'g VsrConsensus \<Rightarrow> bytes option" where
  "project_prepare_ok xxh3 message s =
     transmute_header xxh3 prepare_kind prepare_ok_kind (\<lambda>old.
       seal xxh3 prepare_ok_kind
         (default_PrepareOkHeader
           \<lparr>fr_command := CmdPrepareOk, po_parent := ph_parent old, po_prepare_checksum := fr_checksum old,
            po_request := ph_request old, fr_cluster := vc_cluster s, fr_replica := vc_replica s,
            fr_view := vc_view s, po_op := ph_op old, po_commit := vc_commit_max s,
            po_timestamp := ph_timestamp old, po_operation := ph_operation old, po_group := ph_group old,
            fr_size := of_nat HEADER_SIZE\<rparr>)) message"

section \<open>Replies\<close>

definition RESULT_COUNT_LEN :: nat where "RESULT_COUNT_LEN = 4"
definition RESULT_ENTRY_LEN :: nat where "RESULT_ENTRY_LEN = 8"
definition REJECTION_SECTION_LEN :: nat where "REJECTION_SECTION_LEN = RESULT_COUNT_LEN + RESULT_ENTRY_LEN"

definition read_u32 :: "bytes \<Rightarrow> nat \<Rightarrow> u32 option" where
  "read_u32 reply_body offset =
     (if offset + 4 \<le> length reply_body then Some (from_le_bytes (take 4 (drop offset reply_body))) else None)"

definition result_section_len :: "bytes \<Rightarrow> nat option" where
  "result_section_len reply_body =
     do {
       entries \<leftarrow> read_u32 reply_body 0;
       let len = unat entries * RESULT_ENTRY_LEN + RESULT_COUNT_LEN;
       if length reply_body \<ge> len then Some len else None
     }"

definition result_code :: "bytes \<Rightarrow> u32 option" where
  "result_code reply_body =
     do {
       section_len \<leftarrow> result_section_len reply_body;
       if section_len = RESULT_COUNT_LEN then Some 0 else read_u32 reply_body (RESULT_COUNT_LEN + 4)
     }"

definition rejection_section :: "u32 \<Rightarrow> bytes" where
  "rejection_section code = to_le_bytes (1 :: u32) @ to_le_bytes (0 :: u32) @ to_le_bytes code"

text \<open>The last step of every builder: the buffer is parsed as a reply, and a failure panics.\<close>

definition reply_message :: "(bytes \<Rightarrow> u64) \<Rightarrow> ReplyHeader \<Rightarrow> bytes \<Rightarrow> bytes option" where
  "reply_message xxh3 header body =
     (case message_try_from xxh3 reply_kind (put_ReplyHeader header @ body) of
        Inl _ \<Rightarrow> None
      | Inr m \<Rightarrow> Some m)"

definition build_reply_message :: "(bytes \<Rightarrow> u64) \<Rightarrow> PrepareHeader \<Rightarrow> bytes \<Rightarrow> bytes option" where
  "build_reply_message xxh3 prepare_header body =
     reply_message xxh3 (from_prepare prepare_header (of_nat (HEADER_SIZE + length body))) body"

definition build_result_rejection_reply ::
    "(bytes \<Rightarrow> u64) \<Rightarrow> RoutedRequestHeader \<Rightarrow> u64 \<Rightarrow> u32 \<Rightarrow> bytes option" where
  "build_result_rejection_reply xxh3 request_header commit code =
     reply_message xxh3
       ((echoing request_header (of_nat (HEADER_SIZE + REJECTION_SECTION_LEN)))
          \<lparr>rp_client := rr_client request_header, rp_op := commit, rp_commit := commit\<rparr>)
       (rejection_section code)"

definition reply_from_request :: "'g VsrConsensus \<Rightarrow> RoutedRequestHeader \<Rightarrow> nat \<Rightarrow> ReplyHeader" where
  "reply_from_request s request_header total_size =
     default_ReplyHeader
       \<lparr>fr_cluster := vc_cluster s, fr_size := of_nat total_size, fr_view := vc_view s, fr_command := CmdReply,
        fr_replica := vc_replica s, rp_request_checksum := rr_request_checksum request_header,
        rp_client := rr_client request_header, rp_op := vc_commit_max s, rp_commit := vc_commit_max s,
        rp_timestamp := rr_timestamp request_header, rp_request := rr_request request_header,
        rp_operation := rr_operation request_header\<rparr>"

definition build_reply_from_request ::
    "(bytes \<Rightarrow> u64) \<Rightarrow> 'g VsrConsensus \<Rightarrow> RoutedRequestHeader \<Rightarrow> bytes \<Rightarrow> bytes option" where
  "build_reply_from_request xxh3 s request_header body =
     reply_message xxh3 (reply_from_request s request_header (HEADER_SIZE + length body)) body"

definition build_deny_reply_from_request ::
    "(bytes \<Rightarrow> u64) \<Rightarrow> 'g VsrConsensus \<Rightarrow> RoutedRequestHeader \<Rightarrow> u32 \<Rightarrow> bytes option" where
  "build_deny_reply_from_request xxh3 s request_header status =
     do {
       reply \<leftarrow> build_reply_from_request xxh3 s request_header [];
       header \<leftarrow> cast_ReplyHeader (take HEADER_SIZE reply);
       Some (put_ReplyHeader (header\<lparr>rp_status := status, rp_op := 0\<rparr>) @ drop HEADER_SIZE reply)
     }"

definition build_deny_reply_from_request_header ::
    "(bytes \<Rightarrow> u64) \<Rightarrow> RoutedRequestHeader \<Rightarrow> u32 \<Rightarrow> bytes option" where
  "build_deny_reply_from_request_header xxh3 request_header status =
     reply_message xxh3
       ((echoing request_header (of_nat HEADER_SIZE))\<lparr>rp_client := rr_client request_header, rp_status := status\<rparr>) []"

end
