(* ===== verification/Plane_Helpers.thy ===== *)
theory Plane_Helpers
  imports Vsr_Prepare
begin

text \<open>
  What both planes do around a replica (\<open>src/core/consensus/src/plane_helpers.rs\<close>): the checks before
  a prepare or an acknowledgement is taken, the commit walk of a primary, the chain along which a
  prepare is forwarded, and the proof of a local log against the log of a view. The journal is a
  function from op numbers to headers and the message bus a function from a replica to the result of a
  send. A loop that may not end is a partial function, whose value is then \<open>None\<close>.
\<close>

section \<open>Forwarding along the chain\<close>

datatype SendError =
    ClientNotFound u128
  | ReplicaNotConnected u8
  | ReplicaRouteMissing u8
  | ReplicaForwardFailed u8
  | ConnectionClosed
  | BusShuttingDown
  | Backpressure
  | RoutingFailed "16 word"
  | DupFailed

datatype ChainReplicationError =
    MalformedPrepare
  | UnexpectedCommand Command
  | CommittedPrepare u64 u64
  | SelfRoute u8
  | Transport SendError

definition is_transport :: "ChainReplicationError \<Rightarrow> bool" where
  "is_transport e = (case e of Transport _ \<Rightarrow> True | _ \<Rightarrow> False)"

definition fence_old_prepare_by_commit :: "'g VsrConsensus \<Rightarrow> PrepareHeader \<Rightarrow> bool" where
  "fence_old_prepare_by_commit s header \<longleftrightarrow> ph_op header \<le> vc_commit_min s"

definition replication_target ::
    "'g VsrConsensus \<Rightarrow> PrepareHeader \<Rightarrow> ChainReplicationError + u8 option" where
  "replication_target s header =
     (if fr_command header \<noteq> CmdPrepare then Err (UnexpectedCommand (fr_command header))
      else if ph_op header \<le> vc_commit_min s then Err (CommittedPrepare (ph_op header) (vc_commit_min s))
      else
        let next_id = (vc_replica s + 1) mod vc_replica_count s in
        if next_id = primary_index s (fr_view header) then Ok None
        else if next_id = vc_replica s then Err (SelfRoute (vc_replica s))
        else Ok (Some next_id))"

fun disconnected :: "SendError \<Rightarrow> bool" where
  "disconnected (ReplicaNotConnected _) = True"
| "disconnected ConnectionClosed = True"
| "disconnected _ = False"

partial_function (option) forward_to_connected_replica ::
    "(u8 \<Rightarrow> SendError + unit) \<Rightarrow> u8 \<Rightarrow> u8 \<Rightarrow> u8 \<Rightarrow> (ChainReplicationError + unit) option" where
  "forward_to_connected_replica send_to_replica replica_count next_id primary =
     (case send_to_replica next_id of
        Inr _ \<Rightarrow> Some (Ok ())
      | Inl e \<Rightarrow>
          if disconnected e then
            let next_id = (next_id + 1) mod replica_count in
            if next_id = primary then Some (Err (Transport e))
            else forward_to_connected_replica send_to_replica replica_count next_id primary
          else Some (Err (Transport e)))"

definition replicate_to_next_in_chain ::
    "(u8 \<Rightarrow> SendError + unit) \<Rightarrow> 'g VsrConsensus \<Rightarrow> PrepareHeader \<Rightarrow> (ChainReplicationError + unit) option" where
  "replicate_to_next_in_chain send_to_replica s header =
     (case replication_target s header of
        Inl e \<Rightarrow> Some (Err e)
      | Inr None \<Rightarrow> Some (Ok ())
      | Inr (Some next_id) \<Rightarrow>
          forward_to_connected_replica send_to_replica (vc_replica_count s) next_id
            (primary_index s (fr_view header)))"

definition replicate_frozen_to_next_in_chain ::
    "(u8 \<Rightarrow> SendError + unit) \<Rightarrow> 'g VsrConsensus \<Rightarrow> bytes \<Rightarrow> (ChainReplicationError + unit) option" where
  "replicate_frozen_to_next_in_chain send_to_replica s message =
     (case frozen_prepare_header message of
        None \<Rightarrow> Some (Err MalformedPrepare)
      | Some header \<Rightarrow> replicate_to_next_in_chain send_to_replica s header)"

section \<open>Prepares and acknowledgements\<close>

definition pipeline_prepare_common :: "PrepareHeader \<Rightarrow> 'g VsrConsensus \<Rightarrow> 'g VsrConsensus option" where
  "pipeline_prepare_common header s =
     do {
       assert_that (is_primary s);
       assert_that (vc_status s = Normal);
       assert_that (\<not> is_transferring s);
       assert_that (pipeline_verify (vc_pipeline s));
       push_prepare_entry header (pipeline_entry header) s
     }"

definition replicate_preflight ::
    "PrepareHeader \<Rightarrow> 'g VsrConsensus \<Rightarrow> ((IgnoreReason + u64) \<times> 'g VsrConsensus) option" where
  "replicate_preflight header s =
     do {
       assert_that (fr_command header = CmdPrepare);
       if is_transferring s then Some (Err StateTransfer, s)
       else if vc_status s \<noteq> Normal then Some (Err NotNormal, s)
       else if fr_view header > vc_view s then Some (Err NewerView, observe_newer_view (fr_view header) s)
       else if fr_view header < vc_view s then Some (Err OlderView, s)
       else map_option (\<lambda>s'. (Ok (vc_sequencer s), s'))
              (if \<not> is_primary s then advance_commit_max (ph_commit header) s else Some s)
     }"

definition ack_preflight :: "'g VsrConsensus \<Rightarrow> IgnoreReason + unit" where
  "ack_preflight s =
     (if \<not> is_primary s then Err NotPrimary
      else if vc_status s \<noteq> Normal then Err NotNormal
      else Ok ())"

text \<open>The commit walk over consecutive entries that have their quorum.\<close>

partial_function (option) quorum_walk :: "LocalPipeline \<Rightarrow> u64 \<Rightarrow> u64 option" where
  "quorum_walk p new_commit =
     (case message_by_op p (new_commit + 1) of
        None \<Rightarrow> Some new_commit
      | Some entry \<Rightarrow>
          if \<not> pe_ok_quorum_received entry then Some new_commit else quorum_walk p (new_commit + 1))"

definition ack_quorum_reached :: "PrepareOkHeader \<Rightarrow> 'g VsrConsensus \<Rightarrow> (bool \<times> 'g VsrConsensus) option" where
  "ack_quorum_reached ack s =
     do {
       (outcome, s) \<leftarrow> handle_prepare_ok ack s;
       if \<not> quorum_reached outcome then Some (False, s)
       else do {
         new_commit \<leftarrow> quorum_walk (vc_pipeline s) (vc_commit_max s);
         if new_commit > vc_commit_max s
         then map_option (Pair True) (advance_commit_max new_commit s)
         else Some (False, s)
       }
     }"

definition repair_session_live :: "'g VsrConsensus \<Rightarrow> bool" where
  "repair_session_live s \<longleftrightarrow> vc_status s = Normal \<or> is_primary_elect s"

definition peek_committable_head :: "'g VsrConsensus \<Rightarrow> PrepareHeader option" where
  "peek_committable_head s =
     (case prepare_head (vc_pipeline s) of
        None \<Rightarrow> None
      | Some e \<Rightarrow>
          if \<not> ph_op (pe_header e) \<le> vc_commit_max s then None
          else if ph_op (pe_header e) \<noteq> vc_commit_min s + 1 then None
          else Some (pe_header e))"

text \<open>\<open>None\<close> when the assertion fails.\<close>

definition panic_if_hash_chain_would_break_in_same_view :: "PrepareHeader \<Rightarrow> PrepareHeader \<Rightarrow> unit option" where
  "panic_if_hash_chain_would_break_in_same_view previous current =
     (if fr_view previous = fr_view current then assert_that (ph_parent current = fr_checksum previous) else Some ())"

partial_function (option) frontier_walk ::
    "(u64 \<Rightarrow> PrepareHeader option) \<Rightarrow> u64 \<Rightarrow> u128 option \<Rightarrow> (u64 \<times> u128 option) option" where
  "frontier_walk header_at frontier checksum =
     (case header_at (frontier + 1) of
        None \<Rightarrow> Some (frontier, checksum)
      | Some header \<Rightarrow> frontier_walk header_at (frontier + 1) (Some (fr_checksum header)))"

definition repaired_frontier_update :: "u64 \<Rightarrow> (u64 \<Rightarrow> PrepareHeader option) \<Rightarrow> (u64 \<times> u128) option option" where
  "repaired_frontier_update previous_frontier header_at =
     map_option (\<lambda>(frontier, checksum). map_option (Pair frontier) checksum)
       (frontier_walk header_at previous_frontier (map_option fr_checksum (header_at previous_frontier)))"

text \<open>
  An acknowledgement that leaves the replica is a target and a message; one to itself goes through the
  loopback queue. The result \<open>None\<close> of the second component means nothing was sent on the bus.
\<close>

definition send_or_loopback ::
    "u8 \<Rightarrow> bytes \<Rightarrow> 'g VsrConsensus \<Rightarrow> ('g VsrConsensus \<times> (u8 \<times> bytes) option) option" where
  "send_or_loopback target message s =
     (if target = vc_replica s then map_option (\<lambda>s. (s, None)) (push_loopback message s)
      else Some (s, Some (target, message)))"

definition prepare_ok_header :: "'g VsrConsensus \<Rightarrow> PrepareHeader \<Rightarrow> PrepareOkHeader" where
  "prepare_ok_header s header =
     default_PrepareOkHeader
       \<lparr>fr_command := CmdPrepareOk, fr_cluster := vc_cluster s, fr_replica := vc_replica s, fr_view := vc_view s,
        po_op := ph_op header, po_commit := vc_commit_max s, po_timestamp := ph_timestamp header,
        po_parent := ph_parent header, po_prepare_checksum := fr_checksum header, po_request := ph_request header,
        po_operation := ph_operation header, po_group := ph_group header, fr_size := of_nat HEADER_SIZE\<rparr>"

definition may_acknowledge :: "'g VsrConsensus \<Rightarrow> PrepareHeader \<Rightarrow> bool \<Rightarrow> bool" where
  "may_acknowledge s header is_persisted \<longleftrightarrow>
     vc_status s = Normal \<and> \<not> (is_transferring s \<or> vc_view_log_unproven s \<or> \<not> history_certified s) \<and> is_persisted"

definition send_prepare_ok ::
    "(bytes \<Rightarrow> u64) \<Rightarrow> PrepareHeader \<Rightarrow> bool \<Rightarrow> 'g VsrConsensus \<Rightarrow> ('g VsrConsensus \<times> (u8 \<times> bytes) option) option" where
  "send_prepare_ok xxh3 header is_persisted s =
     do {
       assert_that (fr_command header = CmdPrepare);
       if \<not> may_acknowledge s header is_persisted then Some (s, None)
       else do {
         assert_that (fr_view header \<le> vc_view s);
         if ph_op header > vc_sequencer s then Some (s, None)
         else do {
           message \<leftarrow> transmute_header xxh3 prepare_ok_kind prepare_ok_kind
             (\<lambda>_. seal xxh3 prepare_ok_kind (prepare_ok_header s header)) (replicate HEADER_SIZE 0);
           send_or_loopback (primary_index s (vc_view s)) message s
         }
       }
     }"

section \<open>Proving the log of a view\<close>

datatype ViewLogProof =
    Proven
  | Missing u64 u64
  | Divergent u64 u64

definition canonical_entry :: "PrepareHeader list \<Rightarrow> u64 \<Rightarrow> PrepareHeader option" where
  "canonical_entry canonical op = find (\<lambda>header. ph_op header = op \<and> dvc_header_kind header \<noteq> Blank) canonical"

lemma pred_less: "(op :: u64) \<noteq> 0 \<Longrightarrow> unat (op - 1) < unat op"
  using unat_gt_0 [of op] by (simp add: unat_minus_one)

lemma above_nonzero: "(a :: u64) < b \<Longrightarrow> b \<noteq> 0"
  by auto

lemma succ_closer: "(op :: u64) \<noteq> - 1 \<Longrightarrow> unat (- 1 :: u64) - unat (op + 1) < unat (- 1 :: u64) - unat op"
  using unat_add_one [of op] word_le_nat_alt [of "op + 1" "- 1"] by simp

text \<open>A counter that would step below zero is \<open>None\<close>; the caller starts the run above \<open>proven\<close>.\<close>

function divergent_run_first ::
    "u64 \<Rightarrow> u128 \<Rightarrow> u64 \<Rightarrow> PrepareHeader list \<Rightarrow> (u64 \<Rightarrow> PrepareHeader option) \<Rightarrow> u64 option" where
  "divergent_run_first first expected proven canonical header_at =
     (if first = 0 then None
      else if \<not> first - 1 > proven then Some first
      else case canonical_entry canonical first of
        None \<Rightarrow> Some first
      | Some named \<Rightarrow>
          if \<not> (fr_checksum named \<noteq> CHECKSUM_UNSEALED \<and> fr_checksum named = expected) then Some first
          else if (case header_at (first - 1) of
                     None \<Rightarrow> True
                   | Some held \<Rightarrow> fr_checksum held \<noteq> CHECKSUM_UNSEALED \<and> fr_checksum held = ph_parent named)
          then Some first
          else divergent_run_first (first - 1) (ph_parent named) proven canonical header_at)"
  by pat_completeness auto
termination
  by (relation "measure (\<lambda>(first, _). unat first)") (auto simp: pred_less)

declare divergent_run_first.simps [simp del]

function proven_walk ::
    "(u64 \<Rightarrow> PrepareHeader option) \<Rightarrow> u64 \<Rightarrow> u64 \<Rightarrow> u128 option \<Rightarrow> u64" where
  "proven_walk header_at proven op parent =
     (if op = - 1 then proven
      else case header_at (op + 1) of
        None \<Rightarrow> proven
      | Some held \<Rightarrow>
          if fr_checksum held = CHECKSUM_UNSEALED \<or>
             (case parent of None \<Rightarrow> False | Some checksum \<Rightarrow> ph_parent held \<noteq> checksum)
          then proven
          else proven_walk header_at (max proven (min (ph_commit held) op)) (op + 1) (Some (fr_checksum held)))"
  by pat_completeness auto
termination
  by (relation "measure (\<lambda>(_, _, op, _). unat (- 1 :: u64) - unat op)") (auto simp: succ_closer simp del: unsigned_minus_1_eq_mask)

declare proven_walk.simps [simp del]

definition locally_proven_commit :: "u64 \<Rightarrow> (u64 \<Rightarrow> PrepareHeader option) \<Rightarrow> u64" where
  "locally_proven_commit commit_floor header_at = proven_walk header_at commit_floor commit_floor None"

function proof_walk ::
    "PrepareHeader list \<Rightarrow> (u64 \<Rightarrow> PrepareHeader option) \<Rightarrow> u64 \<Rightarrow> u64 \<Rightarrow> u128 \<Rightarrow> u64 option \<Rightarrow> ViewLogProof option" where
  "proof_walk canonical header_at proven op expected missing =
     (if \<not> proven < op then
        Some (case missing of None \<Rightarrow> Proven | Some op \<Rightarrow> Missing op 0)
      else case header_at op of
        Some header \<Rightarrow>
          if fr_checksum header = CHECKSUM_UNSEALED \<or> fr_checksum header \<noteq> expected
          then map_option (\<lambda>first. Divergent first op) (divergent_run_first op expected proven canonical header_at)
          else proof_walk canonical header_at proven (op - 1) (ph_parent header) missing
      | None \<Rightarrow>
          (case canonical_entry canonical op of
             Some header \<Rightarrow>
               if fr_checksum header \<noteq> CHECKSUM_UNSEALED \<and> fr_checksum header = expected
               then proof_walk canonical header_at proven (op - 1) (ph_parent header) (Some op)
               else Some (Missing op op)
           | None \<Rightarrow> Some (Missing op op)))"
  by pat_completeness auto
termination
  by (relation "measure (\<lambda>(_, _, _, op, _). unat op)") (auto simp: pred_less above_nonzero)

declare proof_walk.simps [simp del]

definition view_log_proof ::
    "u64 \<Rightarrow> PrepareHeader list \<Rightarrow> u64 \<Rightarrow> (u64 \<Rightarrow> PrepareHeader option) \<Rightarrow> ViewLogProof option" where
  "view_log_proof commit_floor canonical op_head header_at =
     (let proven = locally_proven_commit commit_floor header_at in
      if op_head \<le> proven then Some Proven
      else case first_opt canonical of
        None \<Rightarrow> Some (Missing op_head op_head)
      | Some head \<Rightarrow>
          if ph_op head = op_head \<and> dvc_header_kind head \<noteq> Blank
          then proof_walk canonical header_at proven op_head (fr_checksum head) None
          else Some (Missing op_head op_head))"

definition links :: "PrepareHeader \<Rightarrow> PrepareHeader \<Rightarrow> bool option" where
  "links child parent =
     (if fr_checksum child \<noteq> CHECKSUM_UNSEALED \<and> fr_checksum parent \<noteq> CHECKSUM_UNSEALED
      then Some (ph_parent child = fr_checksum parent) else None)"

definition evidence_entry ::
    "MergedLog option \<Rightarrow> (u64 \<Rightarrow> (PrepareHeader \<times> bool) option) \<Rightarrow> u64 \<Rightarrow> (PrepareHeader \<times> bool) option" where
  "evidence_entry pending held_at op =
     (case (case pending of
              None \<Rightarrow> None
            | Some log \<Rightarrow>
                (case canonical_entry (ml_headers log) op of
                   Some named \<Rightarrow> Some named
                 | None \<Rightarrow> canonical_entry (ml_committed_elsewhere log) op)) of
        Some named \<Rightarrow> Some (named, True)
      | None \<Rightarrow> held_at op)"

text \<open>\<open>found\<close> holds the links to the neighbours below and above, each with whether the neighbour is vouched for.\<close>

definition repaired_prepare_evidence ::
    "PrepareHeader \<Rightarrow> u32 \<Rightarrow> MergedLog option \<Rightarrow> (u64 \<Rightarrow> (PrepareHeader \<times> bool) option) \<Rightarrow> RepairEvidence" where
  "repaired_prepare_evidence header v pending held_at =
     (let entry_at = evidence_entry pending held_at;
          below = (case checked_sub (ph_op header) 1 of
                     None \<Rightarrow> None
                   | Some op \<Rightarrow> if op > 0 then entry_at op else None);
          above = (case checked_add (ph_op header) 1 of None \<Rightarrow> None | Some op \<Rightarrow> entry_at op);
          found = (case below of None \<Rightarrow> [] | Some (b, vouched) \<Rightarrow> [(links header b, vouched)]) @
                  (case above of None \<Rightarrow> [] | Some (a, vouched) \<Rightarrow> [(links a header, vouched)]);
          otherwise =
            (if (Some False, True) \<in> set found then EvidenceContradicted
             else if fr_view header \<ge> v \<or>
                     (case above of None \<Rightarrow> False | Some (a, vouched) \<Rightarrow> vouched \<and> links a header = Some True)
             then EvidenceProven
             else if (Some False, False) \<in> set found then EvidenceContradicted
             else EvidenceUnproven)
      in case entry_at (ph_op header) of
           Some (named, True) \<Rightarrow>
             if fr_checksum named = fr_checksum header then EvidenceProven else EvidenceContradicted
         | _ \<Rightarrow> otherwise)"

section \<open>The chain visits every backup\<close>

text \<open>The replicas from \<open>next\<close> around the ring up to the one before \<open>primary\<close>.\<close>

definition ring_distance :: "u8 \<Rightarrow> u8 \<Rightarrow> u8 \<Rightarrow> nat" where
  "ring_distance n next_id primary = (unat primary + unat n - unat next_id) mod unat n"

definition ring :: "u8 \<Rightarrow> u8 \<Rightarrow> u8 \<Rightarrow> u8 list" where
  "ring n next_id primary = map (\<lambda>i. of_nat ((unat next_id + i) mod unat n)) [0..<ring_distance n next_id primary]"

text \<open>The answer of a bus at the first replica that is connected, or at the last one of the ring.\<close>

fun first_answer :: "(u8 \<Rightarrow> SendError + unit) \<Rightarrow> u8 list \<Rightarrow> ChainReplicationError + unit" where
  "first_answer send_to_replica [] = Ok ()"
| "first_answer send_to_replica (r # rs) =
     (case send_to_replica r of
        Inr _ \<Rightarrow> Ok ()
      | Inl e \<Rightarrow> if disconnected e \<and> rs \<noteq> [] then first_answer send_to_replica rs else Err (Transport e))"

lemma distance_step:
  assumes "(q :: nat) < n" and "p < n" and "q \<noteq> p"
  shows "(p + n - q) mod n = Suc ((p + n - (q + 1) mod n) mod n)"
proof (cases "Suc q = n")
  case True
  then have "p + n - q = Suc p" "Suc p < n"
    using assms by arith+
  then show ?thesis
    using True by simp
next
  case False
  then have "Suc q < n" "p + n - q = Suc (p + n - Suc q)"
    using assms by arith+
  moreover have "(p + n - Suc q) mod n = (if Suc q \<le> p then p - Suc q else p + n - Suc q)"
    using assms by (auto simp: mod_if)
  moreover have "Suc (p + n - Suc q) mod n = (if q < p then p - q else p + n - q)"
    using assms by (auto simp: mod_if)
  ultimately show ?thesis
    using assms by auto
qed

lemma distance_miss:
  assumes "(q :: nat) < n" and "p < n" and "i < (p + n - q) mod n"
  shows "p \<noteq> (q + i) mod n"
proof (cases "q \<le> p")
  case True
  then have "(p + n - q) mod n = p - q"
    using assms(2) by (simp add: mod_if)
  then have "q + i < p"
    using assms(3) by linarith
  then show ?thesis
    using assms(2) by simp
next
  case False
  then have "(p + n - q) mod n = p + n - q"
    using assms(1) by simp
  then have "q + i < p + n"
    using assms(3) by linarith
  then have "(q + i) mod n = (if q + i < n then q + i else q + i - n)" "q + i - n < p \<or> q + i < n"
    using assms(2) by (auto simp: mod_if)
  then show ?thesis
    using False by auto
qed

lemma ring_step:
  assumes "next_id < n" and "primary < n" and "next_id \<noteq> primary"
  defines "next' \<equiv> (next_id + 1) mod n"
  shows "ring n next_id primary = next_id # ring n next' primary" and "next' < n"
proof -
  have n: "unat next_id < unat n" "unat primary < unat n" "unat next_id \<noteq> unat primary"
    using assms(1-3) by (simp_all add: word_less_nat_alt word_unat_eq_iff)
  have "next_id \<noteq> - 1"
    using assms(1) by (metis word_order.extremum_strict)
  then have next': "unat next' = (unat next_id + 1) mod unat n"
    by (simp add: next'_def unat_mod unat_add_one)
  show "next' < n"
    using n by (simp add: word_less_nat_alt next')
  have dist: "ring_distance n next_id primary = Suc (ring_distance n next' primary)"
    using n unfolding ring_distance_def next' by (rule distance_step)
  have shift: "Suc (unat next_id + i) mod unat n = (unat next' + i) mod unat n" for i
    by (simp add: next' mod_simps)
  have "[0..<Suc (ring_distance n next' primary)] = 0 # map Suc [0..<ring_distance n next' primary]"
    by (simp add: upt_conv_Cons map_Suc_upt del: upt_Suc)
  then show "ring n next_id primary = next_id # ring n next' primary"
    using n(1) by (simp add: ring_def dist shift comp_def del: upt_Suc)
qed

lemma length_ring: "length (ring n next_id primary) = ring_distance n next_id primary"
  by (simp add: ring_def)

lemma card_lessThan_word: "card {..<n :: 'w::len word} = unat n"
proof -
  have "k \<in> unat ` {..<n}" if "k < unat n" for k
  proof
    have "k < 2 ^ LENGTH('w)"
      using that unsigned_less [of n] by (rule order_less_trans)
    then show k: "k = unat (of_nat k :: 'w word)"
      by (simp add: unat_of_nat)
    show "(of_nat k :: 'w word) \<in> {..<n}"
      using that k by (simp add: word_less_nat_alt)
  qed
  then have "unat ` {..<n} = {..<unat n}"
    by (auto simp: word_less_nat_alt)
  then show ?thesis
    using card_image [of unat "{..<n}"] by (simp add: inj_on_def word_unat_eq_iff)
qed

lemma ring_Nil: "primary < n \<Longrightarrow> ring n primary primary = []"
  by (simp add: ring_def ring_distance_def)

lemma in_ring:
  assumes "next_id < n" and "primary < n"
  shows "distinct (ring n next_id primary)" and "primary \<notin> set (ring n next_id primary)"
    and "r \<in> set (ring n next_id primary) \<Longrightarrow> r < n"
proof -
  have n: "unat next_id < unat n" "unat primary < unat n" "unat n < 256"
    using assms unsigned_less [of n] by (simp_all add: word_less_nat_alt)
  let ?d = "ring_distance n next_id primary"
  have d: "?d < unat n"
    using n by (simp add: ring_distance_def)
  have of_nat: "unat (of_nat (k mod unat n) :: u8) = k mod unat n" for k
  proof -
    have "k mod unat n < 256"
      using n by (metis gr_zeroI less_zeroE mod_less_divisor order_less_trans)
    then show ?thesis
      by (simp add: unat_of_nat)
  qed
  show "distinct (ring n next_id primary)"
  proof (unfold ring_def distinct_map, intro conjI inj_onI)
    fix i j
    assume "i \<in> set [0..<?d]" "j \<in> set [0..<?d]"
      and "(of_nat ((unat next_id + i) mod unat n) :: u8) = of_nat ((unat next_id + j) mod unat n)"
    moreover from this(3) have "(unat next_id + i) mod unat n = (unat next_id + j) mod unat n"
      using of_nat by metis
    ultimately show "i = j"
      using n d by (auto simp: mod_if split: if_splits)
  qed simp
  show "primary \<notin> set (ring n next_id primary)"
  proof
    assume "primary \<in> set (ring n next_id primary)"
    then obtain i where "i < ?d" "primary = of_nat ((unat next_id + i) mod unat n)"
      by (auto simp: ring_def)
    then have "unat primary = (unat next_id + i) mod unat n" "i < ?d"
      using of_nat by simp_all
    then show False
      using distance_miss n unfolding ring_distance_def by blast
  qed
  show "r \<in> set (ring n next_id primary) \<Longrightarrow> r < n"
    using n by (auto simp: ring_def word_less_nat_alt of_nat)
qed

lemma forward_ring:
  assumes "next_id < n" and "primary < n" and "next_id \<noteq> primary"
  shows "forward_to_connected_replica send_to_replica n next_id primary =
    Some (first_answer send_to_replica (ring n next_id primary))"
  using assms
proof (induction "ring_distance n next_id primary" arbitrary: next_id)
  case 0
  then have "ring n next_id primary = []"
    by (simp add: ring_def)
  then show ?case
    using ring_step(1) [OF 0(2-4)] by simp
next
  case (Suc d)
  let ?next' = "(next_id + 1) mod n"
  note step = ring_step [OF Suc(3-5)]
  have d: "d = ring_distance n ?next' primary"
    using Suc(2) arg_cong [OF step(1), of length] by (simp add: ring_def)
  have rest: "ring n ?next' primary = [] \<longleftrightarrow> ?next' = primary"
    using ring_step(1) [OF step(2) Suc(4)] ring_Nil [OF Suc(4)] by fastforce
  show ?case
    using Suc(1) [OF d step(2) Suc(4)] rest
    by (subst forward_to_connected_replica.simps)
      (auto simp: step(1) Let_def split: sum.splits)
qed

text \<open>
  C39. Forwarding ends and misses nobody. From any backup on the way, the search for a connected
  replica returns: it asks the replicas from that backup up to the primary of the view in ring order,
  each at most once and never the primary, and answers with the first that is connected, or with the
  last error when none is. A primary that starts at its neighbour has all other replicas before it.
\<close>

theorem forwarding_returns:
  assumes "next_id < n" and "primary < n" and "next_id \<noteq> primary"
  shows "forward_to_connected_replica send_to_replica n next_id primary =
      Some (first_answer send_to_replica (ring n next_id primary)) \<and>
    distinct (ring n next_id primary) \<and> primary \<notin> set (ring n next_id primary) \<and>
    (next_id = (primary + 1) mod n \<longrightarrow> set (ring n next_id primary) = {..<n} - {primary})"
proof -
  have all: "set (ring n next_id primary) = {..<n} - {primary}" if "next_id = (primary + 1) mod n"
  proof (rule card_subset_eq)
    have n: "unat primary < unat n"
      using assms(2) by (simp add: word_less_nat_alt)
    have "primary \<noteq> - 1"
      using assms(2) by (metis word_order.extremum_strict)
    then have next_id: "unat next_id = (unat primary + 1) mod unat n"
      by (simp add: that unat_mod unat_add_one)
    have "card (set (ring n next_id primary)) = ring_distance n next_id primary"
      using distinct_card [OF in_ring(1) [OF assms(1,2)]] by (simp add: length_ring)
    also have "\<dots> = unat n - 1"
      using n next_id by (auto simp: ring_distance_def mod_if)
    also have "\<dots> = card ({..<n} - {primary})"
      using assms(2) by (simp add: card_lessThan_word)
    finally show "card (set (ring n next_id primary)) = card ({..<n} - {primary})" .
    show "set (ring n next_id primary) \<subseteq> {..<n} - {primary}"
      using in_ring(2,3) [OF assms(1,2)] by auto
  qed simp
  show ?thesis
    by (intro conjI impI) (rule forward_ring [OF assms] in_ring(1,2) [OF assms(1,2)] all, assumption?)+
qed

theorem forwarding_returns_witness:
  "forward_to_connected_replica (\<lambda>r. if r = 1 then Err ConnectionClosed else Ok ()) 3 1 0 = Some (Ok ()) \<and>
   set (ring 3 1 0) = {..<3} - {0}"
proof -
  have ring: "ring 3 1 0 = [1, 2]"
    by code_simp
  from forwarding_returns [of 1 3 0 "\<lambda>r. if r = 1 then Err ConnectionClosed else Ok ()"] show ?thesis
    by (simp add: ring)
qed

end
