(* ===== verification/View_Log.thy ===== *)
theory View_Log
  imports Plane_Helpers
begin

text \<open>
  What the proof of a local log against a view's log (\<open>view_log_proof\<close> of
  \<^theory_text>\<open>Plane_Helpers\<close>) establishes about the journal.
\<close>

section \<open>The log of a view\<close>

text \<open>
  The checksum the view expects at an op: its head's at the head, and below an entry that carries the
  expected checksum the parent of that entry, whether the journal holds it or only the view's headers
  name it.
\<close>

inductive view_names ::
    "PrepareHeader list \<Rightarrow> (u64 \<Rightarrow> PrepareHeader option) \<Rightarrow> u64 \<Rightarrow> u64 \<Rightarrow> u128 \<Rightarrow> bool"
  for canonical header_at op_head
where
  at_head: "first_opt canonical = Some h \<Longrightarrow> ph_op h = op_head \<Longrightarrow> dvc_header_kind h \<noteq> Blank \<Longrightarrow>
    view_names canonical header_at op_head op_head (fr_checksum h)"
| below_entry: "view_names canonical header_at op_head op c \<Longrightarrow>
    header_at op = Some h \<or> canonical_entry canonical op = Some h \<Longrightarrow>
    fr_checksum h = c \<Longrightarrow> c \<noteq> CHECKSUM_UNSEALED \<Longrightarrow> 0 < op \<Longrightarrow>
    view_names canonical header_at op_head (op - 1) (ph_parent h)"

text \<open>A held entry agrees with the view, or differs from what the view expects there.\<close>

definition agrees_at :: "PrepareHeader list \<Rightarrow> (u64 \<Rightarrow> PrepareHeader option) \<Rightarrow> u64 \<Rightarrow> u64 \<Rightarrow> bool" where
  "agrees_at canonical header_at op_head op \<longleftrightarrow>
     (\<forall>h. header_at op = Some h \<longrightarrow>
        fr_checksum h \<noteq> CHECKSUM_UNSEALED \<and> view_names canonical header_at op_head op (fr_checksum h))"

definition differs_at :: "PrepareHeader list \<Rightarrow> (u64 \<Rightarrow> PrepareHeader option) \<Rightarrow> u64 \<Rightarrow> u64 \<Rightarrow> bool" where
  "differs_at canonical header_at op_head op \<longleftrightarrow>
     (\<exists>h c. header_at op = Some h \<and> view_names canonical header_at op_head op c \<and>
        (fr_checksum h = CHECKSUM_UNSEALED \<or> fr_checksum h \<noteq> c))"

definition proof_sound ::
    "PrepareHeader list \<Rightarrow> (u64 \<Rightarrow> PrepareHeader option) \<Rightarrow> u64 \<Rightarrow> u64 \<Rightarrow> ViewLogProof \<Rightarrow> bool" where
  "proof_sound canonical header_at op_head proven r =
     (case r of
        Proven \<Rightarrow> \<forall>o1. proven < o1 \<and> o1 \<le> op_head \<longrightarrow>
          header_at o1 \<noteq> None \<and> agrees_at canonical header_at op_head o1
      | Missing op through \<Rightarrow> proven < op \<and> op \<le> op_head \<and>
          (header_at op = None \<or>
           op = op_head \<and> through = op_head \<and> (\<nexists>c. view_names canonical header_at op_head op_head c)) \<and>
          (\<forall>o1. proven < o1 \<and> through < o1 \<and> o1 \<le> op_head \<longrightarrow> agrees_at canonical header_at op_head o1)
      | Divergent first final \<Rightarrow> proven < first \<and> first \<le> final \<and> final \<le> op_head \<and>
          (\<forall>o1. first \<le> o1 \<and> o1 \<le> final \<longrightarrow> differs_at canonical header_at op_head o1) \<and>
          (\<forall>o1. final < o1 \<and> o1 \<le> op_head \<longrightarrow> agrees_at canonical header_at op_head o1))"

lemma pred_props:
  assumes "(first :: u64) \<noteq> 0"
  shows "first - 1 < first" and "o1 \<le> first \<longleftrightarrow> o1 = first \<or> o1 \<le> first - 1"
    and "first - 1 < o1 \<longleftrightarrow> first \<le> o1"
  using unat_minus_one [OF assms] unat_gt_0 [of first] assms
  by (auto simp: word_less_nat_alt word_le_nat_alt word_unat_eq_iff)

lemma proven_walk_ge: "proven \<le> proven_walk header_at proven op parent"
proof (induction header_at proven op parent rule: proven_walk.induct)
  case (1 header_at proven op parent)
  then show ?case
    by (subst proven_walk.simps) (auto split: option.splits)
qed

lemma divergent_run_sound:
  assumes "first \<noteq> 0" and "proven < first"
    and "view_names canonical header_at op_head first expected"
    and "header_at first = Some h" and "fr_checksum h = CHECKSUM_UNSEALED \<or> fr_checksum h \<noteq> expected"
  shows "\<exists>f. divergent_run_first first expected proven canonical header_at = Some f \<and> proven < f \<and> f \<le> first \<and>
    (\<forall>o1. f \<le> o1 \<and> o1 \<le> first \<longrightarrow> differs_at canonical header_at op_head o1)"
  using assms
proof (induction first expected proven canonical header_at arbitrary: h rule: divergent_run_first.induct)
  case (1 first expected proven canonical header_at)
  have here: "differs_at canonical header_at op_head first"
    using 1(4,5,6) by (auto simp: differs_at_def)
  then have stop: "proven < first \<and> first \<le> first \<and>
      (\<forall>o1. first \<le> o1 \<and> o1 \<le> first \<longrightarrow> differs_at canonical header_at op_head o1)"
    using 1(3) by auto
  show ?case
  proof (cases "divergent_run_first first expected proven canonical header_at = Some first")
    case False
    then obtain named held where named: "first - 1 > proven" "canonical_entry canonical first = Some named"
        "fr_checksum named \<noteq> CHECKSUM_UNSEALED" "fr_checksum named = expected"
        "header_at (first - 1) = Some held"
        "fr_checksum held = CHECKSUM_UNSEALED \<or> fr_checksum held \<noteq> ph_parent named"
      using 1(2) by (subst (asm) divergent_run_first.simps) (auto split: option.splits if_splits)
    have eq: "divergent_run_first first expected proven canonical header_at =
        divergent_run_first (first - 1) (ph_parent named) proven canonical header_at"
      using named 1(2) by (subst divergent_run_first.simps) auto
    have "view_names canonical header_at op_head (first - 1) (ph_parent named)"
      using 1(2,4) named by (intro below_entry) (auto simp: word_neq_0_conv)
    moreover have "first - 1 \<noteq> 0"
      using named(1) by (rule above_nonzero)
    ultimately have "\<exists>f. divergent_run_first (first - 1) (ph_parent named) proven canonical header_at = Some f \<and>
        proven < f \<and> f \<le> first - 1 \<and>
        (\<forall>o1. f \<le> o1 \<and> o1 \<le> first - 1 \<longrightarrow> differs_at canonical header_at op_head o1)"
      using named by (intro 1(1) [OF 1(2) _ named(2) _ _ _ named(1) _ named(5,6)]) auto
    then
    obtain f where f: "divergent_run_first (first - 1) (ph_parent named) proven canonical header_at = Some f"
        "proven < f" "f \<le> first - 1" "\<forall>o1. f \<le> o1 \<and> o1 \<le> first - 1 \<longrightarrow> differs_at canonical header_at op_head o1"
      by auto
    have "f \<le> first"
      using f(3) pred_props(1) [OF 1(2)] by (rule order_trans [OF _ less_imp_le])
    moreover have "\<forall>o1. f \<le> o1 \<and> o1 \<le> first \<longrightarrow> differs_at canonical header_at op_head o1"
      using f(4) here unfolding pred_props(2) [OF 1(2)] by blast
    ultimately show ?thesis
      using eq f(1,2) by simp
  qed (use stop in blast)
qed

lemma proof_walk_sound:
  assumes "op \<le> op_head"
    and "proven < op \<Longrightarrow> view_names canonical header_at op_head op expected"
    and "\<forall>o1. op < o1 \<and> o1 \<le> op_head \<longrightarrow> agrees_at canonical header_at op_head o1"
    and "case missing of
        None \<Rightarrow> \<forall>o1. op < o1 \<and> o1 \<le> op_head \<longrightarrow> header_at o1 \<noteq> None
      | Some m \<Rightarrow> proven < m \<and> m \<le> op_head \<and> header_at m = None"
  shows "\<exists>r. proof_walk canonical header_at proven op expected missing = Some r \<and>
    proof_sound canonical header_at op_head proven r"
  using assms
proof (induction canonical header_at proven op expected missing rule: proof_walk.induct)
  case (1 canonical header_at proven op expected missing)
  show ?case
  proof (cases "proven < op")
    case False
    then have "proven < o1 \<Longrightarrow> op < o1" for o1
      by auto
    with False 1(5,6) show ?thesis
      by (subst proof_walk.simps) (auto simp: proof_sound_def split: option.splits)
  next
    case True
    note names = 1(4) [OF True]
    have nz: "op \<noteq> 0"
      using True by auto
    note pred = pred_props [OF nz]
    have less: "op - 1 \<le> op_head"
      using pred(1) 1(3) by auto
    have above: "\<forall>o1. op - 1 < o1 \<and> o1 \<le> op_head \<longrightarrow> agrees_at canonical header_at op_head o1"
      if "agrees_at canonical header_at op_head op"
      using 1(5) that unfolding pred(3) by (metis order_le_imp_less_or_eq)
    have down: "view_names canonical header_at op_head (op - 1) (ph_parent h)"
      if "header_at op = Some h \<or> canonical_entry canonical op = Some h" "fr_checksum h = expected"
        "fr_checksum h \<noteq> CHECKSUM_UNSEALED" for h
      using that names nz by (intro below_entry) (auto simp: word_neq_0_conv)
    show ?thesis
    proof (cases "header_at op")
      case (Some h)
      show ?thesis
      proof (cases "fr_checksum h = CHECKSUM_UNSEALED \<or> fr_checksum h \<noteq> expected")
        case True
        from divergent_run_sound [OF nz \<open>proven < op\<close> names Some True] 1(3,5) show ?thesis
          using \<open>proven < op\<close> Some True by (subst proof_walk.simps) (auto simp: proof_sound_def)
      next
        case False
        have agree: "agrees_at canonical header_at op_head op"
          using False Some names by (auto simp: agrees_at_def)
        have held: "case missing of
            None \<Rightarrow> \<forall>o1. op - 1 < o1 \<and> o1 \<le> op_head \<longrightarrow> header_at o1 \<noteq> None
          | Some m \<Rightarrow> proven < m \<and> m \<le> op_head \<and> header_at m = None"
          using 1(6) Some unfolding pred(3)
          by (auto split: option.splits) (metis option.distinct(1) order_le_imp_less_or_eq)
        have "\<not> \<not> proven < op" "\<not> (fr_checksum h = CHECKSUM_UNSEALED \<or> fr_checksum h \<noteq> expected)"
          using \<open>proven < op\<close> False by auto
        from 1(2) [OF this(1) Some this(2) less _ above [OF agree] held] show ?thesis
          using \<open>proven < op\<close> Some False down by (subst proof_walk.simps) auto
      qed
    next
      case None
      have agree: "agrees_at canonical header_at op_head op"
        using None by (simp add: agrees_at_def)
      show ?thesis
      proof (cases "\<exists>h. canonical_entry canonical op = Some h \<and> fr_checksum h \<noteq> CHECKSUM_UNSEALED \<and>
          fr_checksum h = expected")
        case True
        then obtain h where h: "canonical_entry canonical op = Some h" "fr_checksum h \<noteq> CHECKSUM_UNSEALED"
            "fr_checksum h = expected"
          by blast
        have held: "case Some op of
            None \<Rightarrow> \<forall>o1. op - 1 < o1 \<and> o1 \<le> op_head \<longrightarrow> header_at o1 \<noteq> None
          | Some m \<Rightarrow> proven < m \<and> m \<le> op_head \<and> header_at m = None"
          using None 1(3) \<open>proven < op\<close> by simp
        have "\<not> \<not> proven < op" "fr_checksum h \<noteq> CHECKSUM_UNSEALED \<and> fr_checksum h = expected"
          using \<open>proven < op\<close> h by auto
        from 1(1) [OF this(1) None h(1) this(2) less _ above [OF agree] held] h show ?thesis
          using \<open>proven < op\<close> None down by (subst proof_walk.simps) auto
      next
        case False
        then have "proof_walk canonical header_at proven op expected missing = Some (Missing op op)"
          using \<open>proven < op\<close> None by (subst proof_walk.simps) (auto split: option.splits)
        then show ?thesis
          using None 1(3,5) \<open>proven < op\<close> by (simp add: proof_sound_def)
      qed
    qed
  qed
qed

lemma view_log_proof_returns:
  "\<exists>r. view_log_proof commit_floor canonical op_head header_at = Some r \<and>
     proof_sound canonical header_at op_head (locally_proven_commit commit_floor header_at) r"
proof -
  let ?proven = "locally_proven_commit commit_floor header_at"
  have fetch: "proof_sound canonical header_at op_head ?proven (Missing op_head op_head)"
    if "?proven < op_head" "\<nexists>c. view_names canonical header_at op_head op_head c"
    using that by (auto simp: proof_sound_def)
  have named: "\<exists>h. first_opt canonical = Some h \<and> ph_op h = op_head \<and> dvc_header_kind h \<noteq> Blank"
    if "view_names canonical header_at op_head op c" for op c
    using that by induction auto
  show ?thesis
  proof (cases "\<exists>h. first_opt canonical = Some h \<and> ph_op h = op_head \<and> dvc_header_kind h \<noteq> Blank")
    case True
    then obtain h where h: "first_opt canonical = Some h" "ph_op h = op_head" "dvc_header_kind h \<noteq> Blank"
      by blast
    have "\<exists>r. proof_walk canonical header_at ?proven op_head (fr_checksum h) None = Some r \<and>
        proof_sound canonical header_at op_head ?proven r"
      using h by (intro proof_walk_sound) (auto intro: at_head)
    with h show ?thesis
      by (auto simp: view_log_proof_def Let_def proof_sound_def)
  next
    case False
    with named fetch show ?thesis
      by (cases "op_head \<le> ?proven")
        (auto simp: view_log_proof_def Let_def proof_sound_def split: option.splits)
  qed
qed


end
