(* ===== verification/Vsr_Inv.thy ===== *)
theory Vsr_Inv
  imports Plane_Helpers Dvc_Safety
begin

text \<open>
  The invariant of a running replica and its preservation by every operation and handler, together
  with the numbers that never go down: the view, the view of the log, and both commit points.
\<close>

section \<open>The invariant\<close>

definition acks_ok :: "u8 \<Rightarrow> PipelineEntry \<Rightarrow> bool" where
  "acks_ok n e \<longleftrightarrow>
     pe_ok_from_replicas e \<subseteq> {..<unat n} \<and>
     (pe_ok_quorum_received e \<longrightarrow> quorum_replication n \<le> card (pe_ok_from_replicas e))"

definition queues_ok :: "u8 \<Rightarrow> LocalPipeline \<Rightarrow> bool" where
  "queues_ok n p \<longleftrightarrow>
     pipeline_verify p \<and> lp_prepare_queue_max p < DVC_HEADERS_MAX \<and> (\<forall>e \<in> set (lp_prepare_queue p). acks_ok n e)"

text \<open>The claims a replica may vote with are not newer than the log it installed; an adopted view is that log.\<close>

definition claims_ok :: "'g VsrConsensus \<Rightarrow> bool" where
  "claims_ok s \<longleftrightarrow>
     vc_log_view s \<le> vc_view s \<and> vc_log_view_proven s \<le> vc_log_view s \<and> certified_view s \<le> vc_log_view s \<and>
     (case vc_adopted_view s of None \<Rightarrow> True | Some a \<Rightarrow> av_view a = vc_log_view s)"

text \<open>
  The votes: each in its own slot and from a member of the group; outside a view change only the
  replica's own; a decided merge is parked only in a view change that this replica leads.
\<close>

definition votes_ok :: "'g VsrConsensus \<Rightarrow> bool" where
  "votes_ok s \<longleftrightarrow>
     array_wf (unat (vc_replica_count s)) (vc_do_view_change_from_all_replicas s) \<and>
     (vc_status s \<noteq> ViewChange \<longrightarrow>
        (\<forall>d \<in> set (dvc_iter (vc_do_view_change_from_all_replicas s)). sd_replica d = vc_replica s)) \<and>
     (is_primary_elect s \<longrightarrow> vc_status s = ViewChange \<and> is_primary s)"

definition replica_inv :: "'g VsrConsensus \<Rightarrow> bool" where
  "replica_inv s \<longleftrightarrow>
     vc_replica s < vc_replica_count s \<and> unat (vc_replica_count s) \<le> REPLICAS_MAX \<and>
     vc_commit_min s \<le> vc_commit_max s \<and> claims_ok s \<and> votes_ok s \<and>
     queues_ok (vc_replica_count s) (vc_pipeline s)"

text \<open>A step keeps the invariant and the identity of the replica, and no number goes down.\<close>

definition good :: "'g VsrConsensus \<Rightarrow> 'g VsrConsensus \<Rightarrow> bool" where
  "good s s' \<longleftrightarrow>
     replica_inv s' \<and> vc_replica s' = vc_replica s \<and> vc_replica_count s' = vc_replica_count s \<and>
     vc_view s \<le> vc_view s' \<and> vc_log_view s \<le> vc_log_view s' \<and>
     vc_commit_min s \<le> vc_commit_min s' \<and> vc_commit_max s \<le> vc_commit_max s'"

lemma good_refl: "replica_inv s \<Longrightarrow> good s s"
  by (simp add: good_def)

lemma good_trans [trans]: "good s t \<Longrightarrow> good t u \<Longrightarrow> good s u"
  by (auto simp: good_def)

lemma goodD: "good s t \<Longrightarrow> replica_inv t"
  by (simp add: good_def)

text \<open>The part of a state that the invariant reads; a step that keeps it is a good one.\<close>

definition footprint :: "'g VsrConsensus \<Rightarrow> _" where
  "footprint s =
     (vc_replica s, vc_replica_count s, vc_view s, vc_log_view s, vc_status s, vc_commit_min s, vc_commit_max s,
      vc_log_view_proven s, certified_view s, vc_adopted_view s, vc_do_view_change_from_all_replicas s,
      is_primary_elect s, vc_pipeline s)"

lemma footprint_good:
  assumes "replica_inv s" and "footprint s' = footprint s"
  shows "good s s'"
  using assms
  by (simp add: good_def replica_inv_def claims_ok_def votes_ok_def footprint_def is_primary_def primary_index_def
    split: option.splits)

lemma good_footprint: "good s t \<Longrightarrow> footprint u = footprint t \<Longrightarrow> good s u"
  using footprint_good [of t u] good_trans goodD by blast

section \<open>Queues\<close>

lemma queues_ok_clear: "queues_ok n p \<Longrightarrow> queues_ok n (pipeline_clear p)"
  by (simp add: queues_ok_def) (simp add: pipeline_clear_def)

lemma linked_map:
  assumes "\<And>e. pe_header (f e) = pe_header e"
  shows "linked (map f es) = linked es"
  by (simp add: successively_map follows_def assms)

lemma queues_ok_cancel: "queues_ok n p \<Longrightarrow> queues_ok n (cancel_all_subscribers p)"
  by (auto simp: queues_ok_def cancel_all_subscribers_def pipeline_verify_linked linked_map take_reply_sender_def
    acks_ok_def)

lemma queues_ok_requests:
  "queues_ok n p \<Longrightarrow> length q \<le> lp_request_queue_max p \<Longrightarrow> queues_ok n (p\<lparr>lp_request_queue := q\<rparr>)"
  by (simp add: queues_ok_def pipeline_verify_linked)

lemma queues_ok_clear_requests: "queues_ok n p \<Longrightarrow> queues_ok n (clear_request_queue p)"
  by (simp add: clear_request_queue_def queues_ok_requests)

lemma queues_ok_push:
  "queues_ok n p \<Longrightarrow> push_prepare e p = Some p' \<Longrightarrow> acks_ok n e \<Longrightarrow> queues_ok n p'"
  using local_pipeline.push_verify [of p e p'] by (auto simp: queues_ok_def push_prepare_eq)

lemma queues_ok_pop: "queues_ok n p \<Longrightarrow> queues_ok n (snd (pop_message p))"
  using local_pipeline.pop_verify [of p]
  by (auto simp: queues_ok_def pop_message_def pop_front_def split: list.splits)

lemma queues_ok_remove:
  assumes "queues_ok n p" and "remove_prepare_tail op c p = (x, p')"
  shows "queues_ok n p'"
proof (cases x)
  case (Some e)
  then have p': "p' = p\<lparr>lp_prepare_queue := butlast (lp_prepare_queue p)\<rparr>"
    using assms(2) by (auto simp: remove_prepare_tail_def split: option.splits if_splits)
  have "lp_prepare_queue p = butlast (lp_prepare_queue p) @ [e]"
    using local_pipeline.remove_entries [OF assms(2) [unfolded Some]] p' by simp
  then have "linked (butlast (lp_prepare_queue p))"
    using assms(1) by (metis linked_snoc pipeline_verify_linked queues_ok_def)
  then show ?thesis
    using assms(1) by (auto simp: queues_ok_def pipeline_verify_linked p' dest: in_set_butlastD)
qed (use assms in \<open>auto simp: remove_prepare_tail_def split: option.splits if_splits\<close>)

lemma linked_update:
  assumes "linked es" and "i < length es" and "pe_header e = pe_header (es ! i)"
  shows "linked (es[i := e])"
  using assms by (auto simp: successively_conv_nth follows_def nth_list_update)

section \<open>Votes\<close>

lemma array_wf_empty: "array_wf n dvc_quorum_array_empty"
  by (simp add: array_wf_def dvc_quorum_array_empty_def)

lemma dvc_iter_empty [simp]: "dvc_iter dvc_quorum_array_empty = []"
  by (simp add: dvc_quorum_array_empty_def dvc_iter_def map_filter_def)

lemma array_wf_record:
  assumes "array_wf n q" and "dvc_record q d = Some (q', fresh)" and "unat (sd_replica d) < n"
  shows "array_wf n q'" and "set (dvc_iter q') \<subseteq> insert d (set (dvc_iter q))"
proof -
  have q': "q' = q \<or> unat (sd_replica d) < length q \<and> q' = q[unat (sd_replica d) := Some d]"
    using assms(2) by (auto simp: dvc_record_def get_at_def split: option.splits if_splits)
  then show "array_wf n q'"
    using assms(1,3) by (auto simp: array_wf_def nth_list_update split: option.splits if_splits)
  show "set (dvc_iter q') \<subseteq> insert d (set (dvc_iter q))"
    using q' set_update_subset_insert [of q "unat (sd_replica d)" "Some d"] by (auto simp: in_dvc_iter)
qed

section \<open>Operations outside the invariant\<close>

lemmas footprint_defs = footprint_def certified_view_def is_primary_elect_def view_log_is_pending_def

lemma timer_footprint [simp]:
  "footprint (start_timeout k s) = footprint s" "footprint (stop_timeout k s) = footprint s"
  "footprint (reset_timeout k s) = footprint s" "footprint (s\<lparr>vc_timeouts := m\<rparr>) = footprint s"
  by (simp_all add: footprint_defs start_timeout_def stop_timeout_def reset_timeout_def)

lemma note_footprint [simp]:
  "footprint (observe_prepare_timestamp t s) = footprint s"
  "footprint (snd (next_monotonic_timestamp now s)) = footprint s"
  "footprint (invalidate_local_dvc_suffix s) = footprint s"
  "footprint (set_local_dvc_suffix suffix s) = footprint s"
  "footprint (note_journal_mutation s) = footprint s"
  "footprint (mark_superblock_durable v lv s) = footprint s"
  "footprint (mark_adopted_view_durable written s) = footprint s"
  "footprint (mark_history_certificate_durable cert s) = footprint s"
  "footprint (observe_newer_view v s) = footprint s"
  "footprint (observe_primary v r s) = footprint s"
  "footprint (forget_primary r s) = footprint s"
  "footprint (redecide_recovery_barrier h s) = footprint s"
  "footprint (finish_view_probe s) = footprint s"
  "footprint (note_uncertified_merge s) = footprint s"
  by (simp_all add: footprint_defs observe_prepare_timestamp_def next_monotonic_timestamp_def
    invalidate_local_dvc_suffix_def set_local_dvc_suffix_def local_dvc_suffix_tag_def note_journal_mutation_def
    mark_superblock_durable_def mark_adopted_view_durable_def mark_history_certificate_durable_def
    observe_newer_view_def observe_primary_def forget_primary_def redecide_recovery_barrier_def
    finish_view_probe_def stop_timeout_def note_uncertified_merge_def Let_def)

lemma ack_footprint [simp]:
  "footprint (note_backup_ack r op s) = footprint s"
  "footprint (handle_late_prepare_ok header s) = footprint s"
  "footprint (request_eager_commit s) = footprint s"
  "footprint (warn_untrusted_halt s) = footprint s"
  "footprint (snd (commit_message target commit s)) = footprint s"
  "footprint (snd (drain_loopback_into buf s)) = footprint s"
  "footprint (snd (take_applied_log_contradictions s)) = footprint s"
  by (simp_all add: footprint_defs note_backup_ack_def handle_late_prepare_ok_def request_eager_commit_def
    warn_untrusted_halt_def commit_message_def drain_loopback_into_def take_applied_log_contradictions_def Let_def)

lemma owed_footprint [simp]: "footprint (snd (owed_commits c rs s)) = footprint s"
proof (induction c rs s rule: owed_commits.induct)
  case (2 commit_min r rs s)
  have eq: "footprint (s\<lparr>vc_commit_announcements := a\<rparr>) = footprint s" for a
    by (simp add: footprint_defs)
  show ?case
    using 2 by (auto simp: commit_message_def Let_def footprint_defs split: option.splits prod.splits)
qed simp

lemma eager_footprint [simp]: "footprint (snd (eager_commit_actions s)) = footprint s"
  by (simp add: eager_commit_actions_def)

lemma heartbeat_footprint [simp]: "footprint (snd (commit_heartbeat s)) = footprint s"
  by (simp add: commit_heartbeat_def commit_message_def footprint_defs Let_def)

lemma repaired_footprint [simp]: "footprint (note_repaired_view_header h e s) = footprint s"
  by (auto simp: note_repaired_view_header_def footprint_defs invalidate_local_dvc_suffix_def Let_def
    split: option.splits)

lemma loopback_footprint: "push_loopback m s = Some s' \<Longrightarrow> footprint s' = footprint s"
  by (auto simp: push_loopback_def footprint_defs bind_eq_Some_conv)

lemma transfer_footprint: "set_state_transfer_stage stage s = Some s' \<Longrightarrow> footprint s' = footprint s"
  by (auto simp: set_state_transfer_stage_def footprint_defs bind_eq_Some_conv)

section \<open>Commit points and proofs\<close>

lemmas inv_defs = good_def replica_inv_def claims_ok_def votes_ok_def is_primary_elect_def view_log_is_pending_def
  certified_view_def is_primary_def primary_index_def

lemma assert_that_eq [simp]: "assert_that b = Some u \<longleftrightarrow> b"
  by (simp add: assert_that_def)

lemma advance_commit_max_eq:
  "advance_commit_max c s = Some s' \<longleftrightarrow>
     vc_commit_min s \<le> max c (vc_commit_max s) \<and>
     s' = (if c > vc_commit_max s
           then (if vc_sequencer s > c then start_timeout Prepare (s\<lparr>vc_commit_max := c\<rparr>) else s\<lparr>vc_commit_max := c\<rparr>)
           else s)"
  by (auto simp: advance_commit_max_def Let_def start_timeout_def max_def bind_eq_Some_conv)

lemma advance_commit_max_good:
  assumes "replica_inv s" and "advance_commit_max c s = Some s'"
  shows "good s s'"
  using assms by (auto simp: advance_commit_max_eq inv_defs start_timeout_def split: option.splits)

lemma advance_commit_max_total: "vc_commit_min s \<le> vc_commit_max s \<Longrightarrow> \<exists>s'. advance_commit_max c s = Some s'"
  by (auto simp: advance_commit_max_eq le_max_iff_disj)

lemma advance_commit_min_good:
  assumes "replica_inv s" and "advance_commit_min op s = Some s'" and "vc_commit_min s \<noteq> - 1"
  shows "good s s'"
proof -
  have "vc_commit_min s \<le> vc_commit_min s + 1"
    using unat_add_one [OF assms(3)] by (simp add: word_le_nat_alt)
  moreover have "s' = s\<lparr>vc_commit_min := vc_commit_min s + 1\<rparr>" "vc_commit_min s + 1 \<le> vc_commit_max s"
    using assms(2) by (auto simp: advance_commit_min_def bind_eq_Some_conv)
  ultimately show ?thesis
    using assms(1) by (simp add: inv_defs split: option.splits)
qed

lemma set_commit_floor_good:
  assumes "replica_inv s" and "set_commit_floor fl s = Some s'" and "fl \<le> vc_commit_max s"
  shows "good s s'"
proof -
  let ?t = "s\<lparr>vc_commit_min := fl\<rparr>"
  have fl: "vc_commit_min s \<le> fl"
    and s': "s' = ?t \<or> s' = invalidate_local_dvc_suffix (?t\<lparr>vc_view_log_missing_op := None, vc_view_log_unproven_through := - 1\<rparr>)"
    using assms(2) by (auto simp: set_commit_floor_def bind_eq_Some_conv Let_def split: if_splits)
  have "footprint s' = footprint ?t"
    using s' by (elim disjE) (simp_all add: footprint_defs invalidate_local_dvc_suffix_def)
  moreover have "good s ?t"
    using assms(1,3) fl by (simp add: inv_defs split: option.splits)
  ultimately show ?thesis
    by (rule good_footprint [rotated])
qed

lemma settle_good: "replica_inv s \<Longrightarrow> good s (settle_view_log_proof s)"
  by (simp add: settle_view_log_proof_def inv_defs invalidate_local_dvc_suffix_def Let_def split: option.splits)

lemma fence_good: "replica_inv s \<Longrightarrow> good s (fence_view_log op t s)"
  by (simp add: fence_view_log_def mark_view_log_unproven_def inv_defs invalidate_local_dvc_suffix_def Let_def
    split: option.splits)

lemma reopen_good: "replica_inv s \<Longrightarrow> good s (reopen_view_log_proof s)"
  by (simp add: reopen_view_log_proof_def mark_view_log_unproven_def inv_defs Let_def split: option.splits)

lemma certify_good: "replica_inv s \<Longrightarrow> good s (certify_view_log op c s)"
  by (simp add: certify_view_log_def inv_defs certificate_new_def split: option.splits)

lemma extend_good: "replica_inv s \<Longrightarrow> good s (extend_history_certificate op c s)"
  by (auto simp: extend_history_certificate_def inv_defs certificate_new_def split: option.splits)

lemma lower_good: "replica_inv s \<Longrightarrow> good s (lower_history_certificate f op c s)"
  by (auto simp: lower_history_certificate_def inv_defs certificate_new_def split: option.splits)

section \<open>The pipeline\<close>

lemma pipeline_good:
  assumes "replica_inv s" and "queues_ok (vc_replica_count s) p"
  shows "good s (s\<lparr>vc_pipeline := p\<rparr>)"
  using assms by (auto simp: inv_defs split: option.splits)


lemma sync_footprint [simp]: "footprint (sync_prepare_timeout s) = footprint s"
  by (simp add: sync_prepare_timeout_def)

lemma pipeline_footprint:
  assumes "replica_inv s" and "queues_ok (vc_replica_count s) p"
    and "footprint s' = footprint (s\<lparr>vc_pipeline := p\<rparr>)"
  shows "good s s'"
  using pipeline_good [OF assms(1,2)] assms(3) by (rule good_footprint)

lemma fresh_acks: "acks_ok n ((pipeline_entry h)\<lparr>pe_local_order := ord\<rparr>)"
    "acks_ok n ((entry_with_sender h ch)\<lparr>pe_local_order := ord\<rparr>)" "acks_ok n (pipeline_entry h)"
  by (simp_all add: acks_ok_def pipeline_entry_def entry_with_sender_def)

lemma replica_inv_queues: "replica_inv s \<Longrightarrow> queues_ok (vc_replica_count s) (vc_pipeline s)"
  by (simp add: replica_inv_def)

lemma push_prepare_entry_good:
  assumes "replica_inv s" and "push_prepare_entry header e s = Some s'" and "acks_ok (vc_replica_count s) e"
  shows "good s s'"
proof -
  obtain p where p: "push_prepare e (vc_pipeline s) = Some p"
    using assms(2) by (auto simp: push_prepare_entry_def bind_eq_Some_conv)
  have "footprint s' = footprint (s\<lparr>vc_pipeline := p, vc_sequencer := ph_op header,
      vc_last_prepare_checksum := fr_checksum header\<rparr>)"
    using assms(2) p by (auto simp: push_prepare_entry_def bind_eq_Some_conv Let_def)
  also have "\<dots> = footprint (s\<lparr>vc_pipeline := p\<rparr>)"
    by (simp add: footprint_defs)
  finally have "footprint s' = footprint (s\<lparr>vc_pipeline := p\<rparr>)" .
  with queues_ok_push [OF replica_inv_queues [OF assms(1)] p assms(3)] show ?thesis
    by (rule pipeline_footprint [OF assms(1)])
qed

lemma pipeline_message_good:
  "replica_inv s \<Longrightarrow> pipeline_message_with_order header sender ord s = Some s' \<Longrightarrow> good s s'"
  by (cases sender) (auto simp: pipeline_message_with_order_def fresh_acks intro: push_prepare_entry_good)

lemma prepare_common_good:
  "replica_inv s \<Longrightarrow> pipeline_prepare_common header s = Some s' \<Longrightarrow> good s s'"
  by (auto simp: pipeline_prepare_common_def bind_eq_Some_conv fresh_acks intro: push_prepare_entry_good)

lemma rollback_good:
  assumes "replica_inv s"
  shows "good s (snd (rollback_pipelined_prepare header s))"
proof (cases "fst (rollback_pipelined_prepare header s) = Unwound")
  case True
  obtain x p where p: "remove_prepare_tail (ph_op header) (fr_checksum header) (vc_pipeline s) = (x, p)"
    by fastforce
  have "footprint (snd (rollback_pipelined_prepare header s)) =
      footprint (s\<lparr>vc_pipeline := p, vc_sequencer := saturating_sub (ph_op header) 1,
        vc_last_prepare_checksum := ph_parent header\<rparr>)"
    using True p by (auto simp: rollback_pipelined_prepare_def split: if_splits option.splits)
  also have "\<dots> = footprint (s\<lparr>vc_pipeline := p\<rparr>)"
    by (simp add: footprint_defs)
  finally have "footprint (snd (rollback_pipelined_prepare header s)) = footprint (s\<lparr>vc_pipeline := p\<rparr>)" .
  with queues_ok_remove [OF replica_inv_queues [OF assms] p] show ?thesis
    by (rule pipeline_footprint [OF assms])
next
  case False
  then have "snd (rollback_pipelined_prepare header s) = s"
    by (auto simp: rollback_pipelined_prepare_def split: if_splits option.splits prod.splits)
  then show ?thesis
    using assms by (simp add: good_refl)
qed

lemma pop_good:
  assumes "replica_inv s"
  shows "good s (snd (pop_committed_prepare s))"
proof (rule pipeline_footprint [OF assms queues_ok_pop [OF replica_inv_queues [OF assms]]])
  show "footprint (snd (pop_committed_prepare s)) = footprint (s\<lparr>vc_pipeline := snd (pop_message (vc_pipeline s))\<rparr>)"
    by (simp add: pop_committed_prepare_def split_beta Let_def)
qed

lemma clear_good:
  assumes "replica_inv s"
  shows "good s (clear_pipeline s)"
  by (rule pipeline_footprint [OF assms queues_ok_clear [OF replica_inv_queues [OF assms]]])
    (simp add: clear_pipeline_def)

lemma enqueue_good:
  assumes "replica_inv s" and "push_queued_request now e s = Ok s'"
  shows "good s s'"
proof -
  obtain p where p: "push_request (e\<lparr>re_received_at := now\<rparr>) (vc_pipeline s) = Ok p" "s' = s\<lparr>vc_pipeline := p\<rparr>"
    using assms(2) by (auto simp: push_queued_request_def rbind_eq_Ok)
  then have "queues_ok (vc_replica_count s) p"
    using replica_inv_queues [OF assms(1)]
    by (auto simp: push_request_def request_queue_full_def queues_ok_requests split: if_splits)
  then show ?thesis
    unfolding p(2) by (rule pipeline_good [OF assms(1)])
qed

section \<open>Acknowledgements\<close>

lemma handle_prepare_ok_good:
  assumes "replica_inv s" and "handle_prepare_ok header s = Some (outcome, s')"
  shows "good s s'"
proof (cases outcome)
  case (AckIgnored reason)
  then have "s' = s"
    using assms(2) by (auto simp: handle_prepare_ok_def bind_eq_Some_conv Let_def add_ack_def
      split: if_splits option.splits prod.splits)
  then show ?thesis
    using assms(1) by (simp add: good_refl)
next
  case (AckAccepted acks reached)
  let ?p = "vc_pipeline s" and ?n = "vc_replica_count s"
  obtain i where i: "message_by_op_mut ?p (po_op header) = Some i" and r: "fr_replica header < ?n"
    using assms(2) AckAccepted by (auto simp: handle_prepare_ok_def bind_eq_Some_conv split: if_splits option.splits)
  define e where "e = lp_prepare_queue ?p ! i"
  define e' where "e' = fst (add_ack (fr_replica header) e)"
  define e'' where "e'' = (if reached then e'\<lparr>pe_ok_quorum_received := True\<rparr> else e')"
  let ?q = "?p\<lparr>lp_prepare_queue := (lp_prepare_queue ?p)[i := e'']\<rparr>"
  have s': "s' = note_backup_ack (fr_replica header) (po_op header) (s\<lparr>vc_pipeline := ?q\<rparr>)"
    and reached: "reached \<longleftrightarrow> quorum_replication ?n \<le> card (pe_ok_from_replicas e') \<and> \<not> pe_ok_quorum_received e'"
    using assms(2) i AckAccepted
    by (auto simp: handle_prepare_ok_def bind_eq_Some_conv Let_def add_ack_def e_def e'_def e''_def split: if_splits)
  have len: "i < length (lp_prepare_queue ?p)"
    using i by (simp add: message_by_op_mut_eq)
  have q: "queues_ok ?n ?p"
    by (rule replica_inv_queues [OF assms(1)])
  have e: "acks_ok ?n e"
    using q len by (simp add: queues_ok_def e_def)
  have "acks_ok ?n e''"
    using e r reached card_insert_le [of "pe_ok_from_replicas e" "unat (fr_replica header)"]
    by (auto simp: acks_ok_def e''_def e'_def add_ack_def word_less_nat_alt Let_def)
  moreover have "pe_header e'' = pe_header e"
    by (simp add: e''_def e'_def add_ack_def Let_def)
  ultimately have "queues_ok ?n ?q"
    using q linked_update [OF _ len, of e''] set_update_subset_insert [of "lp_prepare_queue ?p" i e'']
    by (auto simp: queues_ok_def pipeline_verify_linked e_def)
  then show ?thesis
    by (rule pipeline_footprint [OF assms(1)]) (simp add: s')
qed

lemma ack_quorum_good:
  assumes "replica_inv s" and "ack_quorum_reached ack s = Some (b, s')"
  shows "good s s'"
proof -
  obtain outcome t where t: "handle_prepare_ok ack s = Some (outcome, t)"
    using assms(2) by (auto simp: ack_quorum_reached_def bind_eq_Some_conv)
  have "good s t"
    by (rule handle_prepare_ok_good [OF assms(1) t])
  moreover have "good t s'"
    using assms(2) t goodD [OF calculation]
    by (auto simp: ack_quorum_reached_def bind_eq_Some_conv good_refl advance_commit_max_good split: if_splits)
  ultimately show ?thesis
    by (rule good_trans)
qed

lemma preflight_good:
  assumes "replica_inv s" and "replicate_preflight header s = Some (r, s')"
  shows "good s s'"
  using assms footprint_good [OF assms(1) note_footprint(9)]
  by (auto simp: replicate_preflight_def bind_eq_Some_conv good_refl advance_commit_max_good split: if_splits)

lemma send_prepare_ok_good:
  assumes "replica_inv s" and "send_prepare_ok xxh3 header persisted s = Some (s', sent)"
  shows "good s s'"
  using assms footprint_good [OF assms(1)] loopback_footprint
  by (auto simp: send_prepare_ok_def send_or_loopback_def bind_eq_Some_conv good_refl split: if_splits)

section \<open>View changes\<close>

lemma reset_good:
  assumes "replica_inv s" and "vc_view s \<le> v"
  shows "good s (reset_view_change_state (s\<lparr>vc_view := v, vc_status := st\<rparr>))"
proof -
  have "queues_ok (vc_replica_count s) (clear_request_queue (cancel_all_subscribers (vc_pipeline s)))"
    using replica_inv_queues [OF assms(1)] by (intro queues_ok_clear_requests queues_ok_cancel)
  moreover have "vc_log_view s \<le> v"
    using assms by (auto simp: replica_inv_def claims_ok_def)
  ultimately show ?thesis
    using assms by (simp add: reset_view_change_state_def reset_dvc_quorum_def dvc_reset_def inv_defs array_wf_empty
      Let_def split: option.splits)
qed

lemma unprove_good: "replica_inv s \<Longrightarrow> good s (unprove_superseded_merge s)"
proof -
  assume inv: "replica_inv s"
  have "good s (s\<lparr>vc_view_log_merged := False\<rparr>)"
    using inv by (rule footprint_good) (simp add: footprint_defs)
  from good_trans [OF this reopen_good [OF goodD [OF this]]] inv show ?thesis
    by (simp add: unprove_superseded_merge_def good_refl)
qed

lemma enter_view_change_good:
  assumes "replica_inv s" and "vc_view s \<le> v"
  shows "good s (snd (enter_view_change v s))"
proof -
  let ?t = "reset_view_change_state (s\<lparr>vc_view := v, vc_status := ViewChange\<rparr>)"
  have "good s ?t"
    by (rule reset_good [OF assms])
  also have "good ?t (unprove_superseded_merge ?t)"
    by (rule unprove_good [OF goodD [OF \<open>good s ?t\<close>]])
  finally show ?thesis
    by (rule good_footprint) (simp add: enter_view_change_def Let_def, simp add: footprint_defs)
qed

text \<open>Room for \<open>k\<close> more views before the counter wraps.\<close>

definition view_room :: "nat \<Rightarrow> 'g VsrConsensus \<Rightarrow> bool" where
  "view_room k s \<longleftrightarrow> unat (vc_view s) + k < 2 ^ 32"

lemma view_succ:
  fixes s t :: "'g VsrConsensus"
  assumes "view_room (Suc k) s"
  shows "vc_view s \<le> vc_view s + 1" and "vc_view t = vc_view s + 1 \<Longrightarrow> view_room k t"
proof -
  have "vc_view s \<noteq> - 1"
    using assms by (auto simp: view_room_def unat_max_word)
  from unat_add_one [OF this] assms show "vc_view s \<le> vc_view s + 1"
    "vc_view t = vc_view s + 1 \<Longrightarrow> view_room k t"
    by (simp_all add: word_le_nat_alt view_room_def)
qed

lemma view_room_mono: "view_room k s \<Longrightarrow> j \<le> k \<Longrightarrow> vc_view t = vc_view s \<Longrightarrow> view_room j t"
  by (simp add: view_room_def)

lemma view_enter [simp]: "vc_view (snd (enter_view_change v s)) = v"
  by (simp add: enter_view_change_def reset_view_change_state_def reset_dvc_quorum_def unprove_superseded_merge_def
    reopen_view_log_proof_def mark_view_log_unproven_def start_timeout_def stop_timeout_def Let_def)

text \<open>At most one election: the state is good and the view stays or goes up by one.\<close>

definition one_view :: "nat \<Rightarrow> 'g VsrConsensus \<Rightarrow> 'g VsrConsensus \<Rightarrow> bool" where
  "one_view k s s' \<longleftrightarrow> good s s' \<and> view_room k s'"

lemma start_election_good:
  assumes "replica_inv s" and "view_room (Suc k) s"
  shows "one_view k s (snd (start_election s))"
  using enter_view_change_good [OF assms(1) view_succ(1) [OF assms(2)]]
    view_succ(2) [OF assms(2), of "snd (enter_view_change (vc_view s + 1) s)"]
  by (simp add: start_election_def one_view_def)

lemma same_view:
  assumes "good s s'" and "view_room (Suc k) s" and "vc_view s' = vc_view s"
  shows "one_view k s s'"
  using assms view_room_mono [of "Suc k" s k s'] by (simp add: one_view_def)

lemma primary_transfer_good:
  assumes "replica_inv s"
  shows "good s (snd (request_primary_transfer expected target s))"
  using assms by (auto simp: request_primary_transfer_def Let_def checked_add_def good_refl enter_view_change_good)

lemma probe_good:
  assumes "replica_inv s" and "vc_status s \<noteq> ViewChange"
  shows "good s (begin_view_probe s)"
proof (rule good_footprint)
  show "good s (s\<lparr>vc_status := Recovering, vc_probe_attempts := 0\<rparr>)"
    using assms by (simp add: inv_defs split: option.splits)
qed (simp add: begin_view_probe_def)

section \<open>Timers\<close>

lemma footprint_view: "footprint s' = footprint s \<Longrightarrow> vc_view s' = vc_view s"
  by (simp add: footprint_def)

lemma quiet:
  assumes "replica_inv s" and "view_room (Suc k) s" and "footprint s' = footprint s"
  shows "one_view k s s'"
  by (rule same_view [OF footprint_good [OF assms(1,3)] assms(2) footprint_view [OF assms(3)]])

lemma probe_view [simp]: "vc_view (begin_view_probe s) = vc_view s"
  by (simp add: begin_view_probe_def start_timeout_def stop_timeout_def)

lemma heartbeat_timeout_good:
  assumes "replica_inv s" and "view_room (Suc k) s"
  shows "one_view k s (snd (handle_normal_heartbeat_timeout s))"
  using assms quiet [OF assms refl] same_view [OF probe_good assms(2)] start_election_good [OF assms]
  by (simp add: handle_normal_heartbeat_timeout_def)

lemma svc_timeout_footprint [simp]: "footprint (snd (handle_start_view_change_message_timeout s)) = footprint s"
  by (simp add: handle_start_view_change_message_timeout_def)

lemma dvc_timeout_footprint [simp]: "footprint (snd (handle_do_view_change_message_timeout s)) = footprint s"
  by (simp add: handle_do_view_change_message_timeout_def Let_def)

lemma prepare_timeout_footprint:
  "handle_prepare_timeout random_range s = Some (a, s') \<Longrightarrow> footprint s' = footprint s"
  by (auto simp: handle_prepare_timeout_def bind_eq_Some_conv Let_def split: if_splits)

lemma commit_timeout_good:
  assumes "replica_inv s"
  shows "good s (snd (handle_commit_message_timeout s)) \<and> vc_view (snd (handle_commit_message_timeout s)) = vc_view s"
proof -
  have beat: "footprint (snd (commit_heartbeat (reset_timeout CommitMessage s))) = footprint s"
    by simp
  then show ?thesis
    using assms probe_good [OF assms] footprint_good [OF assms beat] footprint_view [OF beat]
    by (simp add: handle_commit_message_timeout_def good_refl split_beta)
qed

lemma status_timeout_good:
  assumes "replica_inv s" and "view_room (Suc k) s"
  shows "one_view k s (snd (handle_view_change_status_timeout s))"
proof -
  let ?t = "if vc_untrusted_log s then warn_untrusted_halt s else s"
  have t: "footprint ?t = footprint s"
    by simp
  note good = footprint_good [OF assms(1) t]
  have room: "view_room (Suc k) ?t"
    using assms(2) by (rule view_room_mono) (simp_all add: footprint_view [OF t] del: if_split)
  from start_election_good [OF goodD [OF good] room] good
  have "one_view k s (snd (enter_view_change (vc_view ?t + 1) ?t))"
    by (auto simp: one_view_def start_election_def intro: good_trans)
  then show ?thesis
    using quiet [OF assms refl] by (simp add: handle_view_change_status_timeout_def Let_def del: if_split_asm)
qed

lemma probe_timeout_good:
  assumes "replica_inv s" and "view_room (Suc k) s" and "handle_request_start_view_timeout s = Some (a, s')"
  shows "one_view k s s'"
proof (cases "vc_status s = Recovering \<and> saturating_add (vc_probe_attempts s) 1 \<ge> vc_probe_attempts_max s \<and>
    vc_recovery_election_allowed s")
  case False
  have "footprint s' = footprint s"
    using assms(3) False by (auto simp: handle_request_start_view_timeout_def Let_def split: Status.splits if_splits)
      (simp_all add: footprint_defs reset_timeout_def)
  then show ?thesis
    by (rule quiet [OF assms(1,2)])
next
  case True
  let ?u = "s\<lparr>vc_probe_attempts := saturating_add (vc_probe_attempts s) 1\<rparr>"
  obtain t where t: "(if vc_state_transfer_stage s \<noteq> Idle then set_state_transfer_stage Idle ?u else Some ?u) = Some t"
      and s': "s' = snd (start_election
        (if vc_rejoined_on_recovered_log (finish_view_probe t) \<and> \<not> vc_recovered_log_complete (finish_view_probe t)
         then (finish_view_probe t)\<lparr>vc_untrusted_log := True, vc_untrusted_view_change_timeouts := 0\<rparr>
         else finish_view_probe t))"
    using assms(3) True
    by (auto simp: handle_request_start_view_timeout_def Let_def bind_eq_Some_conv simp del: split_paired_Ex)
  let ?v = "if vc_rejoined_on_recovered_log (finish_view_probe t) \<and> \<not> vc_recovered_log_complete (finish_view_probe t)
         then (finish_view_probe t)\<lparr>vc_untrusted_log := True, vc_untrusted_view_change_timeouts := 0\<rparr>
         else finish_view_probe t"
  have "footprint t = footprint ?u"
    using t transfer_footprint by (auto split: if_splits)
  also have "\<dots> = footprint s"
    by (simp add: footprint_defs)
  finally have "footprint t = footprint s" .
  moreover have "footprint (x\<lparr>vc_untrusted_log := True, vc_untrusted_view_change_timeouts := 0\<rparr>) = footprint x"
    for x :: "'a VsrConsensus"
    by (simp add: footprint_defs)
  ultimately have v: "footprint ?v = footprint s"
    by simp
  note good = footprint_good [OF assms(1) v]
  have "view_room (Suc k) ?v"
    using assms(2) by (rule view_room_mono) (simp_all add: footprint_view [OF v] del: if_split)
  from start_election_good [OF goodD [OF good] this] good show ?thesis
    unfolding s' by (auto simp: one_view_def intro: good_trans)
qed

lemma on_fired_cases:
  assumes "on_fired enabled k handler (a, t) = Some (a', t')"
  obtains "t' = t" | more where "handler t = Some (more, t')"
  using assms by (auto simp: on_fired_def split: if_splits)

lemma commit_phase_good:
  assumes "replica_inv s" and "commit_phase (a, s) = Some (a', s')"
  shows "good s s' \<and> vc_view s' = vc_view s"
proof -
  let ?t = "s\<lparr>vc_eager_commit := False\<rparr>"
  have t: "footprint ?t = footprint s"
    by (simp add: footprint_defs)
  note good = footprint_good [OF assms(1) t]
  have "s' = snd (handle_commit_message_timeout ?t) \<or> footprint s' = footprint ?t"
    using assms(2) by (auto simp: commit_phase_def Let_def split_beta)
  then show ?thesis
  proof
    assume "s' = snd (handle_commit_message_timeout ?t)"
    with commit_timeout_good [OF goodD [OF good]] good show ?thesis
      by (auto intro: good_trans)
  next
    assume "footprint s' = footprint ?t"
    with t have "footprint s' = footprint s"
      by simp
    then show ?thesis
      using footprint_good [OF assms(1)] footprint_view by blast
  qed
qed

lemma one_view_trans: "good s t \<Longrightarrow> one_view k t u \<Longrightarrow> one_view k s u"
  by (auto simp: one_view_def intro: good_trans)

lemma tick_good:
  assumes "replica_inv s" and "view_room 3 s"
    and tick: "tick_with_history_fence random_range fenced s = Some (a, s')"
  shows "good s s'"
proof -
  let ?s0 = "s\<lparr>vc_timeouts := tm_tick (vc_timeouts s)\<rparr>"
  obtain a1 s1 a2 s2 a3 s3 a4 s4 a5 s5 a6 s6 where
      1: "on_fired (\<not> fenced) NormalHeartbeat (Some \<circ> handle_normal_heartbeat_timeout) ([], ?s0) = Some (a1, s1)"
    and 2: "on_fired True StartViewChangeMessage (Some \<circ> handle_start_view_change_message_timeout) (a1, s1) = Some (a2, s2)"
    and 3: "on_fired True DoViewChangeMessage (Some \<circ> handle_do_view_change_message_timeout) (a2, s2) = Some (a3, s3)"
    and 4: "on_fired True Prepare (handle_prepare_timeout random_range) (a3, s3) = Some (a4, s4)"
    and 5: "commit_phase (a4, s4) = Some (a5, s5)"
    and 6: "on_fired (\<not> fenced) RequestStartViewMessage handle_request_start_view_timeout (a5, s5) = Some (a6, s6)"
    and 7: "on_fired (\<not> fenced) ViewChangeStatus (Some \<circ> handle_view_change_status_timeout) (a6, s6) = Some (a, s')"
    using tick by (auto simp: tick_with_history_fence_def bind_eq_Some_conv Let_def)
  have f0: "footprint ?s0 = footprint s"
    by simp
  note g0 = footprint_good [OF assms(1) f0]
  have r0: "view_room (Suc 2) ?s0"
    using assms(2) by (simp add: view_room_def)
  have "one_view 2 ?s0 s1"
    using 1 heartbeat_timeout_good [OF goodD [OF g0] r0] quiet [OF goodD [OF g0] r0 refl]
    by (auto elim!: on_fired_cases)
  then have g1: "one_view 2 s s1"
    by (rule one_view_trans [OF g0])
  have "footprint s2 = footprint s1"
    using 2 svc_timeout_footprint [of s1] by (auto elim!: on_fired_cases simp del: svc_timeout_footprint)
  moreover have "footprint s3 = footprint s2"
    using 3 dvc_timeout_footprint [of s2] by (auto elim!: on_fired_cases simp del: dvc_timeout_footprint)
  moreover have "footprint s4 = footprint s3"
    using 4 by (auto elim!: on_fired_cases dest: prepare_timeout_footprint)
  ultimately have f4: "footprint s4 = footprint s1"
    by simp
  have g4: "good s s4"
    using g1 f4 good_footprint by (auto simp: one_view_def)
  note g5 = commit_phase_good [OF goodD [OF g4] 5]
  have r5: "view_room (Suc 1) s5"
    using g1 g5 footprint_view [OF f4] by (simp add: one_view_def view_room_def)
  note i5 = goodD [OF conjunct1 [OF g5]]
  have g6: "one_view 1 s5 s6"
    using 6 probe_timeout_good [OF i5 r5] quiet [OF i5 r5 refl] by (auto elim!: on_fired_cases)
  then have i6: "replica_inv s6" "view_room (Suc 0) s6"
    by (auto simp: one_view_def dest: goodD)
  have "one_view 0 s6 s'"
    using 7 status_timeout_good [OF i6] quiet [OF i6 refl] by (auto elim!: on_fired_cases)
  with g4 g5 g6 show ?thesis
    by (auto simp: one_view_def intro: good_trans)
qed

end
