(* ===== verification/Vsr_Steps.thy ===== *)
theory Vsr_Steps
  imports Vsr_Inv
begin

text \<open>
  The message handlers of a view change keep the invariant of \<open>Vsr_Inv\<close>; the step relation of a
  replica collects every operation and handler, and its reachable states satisfy the invariant.
\<close>

section \<open>Collecting votes and starting the view\<close>

lemma record_dvc_good:
  assumes "replica_inv s" and "record_dvc d s = Some (s', fresh)" and "sd_replica d < vc_replica_count s"
    and "vc_status s = ViewChange \<or> sd_replica d = vc_replica s"
  shows "good s s'"
proof -
  obtain q where q: "dvc_record (vc_do_view_change_from_all_replicas s) d = Some (q, fresh)"
      "s' = s\<lparr>vc_do_view_change_from_all_replicas := q\<rparr>"
    using assms(2) by (auto simp: record_dvc_def)
  have wf: "array_wf (unat (vc_replica_count s)) (vc_do_view_change_from_all_replicas s)"
    using assms(1) by (simp add: replica_inv_def votes_ok_def)
  note seat = array_wf_record [OF wf q(1)]
  have "unat (sd_replica d) < unat (vc_replica_count s)"
    using assms(3) by (simp add: word_less_nat_alt)
  then have "array_wf (unat (vc_replica_count s)) q"
    and votes: "\<forall>e \<in> set (dvc_iter q). e = d \<or> e \<in> set (dvc_iter (vc_do_view_change_from_all_replicas s))"
    using seat by auto
  moreover have "vc_status s \<noteq> ViewChange \<longrightarrow> (\<forall>e \<in> set (dvc_iter q). sd_replica e = vc_replica s)"
    using assms(1,4) votes unfolding replica_inv_def votes_ok_def by auto
  ultimately show ?thesis
    using assms(1) unfolding q(2) by (simp add: inv_defs split: option.splits)
qed

text \<open>The log a merge parks, and what it clears.\<close>

definition park_log :: "MergedLog \<Rightarrow> 'g VsrConsensus \<Rightarrow> 'g VsrConsensus" where
  "park_log merged s =
     (let s = reopen_view_log_proof (s\<lparr>vc_pending_view_log := Some merged\<rparr>)
      in s\<lparr>vc_pipeline := pipeline_clear (cancel_all_subscribers (vc_pipeline s)), vc_loopback_queue := []\<rparr>)"

lemma complete_cases:
  assumes "complete_view_change_as_primary s = Some s'"
  obtains "s' = s"
  | merged t where
      "merge_view_change (vc_do_view_change_from_all_replicas s) (merge_quorums (vc_replica_count s)) = Some (Ready merged)"
      "advance_commit_max (ml_commit_max merged) (s\<lparr>vc_do_view_change_quorum := True\<rparr>) = Some t"
      "s' = park_log merged t"
proof -
  obtain outcome where
    out: "merge_view_change (vc_do_view_change_from_all_replicas s) (merge_quorums (vc_replica_count s)) = Some outcome"
    using assms by (auto simp: complete_view_change_as_primary_def bind_eq_Some_conv)
  show thesis
  proof (cases outcome)
    case (Ready merged)
    then show thesis
      using assms out that
      by (cases "unat (saturating_sub (ml_op_head merged) (ml_commit_max merged)) > vc_prepare_queue_max s")
        (auto simp: complete_view_change_as_primary_def bind_eq_Some_conv park_log_def Let_def)
  qed (use assms out that(1) in \<open>simp_all add: complete_view_change_as_primary_def\<close>)
qed

lemma complete_good:
  assumes "replica_inv s" and "complete_view_change_as_primary s = Some s'"
    and "vc_status s = ViewChange" and "is_primary s"
  shows "good s s'"
  using assms(2)
proof (cases rule: complete_cases)
  case (2 merged t)
  note t = 2(2)
  have "good s (s\<lparr>vc_do_view_change_quorum := True\<rparr>)"
    using assms(1,3,4) by (simp add: inv_defs split: option.splits)
  also have "good (s\<lparr>vc_do_view_change_quorum := True\<rparr>) t"
    by (rule advance_commit_max_good [OF goodD [OF \<open>good s (s\<lparr>vc_do_view_change_quorum := True\<rparr>)\<close>] t])
  also (good_trans) have "good t (t\<lparr>vc_pending_view_log := Some merged\<rparr>)"
  proof -
    have "vc_status t = ViewChange" "is_primary t" "replica_inv t"
      using t assms(3,4) goodD [OF calculation]
      by (auto simp: advance_commit_max_eq start_timeout_def is_primary_def primary_index_def split: if_splits)
    then show ?thesis
      by (simp add: inv_defs split: option.splits)
  qed
  also (good_trans) have "good (t\<lparr>vc_pending_view_log := Some merged\<rparr>) (reopen_view_log_proof (t\<lparr>vc_pending_view_log := Some merged\<rparr>))"
    (is "good ?t ?u")
    by (rule reopen_good [OF goodD [OF calculation]])
  also (good_trans) have "good ?u s'"
  proof (rule pipeline_footprint)
    show inv: "replica_inv ?u"
      by (rule goodD [OF calculation])
    show "queues_ok (vc_replica_count ?u) (pipeline_clear (cancel_all_subscribers (vc_pipeline ?u)))"
      using replica_inv_queues [OF inv] by (intro queues_ok_clear queues_ok_cancel)
    show "footprint s' = footprint (?u\<lparr>vc_pipeline := pipeline_clear (cancel_all_subscribers (vc_pipeline ?u))\<rparr>)"
      by (simp add: 2(3) park_log_def footprint_defs Let_def)
  qed
  finally show ?thesis .
qed (use assms(1) good_refl in blast)

lemma own_votes_few:
  assumes "array_wf n q" and "\<forall>d \<in> set (dvc_iter q). sd_replica d = r"
  shows "dvc_count q \<le> 1"
proof -
  have "set (map (\<lambda>d. unat (sd_replica d)) (dvc_iter q)) \<subseteq> {unat r}"
    using assms(2) by auto
  then have "card (set (map (\<lambda>d. unat (sd_replica d)) (dvc_iter q))) \<le> 1"
    using card_mono [of "{unat r}"] by fastforce
  then show ?thesis
    using distinct_card [OF array_wfD(1) [OF assms(1)]] by (simp add: dvc_count_iter)
qed

lemma quorum_view_change_two: "1 < n \<Longrightarrow> 2 \<le> quorum_view_change n"
  by (auto simp: quorum_defs word_less_nat_alt)

lemma try_complete_good:
  assumes "replica_inv s" and "try_complete s = Some s'" and "is_primary s"
    and "vc_status s = ViewChange \<or> 1 < vc_replica_count s"
  shows "good s s'"
proof (cases "vc_status s = ViewChange")
  case True
  then show ?thesis
    using assms(1-3) by (auto simp: try_complete_def good_refl complete_good split: if_splits)
next
  case False
  then have "dvc_count (vc_do_view_change_from_all_replicas s) \<le> 1"
    using assms(1) by (intro own_votes_few) (auto simp: replica_inv_def votes_ok_def)
  then have "s' = s"
    using assms(2,4) False quorum_view_change_two [of "vc_replica_count s"]
    by (auto simp: try_complete_def split: if_splits)
  then show ?thesis
    using assms(1) by (simp add: good_refl)
qed

lemma own_dvc_replica [simp]: "sd_replica (own_dvc s) = vc_replica s"
  by (simp add: own_dvc_def)

lemma record_keeps:
  assumes "record_dvc d s = Some (s', fresh)"
  shows "is_primary s' = is_primary s" "vc_status s' = vc_status s" "vc_replica_count s' = vc_replica_count s"
    "vc_view s' = vc_view s" "vc_replica s' = vc_replica s"
  using assms by (auto simp: record_dvc_def is_primary_def primary_index_def)

lemma group_of_two:
  assumes "r < n" and "r' < n" and "r \<noteq> (r' :: u8)"
  shows "1 < n"
  using assms by (auto simp: word_less_nat_alt word_unat_eq_iff)

lemma footprint_parts:
  assumes "footprint t = footprint s"
  shows "vc_status t = vc_status s" "vc_replica_count t = vc_replica_count s" "vc_replica t = vc_replica s"
    "primary_index t v = primary_index s v" "is_primary t = is_primary s" "is_primary_for_view t v = is_primary_for_view s v"
  using assms by (simp_all add: footprint_def primary_index_def is_primary_def is_primary_for_view_def)

lemma vote_own_good:
  assumes "replica_inv s" and "record_dvc (own_dvc s) s = Some (t, fresh)" and "try_complete t = Some s'"
    and "is_primary s" and "vc_status s = ViewChange \<or> 1 < vc_replica_count s"
  shows "good s s'"
proof -
  have "vc_replica s < vc_replica_count s"
    using assms(1) by (simp add: replica_inv_def)
  then have "good s t"
    by (intro record_dvc_good [OF assms(1,2)]) simp_all
  also have "good t s'"
    using assms(4,5) record_keeps [OF assms(2)] by (intro try_complete_good [OF goodD [OF calculation] assms(3)]) simp_all
  finally show ?thesis .
qed

lemma handle_svc_good:
  assumes "replica_inv s" and "handle_start_view_change header s = Some (a, s')"
    and "fr_replica header < vc_replica_count s" and "fr_replica header \<noteq> vc_replica s"
  shows "good s s'"
proof (cases "vc_status s = Recovering \<or> fr_view header < vc_view s")
  case True
  then have "s' = s"
    using assms(2) by (auto simp: handle_start_view_change_def bind_eq_Some_conv split: if_splits)
  then show ?thesis
    using assms(1) by (simp add: good_refl)
next
  case False
  define t where "t = snd (if fr_view header > vc_view s then enter_view_change (fr_view header) s else ([], s))"
  have "good s t"
    using assms(1) False by (auto simp: t_def good_refl enter_view_change_good)
  define u where "u = t\<lparr>vc_start_view_change_from_all_replicas :=
      insert (unat (fr_replica header)) (vc_start_view_change_from_all_replicas t)\<rparr>"
  define v where "v = start_timeout DoViewChangeMessage (u\<lparr>vc_sent_own_do_view_change := True\<rparr>)"
  have fu: "footprint u = footprint t"
    by (simp add: u_def footprint_defs)
  have fv: "footprint v = footprint t"
    using fu by (simp add: v_def) (simp add: footprint_defs)
  have gu: "good s u" and gv: "good s v"
    using good_footprint [OF \<open>good s t\<close>] fu fv by blast+
  have n: "1 < vc_replica_count v"
    using group_of_two [OF assms(3) _ assms(4)] assms(1) gv by (simp add: replica_inv_def good_def)
  have "s' = u \<or> s' = v \<or> (\<exists>w fresh. primary_index v (vc_view v) = vc_replica v \<and>
      record_dvc (own_dvc v) v = Some (w, fresh) \<and> try_complete w = Some s')"
    using assms(2) False unfolding v_def u_def t_def
    by (auto simp: handle_start_view_change_def bind_eq_Some_conv Let_def split_beta split: if_splits)
  then show ?thesis
    using gu gv good_trans [OF gv vote_own_good [OF goodD [OF gv]]] n by (auto simp: is_primary_def)
qed

lemma record_own_good:
  assumes "replica_inv s" and "record_dvc (own_dvc s) (s\<lparr>vc_sent_own_do_view_change := True\<rparr>) = Some (t, fresh)"
  shows "good s t" and "vc_status t = vc_status s" and "is_primary t = is_primary s"
proof -
  let ?u = "s\<lparr>vc_sent_own_do_view_change := True\<rparr>"
  have f: "footprint ?u = footprint s"
    by (simp add: footprint_defs)
  note g = footprint_good [OF assms(1) f]
  have "sd_replica (own_dvc s) < vc_replica_count ?u" "sd_replica (own_dvc s) = vc_replica ?u"
    using assms(1) by (simp_all add: replica_inv_def)
  then show "good s t"
    using good_trans [OF g record_dvc_good [OF goodD [OF g] assms(2)]] by blast
  show "vc_status t = vc_status s" "is_primary t = is_primary s"
    using record_keeps [OF assms(2)] footprint_parts [OF f] by simp_all
qed

lemma vote_peer_good:
  assumes "replica_inv s" and "record_dvc d s = Some (t, fresh)" and "sd_replica d < vc_replica_count s"
    and "vc_status s = ViewChange" and "is_primary s" and "s' = t \<or> try_complete t = Some s'"
  shows "good s s'"
proof -
  have "good s t"
    by (rule record_dvc_good [OF assms(1-3)]) (use assms(4) in simp)
  moreover have "good t s'"
    using assms(4-6) record_keeps [OF assms(2)] good_refl [OF goodD [OF \<open>good s t\<close>]]
      try_complete_good [OF goodD [OF \<open>good s t\<close>]] by auto
  ultimately show ?thesis
    by (rule good_trans)
qed

lemma handle_dvc_good:
  assumes "replica_inv s" and "handle_do_view_change xxh3 header suffix_body s = Some (a, s')"
    and "fr_replica header < vc_replica_count s"
  shows "good s s'"
proof (cases "s' = s")
  case True
  then show ?thesis
    using assms(1) by (simp add: good_refl)
next
  case False
  define t where "t = snd (if fr_view header > vc_view s then enter_view_change (fr_view header) s else ([], s))"
  have gt: "good s t"
    using assms(1) by (auto simp: t_def good_refl enter_view_change_good)
  then have n: "vc_replica_count t = vc_replica_count s"
    by (simp add: good_def)
  have "s' = t \<or> ((vc_status t = ViewChange \<and> is_primary t) \<and> (\<exists>u w d fresh. sd_replica d = fr_replica header \<and>
      (u = t \<or> (\<exists>f. record_dvc (own_dvc t) (t\<lparr>vc_sent_own_do_view_change := True\<rparr>) = Some (u, f))) \<and>
      record_dvc d u = Some (w, fresh) \<and> (s' = w \<or> try_complete w = Some s')))"
    (is "?same \<or> (?lead \<and> ?vote)")
  proof (cases "is_primary t \<and> vc_status t = ViewChange")
    case lead: True
    obtain suffix u w fresh where u: "(if \<not> vc_sent_own_do_view_change t
          then map_option fst (record_dvc (own_dvc t) (t\<lparr>vc_sent_own_do_view_change := True\<rparr>)) else Some t) = Some u"
      and w: "record_dvc \<lparr>sd_replica = fr_replica header, sd_log_view = dvc_log_view header, sd_op = dvc_op header,
          sd_commit = dvc_commit header, sd_suffix = suffix, sd_untrusted_log = untrusted_log header\<rparr> u = Some (w, fresh)"
      and s': "s' = w \<or> try_complete w = Some s'"
      using assms(2) False lead unfolding t_def handle_do_view_change_def is_primary_for_view_def is_primary_def
      by (fastforce simp: bind_eq_Some_conv Let_def split_beta split: if_splits option.splits)
    from u have "u = t \<or> (\<exists>f. record_dvc (own_dvc t) (t\<lparr>vc_sent_own_do_view_change := True\<rparr>) = Some (u, f))"
      by (auto split: if_splits)
    with w s' have ?vote
      by (intro exI [of _ u] exI [of _ w] exI [of _ "\<lparr>sd_replica = fr_replica header, sd_log_view = dvc_log_view header,
          sd_op = dvc_op header, sd_commit = dvc_commit header, sd_suffix = suffix,
          sd_untrusted_log = untrusted_log header\<rparr>"] exI [of _ fresh]) simp
    with lead show ?thesis
      by blast
  next
    case lead: False
    then show ?thesis
      using assms(2) False unfolding t_def handle_do_view_change_def is_primary_for_view_def is_primary_def
      by (auto simp: bind_eq_Some_conv Let_def split_beta split: if_splits option.splits)
  qed
  then consider "s' = t"
    | u w d fresh where "vc_status t = ViewChange" "is_primary t" "sd_replica d = fr_replica header"
      "u = t \<or> (\<exists>f. record_dvc (own_dvc t) (t\<lparr>vc_sent_own_do_view_change := True\<rparr>) = Some (u, f))"
      "record_dvc d u = Some (w, fresh)" "s' = w \<or> try_complete w = Some s'"
    by blast
  then show ?thesis
  proof cases
    case 1
    then show ?thesis
      using gt by simp
  next
    case 2
    have u: "good t u" "vc_status u = ViewChange" "is_primary u"
      using 2(1,2,4) record_own_good [OF goodD [OF gt]] good_refl [OF goodD [OF gt]] by auto
    then have "vc_replica_count u = vc_replica_count s"
      using n by (simp add: good_def)
    then have "good u s'"
      using vote_peer_good [OF goodD [OF u(1)] 2(5) _ u(2,3) 2(6)] 2(3) assms(3) by simp
    then show ?thesis
      using good_trans [OF gt good_trans [OF u(1)]] by simp
  qed
qed

lemma observe_foldl:
  "\<exists>t. foldl (\<lambda>s h. observe_prepare_timestamp (ph_timestamp h) s) s hs = s\<lparr>vc_last_timestamp := t\<rparr>"
proof (induction hs arbitrary: s)
  case Nil
  then show ?case
    by (intro exI [of _ "vc_last_timestamp s"]) simp
next
  case (Cons h hs)
  define t where "t = (if ph_timestamp h > vc_last_timestamp s then ph_timestamp h else vc_last_timestamp s)"
  have "observe_prepare_timestamp (ph_timestamp h) s = s\<lparr>vc_last_timestamp := t\<rparr>"
    by (simp add: observe_prepare_timestamp_def t_def)
  then show ?case
    using Cons [of "s\<lparr>vc_last_timestamp := t\<rparr>"] by auto
qed

text \<open>What starting a merged view leaves of the fields the invariant reads.\<close>

definition started :: "'g VsrConsensus \<Rightarrow> 'g VsrConsensus" where
  "started s =
     s\<lparr>vc_pending_view_log := None, vc_adopted_view := None, vc_status := Normal, vc_log_view := vc_view s,
       vc_do_view_change_from_all_replicas := dvc_reset (vc_do_view_change_from_all_replicas s)\<rparr>"

lemma started_good: "replica_inv s \<Longrightarrow> good s (started s)"
  by (simp add: started_def inv_defs dvc_reset_def array_wf_empty split: option.splits) (auto intro: order_trans)

lemma proven_good: "replica_inv s \<Longrightarrow> good s (s\<lparr>vc_log_view_proven := vc_log_view s\<rparr>)"
  by (simp add: inv_defs split: option.splits)

lemma start_pending_footprint:
  assumes "is_primary_elect s" and "vc_pending_view_log s = Some merged"
  shows "footprint (snd (start_pending_view s)) =
    footprint (if vc_group s = METADATA_GROUP
      then certify_view_log (ml_op_head merged)
        (case first_opt (ml_headers merged) of None \<Rightarrow> 0 | Some head \<Rightarrow> fr_checksum head) (started s)
      else (started s)\<lparr>vc_log_view_proven := vc_log_view (started s)\<rparr>)"
proof -
  define base where "base = (let t = s\<lparr>vc_pending_view_log := None\<rparr>;
      t = (if vc_adopted_view t \<noteq> None then t\<lparr>vc_adopted_view := None, vc_adopted_view_dirty := True\<rparr> else t);
      t = invalidate_local_dvc_suffix
            (t\<lparr>vc_do_view_change_from_all_replicas := dvc_reset (vc_do_view_change_from_all_replicas t)\<rparr>);
      t = t\<lparr>vc_status := Normal, vc_rejoined_on_recovered_log := False, vc_ceded_primaryship := False,
            vc_untrusted_log := False, vc_sequencer := ml_op_head merged, vc_view_start_head := ml_op_head merged\<rparr>;
      t = redecide_recovery_barrier (ml_op_head merged) t
    in case first_opt (ml_headers merged) of
         None \<Rightarrow> t | Some head \<Rightarrow> t\<lparr>vc_last_prepare_checksum := fr_checksum head\<rparr>)"
  obtain ts where ts: "foldl (\<lambda>s header. observe_prepare_timestamp (ph_timestamp header) s) base (ml_headers merged)
      = base\<lparr>vc_last_timestamp := ts\<rparr>"
    using observe_foldl by blast
  have base: "vc_replica base = vc_replica s" "vc_replica_count base = vc_replica_count s" "vc_view base = vc_view s"
    "vc_status base = Normal" "vc_commit_min base = vc_commit_min s" "vc_commit_max base = vc_commit_max s"
    "vc_log_view_proven base = vc_log_view_proven s" "vc_history_certificate base = vc_history_certificate s"
    "vc_adopted_view base = None" "vc_pipeline base = vc_pipeline s" "vc_pending_view_log base = None"
    "vc_do_view_change_from_all_replicas base = dvc_reset (vc_do_view_change_from_all_replicas s)"
    "vc_group base = vc_group s"
    by (cases "first_opt (ml_headers merged)"; simp add: base_def invalidate_local_dvc_suffix_def
      redecide_recovery_barrier_def Let_def)+
  have "footprint (snd (start_pending_view s)) =
    footprint (let t = base\<lparr>vc_last_timestamp := ts, vc_log_view := vc_view base, vc_view_log_merged := False\<rparr>
      in if vc_group t = METADATA_GROUP
         then certify_view_log (ml_op_head merged)
           (case first_opt (ml_headers merged) of None \<Rightarrow> 0 | Some head \<Rightarrow> fr_checksum head) t
         else t\<lparr>vc_log_view_proven := vc_view t\<rparr>)"
    using assms ts unfolding start_pending_view_def base_def by (simp add: Let_def)
  also have "\<dots> = footprint (if vc_group s = METADATA_GROUP
      then certify_view_log (ml_op_head merged)
        (case first_opt (ml_headers merged) of None \<Rightarrow> 0 | Some head \<Rightarrow> fr_checksum head) (started s)
      else (started s)\<lparr>vc_log_view_proven := vc_log_view (started s)\<rparr>)"
    by (simp add: footprint_defs started_def base certify_view_log_def certificate_new_def Let_def)
  finally show ?thesis .
qed

lemma start_pending_view_good:
  assumes "replica_inv s"
  shows "good s (snd (start_pending_view s))"
proof (cases "is_primary_elect s")
  case True
  then obtain merged where merged: "vc_pending_view_log s = Some merged"
    by (auto simp: is_primary_elect_def view_log_is_pending_def)
  note g = started_good [OF assms]
  show ?thesis
    by (rule good_footprint [OF _ start_pending_footprint [OF True merged]])
      (use good_trans [OF g certify_good [OF goodD [OF g]]] good_trans [OF g proven_good [OF goodD [OF g]]] in simp)
qed (simp add: start_pending_view_def good_refl assms)

lemma handle_rsv_good:
  assumes "replica_inv s" and "handle_request_start_view header s = Some (a, s')" and "view_room 1 s"
  shows "good s s'"
  using assms start_election_good [OF assms(1), of 0]
  by (auto simp: handle_request_start_view_def bind_eq_Some_conv good_refl one_view_def split: if_splits)

lemma advance_commit_max_keeps:
  assumes "advance_commit_max c s = Some t"
  shows "\<exists>m. t = s\<lparr>vc_commit_max := max c (vc_commit_max s), vc_timeouts := m\<rparr>"
  using assms
  by (cases "vc_sequencer s > c")
    (auto simp: advance_commit_max_eq start_timeout_def max_def intro: exI [of _ "vc_timeouts s"])

lemma adopt_suffix_snd:
  "\<exists>l. snd (adopt_start_view_suffix header suffix s) = s\<lparr>vc_pending_view_log := l\<rparr>"
  by (auto simp: adopt_start_view_suffix_def intro: exI [of _ "vc_pending_view_log s"])

lemma redecide_eq: "\<exists>b. redecide_recovery_barrier h s = s\<lparr>vc_recovery_barrier := b\<rparr>"
  by (auto simp: redecide_recovery_barrier_def Let_def intro: exI [of _ "vc_recovery_barrier s"])

text \<open>An adopted view on the fields that the invariant reads.\<close>

definition adopts :: "StartViewHeader \<Rightarrow> AdoptedView \<Rightarrow> 'g VsrConsensus \<Rightarrow> 'g VsrConsensus \<Rightarrow> bool" where
  "adopts header adopted s s' \<longleftrightarrow>
     vc_replica s' = vc_replica s \<and> vc_replica_count s' = vc_replica_count s \<and> vc_group s' = vc_group s \<and>
     vc_view s' = fr_view header \<and> vc_log_view s' = fr_view header \<and> vc_status s' = Normal \<and>
     vc_sequencer s' = stv_op header \<and> vc_commit_min s' = vc_commit_min s \<and>
     vc_commit_max s' = max (stv_commit header) (vc_commit_max s) \<and>
     vc_log_view_proven s' =
       (if vc_group s \<noteq> METADATA_GROUP \<and> \<not> vc_view_log_unproven s then vc_log_view s else vc_log_view_proven s) \<and>
     vc_history_certificate s' = vc_history_certificate s \<and> vc_adopted_view s' = Some adopted \<and>
     vc_do_view_change_from_all_replicas s' = dvc_quorum_array_empty \<and> \<not> vc_do_view_change_quorum s' \<and>
     vc_pipeline s' = pipeline_clear (clear_request_queue (cancel_all_subscribers (vc_pipeline s))) \<and>
     vc_view_log_unproven s' =
       (vc_view_log_unproven s \<or> vc_status s \<noteq> Normal \<or> vc_log_view s \<noteq> fr_view header)"

lemma adopt_start_view_adopts:
  assumes "adopt_start_view header suffix adopted s = Some (a, s')"
  shows "adopts header adopted s s'"
proof -
  define r where "r \<longleftrightarrow> vc_view_log_unproven s \<or> vc_status s \<noteq> Normal \<or> vc_log_view s \<noteq> fr_view header"
  define p where "p = (if vc_group s \<noteq> METADATA_GROUP \<and> \<not> vc_view_log_unproven s
      then vc_log_view s else vc_log_view_proven s)"
  define m where "m = vc_timeouts (finish_view_probe s)"
  define t where "t = s\<lparr>vc_probe_attempts := 0, vc_timeouts := m, vc_log_view_proven := p, vc_view := fr_view header,
      vc_log_view := fr_view header, vc_status := Normal, vc_rejoined_on_recovered_log := False,
      vc_ceded_primaryship := False, vc_untrusted_log := r \<and> vc_untrusted_log s\<rparr>"
  have "(let s = finish_view_probe s;
      s = (if vc_group s \<noteq> METADATA_GROUP \<and> \<not> vc_view_log_unproven s
           then s\<lparr>vc_log_view_proven := vc_log_view s\<rparr> else s);
      s = s\<lparr>vc_view := fr_view header, vc_log_view := fr_view header, vc_status := Normal,
            vc_rejoined_on_recovered_log := False, vc_ceded_primaryship := False\<rparr>
     in if \<not> r then s\<lparr>vc_untrusted_log := False\<rparr> else s) = t"
    by (simp add: t_def m_def p_def finish_view_probe_def stop_timeout_def Let_def)
  then obtain u where u: "advance_commit_max (stv_commit header) t = Some u"
    and s': "s' = (let s = reset_view_change_state u;
       s = s\<lparr>vc_view_log_unproven := r, vc_view_log_unproven_through := - 1,
                 vc_view_log_missing_op := None, vc_pipeline := pipeline_clear (vc_pipeline s)\<rparr>;
       s = snd (adopt_start_view_suffix header suffix s);
       s = s\<lparr>vc_adopted_view := Some adopted, vc_adopted_view_dirty := True, vc_sequencer := stv_op header\<rparr>;
       s = redecide_recovery_barrier (stv_op header) s
      in start_timeout NormalHeartbeat (stop_timeout RequestStartViewMessage
                 (stop_timeout DoViewChangeMessage (stop_timeout ViewChangeStatus s))))"
    using assms
    by (auto simp: adopt_start_view_def bind_eq_Some_conv Let_def split_beta r_def finish_view_probe_def
      stop_timeout_def adopt_start_view_suffix_def)
  obtain m' where m': "u = t\<lparr>vc_commit_max := max (stv_commit header) (vc_commit_max t), vc_timeouts := m'\<rparr>"
    using advance_commit_max_keeps [OF u] by blast
  define v where "v = (reset_view_change_state u)\<lparr>vc_view_log_unproven := r, vc_view_log_unproven_through := - 1,
      vc_view_log_missing_op := None, vc_pipeline := pipeline_clear (vc_pipeline (reset_view_change_state u))\<rparr>"
  obtain l where l: "snd (adopt_start_view_suffix header suffix v) = v\<lparr>vc_pending_view_log := l\<rparr>"
    using adopt_suffix_snd by blast
  obtain b where b: "redecide_recovery_barrier (stv_op header) (v\<lparr>vc_pending_view_log := l, vc_adopted_view := Some adopted,
      vc_adopted_view_dirty := True, vc_sequencer := stv_op header\<rparr>) = v\<lparr>vc_pending_view_log := l, vc_adopted_view := Some adopted,
      vc_adopted_view_dirty := True, vc_sequencer := stv_op header, vc_recovery_barrier := b\<rparr>"
    using redecide_eq by blast
  have "s' = start_timeout NormalHeartbeat (stop_timeout RequestStartViewMessage (stop_timeout DoViewChangeMessage
      (stop_timeout ViewChangeStatus (v\<lparr>vc_pending_view_log := l, vc_adopted_view := Some adopted,
      vc_adopted_view_dirty := True, vc_sequencer := stv_op header, vc_recovery_barrier := b\<rparr>))))"
    unfolding s' Let_def v_def [symmetric] l b by (rule refl)
  then show ?thesis
    by (simp add: v_def m' t_def adopts_def reset_view_change_state_def
      reset_dvc_quorum_def dvc_reset_def start_timeout_def stop_timeout_def p_def r_def Let_def)
qed

lemma adopts_good:
  assumes "replica_inv s" and "adopts header adopted s s'" and "vc_view s \<le> fr_view header"
    and "av_view adopted = fr_view header"
  shows "good s s'"
proof -
  have q: "queues_ok (vc_replica_count s) (vc_pipeline s')"
    using assms(2) queues_ok_clear [OF queues_ok_clear_requests [OF queues_ok_cancel [OF replica_inv_queues [OF assms(1)]]]]
    by (simp add: adopts_def)
  have "vc_log_view s \<le> fr_view header" "certified_view s \<le> fr_view header" "vc_log_view_proven s \<le> fr_view header"
    using assms(1,3) by (auto simp: replica_inv_def claims_ok_def)
  then have "claims_ok s'" "vc_log_view s \<le> vc_log_view s'"
    using assms(2,4) by (auto simp: adopts_def claims_ok_def certified_view_def)
  moreover have "votes_ok s'"
    using assms(2) by (simp add: adopts_def votes_ok_def array_wf_empty is_primary_elect_def)
  ultimately show ?thesis
    using q assms(1-3) by (auto simp: good_def replica_inv_def adopts_def le_max_iff_disj)
qed

lemma contradicts_footprint [simp]: "footprint (snd (contradicts_applied_log v hs applied s)) = footprint s"
  by (simp add: contradicts_applied_log_def footprint_defs)

text \<open>The ways a \<open>StartView\<close> ends.\<close>

lemma start_view_cases:
  assumes "try_handle_start_view xxh3 header suffix_body applied_at s = Some (r, s')"
  obtains (idle) "r = Ok []" "s' = s"
  | (commit) "r = Ok [CommitJournal]" "vc_commit_max s < stv_commit header" "vc_status s = Normal"
      "fr_view header = vc_log_view s" "advance_commit_max (stv_commit header) s = Some s'"
  | (bad) "r = Err InvalidEvidence" "s' = s"
  | (conflict) suffix where "dvc_suffix_decode xxh3 suffix_body (stv_op header) 0 0 = Some (Ok suffix)"
      "list_ex (contradicts applied_at (vc_commit_min s)) (sf_headers suffix)"
      "r = Err (ContradictsAppliedLog \<lparr>ml_op_head = stv_op header, ml_commit_max = stv_commit header,
             ml_headers = sf_headers suffix, ml_committed_elsewhere = []\<rparr>)"
      "s' = snd (contradicts_applied_log (fr_view header) (sf_headers suffix) applied_at s)"
  | (adopt) suffix adopted a where "vc_view s \<le> fr_view header" "vc_commit_max s \<le> stv_op header"
      "primary_index s (fr_view header) = fr_replica header" "fr_replica header \<noteq> vc_replica s"
      "dvc_suffix_decode xxh3 suffix_body (stv_op header) 0 0 = Some (Ok suffix)"
      "adopted = \<lparr>av_view = fr_view header, av_group = vc_group s,
                   av_partition_incarnation = vc_partition_incarnation s, av_op_head = stv_op header,
                   av_commit_max = stv_commit header, av_headers = sf_headers suffix\<rparr>"
      "validate_adopted xxh3 adopted (vc_cluster s) (fr_view header) = Some (Ok ())"
      "\<not> list_ex (contradicts applied_at (vc_commit_min s)) (sf_headers suffix)"
      "r = Ok a" "adopt_start_view header suffix adopted s = Some (a, s')"
proof -
  let ?early = "primary_index s (fr_view header) \<noteq> fr_replica header \<or> fr_view header < vc_view s \<or>
      (vc_status s = Recovering \<and> vc_incarnation s \<noteq> 0 \<and> stv_incarnation header \<noteq> 0 \<and>
       fr_view header \<le> vc_view s \<and> stv_op header < vc_sequencer s \<and> stv_incarnation header \<noteq> vc_incarnation s)"
  let ?known = "vc_status s = Normal \<and> \<not> vc_view_log_unproven s \<and> fr_view header = vc_log_view s \<and>
      stv_op header \<le> vc_sequencer s"
  let ?stale = "stv_op header < vc_commit_max s \<or> fr_replica header = vc_replica s"
  consider ?early | "\<not> ?early" ?known | "\<not> ?early" "\<not> ?known" ?stale | "\<not> ?early" "\<not> ?known" "\<not> ?stale"
    by blast
  then show thesis
  proof cases
    case 1
    then have "r = Ok [] \<and> s' = s"
      using assms by (elim disjE) (auto simp: try_handle_start_view_def bind_eq_Some_conv split: if_split_asm)
    then show thesis
      using idle by blast
  next
    case 2
    then show thesis
      using assms idle commit by (auto simp: try_handle_start_view_def bind_eq_Some_conv split: if_splits)
  next
    case 3
    then show thesis
      using assms idle by (auto simp: try_handle_start_view_def bind_eq_Some_conv split: if_splits)
  next
    case 4
    then have not: "\<not> primary_index s (fr_view header) \<noteq> fr_replica header" "\<not> fr_view header < vc_view s"
      "\<not> (vc_status s = Recovering \<and> vc_incarnation s \<noteq> 0 \<and> stv_incarnation header \<noteq> 0 \<and>
       fr_view header \<le> vc_view s \<and> stv_op header < vc_sequencer s \<and> stv_incarnation header \<noteq> vc_incarnation s)"
      "\<not> ?known" "\<not> stv_op header < vc_commit_max s" "\<not> fr_replica header = vc_replica s"
      by blast+
    define adopted_of where "adopted_of suffix = \<lparr>av_view = fr_view header, av_group = vc_group s,
        av_partition_incarnation = vc_partition_incarnation s, av_op_head = stv_op header,
        av_commit_max = stv_commit header, av_headers = sf_headers suffix\<rparr>" for suffix :: DvcSuffix
    obtain decoded where d: "dvc_suffix_decode xxh3 suffix_body (stv_op header) 0 0 = Some decoded"
      and rest: "(case decoded of Inl _ \<Rightarrow> Some (Err InvalidEvidence, s)
        | Inr suffix \<Rightarrow> do {
            valid \<leftarrow> validate_adopted xxh3 (adopted_of suffix) (vc_cluster s) (fr_view header);
            case valid of
              Inl _ \<Rightarrow> Some (Err InvalidEvidence, s)
            | Inr _ \<Rightarrow> (case contradicts_applied_log (fr_view header) (sf_headers suffix) applied_at s of
                 (True, s) \<Rightarrow> Some (Err (ContradictsAppliedLog (merged_log (adopted_of suffix))), s)
               | (False, s) \<Rightarrow> map_option (\<lambda>(actions, s). (Ok actions, s))
                   (adopt_start_view header suffix (adopted_of suffix) s)) }) = Some (r, s')"
      using assms
      unfolding try_handle_start_view_def Let_def adopted_of_def if_not_P [OF not(1)] if_not_P [OF not(2)]
        if_not_P [OF not(3)] if_not_P [OF not(4)] if_not_P [OF not(5)] if_not_P [OF not(6)]
      by (auto simp: bind_eq_Some_conv)
    show thesis
    proof (cases decoded)
      case (Inl e)
      then show thesis
        using rest bad by simp
    next
      case (Inr suffix)
      let ?conflict = "list_ex (contradicts applied_at (vc_commit_min s)) (sf_headers suffix)"
      obtain valid where v: "validate_adopted xxh3 (adopted_of suffix) (vc_cluster s) (fr_view header) = Some valid"
        using rest Inr by (auto simp: bind_eq_Some_conv)
      consider e where "valid = Inl e" | "valid = Ok ()" ?conflict | "valid = Ok ()" "\<not> ?conflict"
        by (cases valid) auto
      then show thesis
      proof cases
        case 1
        then show thesis
          using rest Inr v bad by simp
      next
        case 2
        have "fst (contradicts_applied_log (fr_view header) (sf_headers suffix) applied_at s)"
          using 2 by (simp add: contradicts_applied_log_def)
        then show thesis
          using rest Inr v 2(1) conflict [OF d [unfolded Inr] 2(2)]
          by (auto simp: merged_log_def adopted_of_def split: prod.splits)
      next
        case 3
        have "contradicts_applied_log (fr_view header) (sf_headers suffix) applied_at s = (False, s)"
          using 3 by (simp add: contradicts_applied_log_def)
        then obtain a where "r = Ok a" "adopt_start_view header suffix (adopted_of suffix) s = Some (a, s')"
          using rest Inr v 3(1) by auto
        then show thesis
          using adopt [of suffix "adopted_of suffix" a] not d v 3 Inr by (simp add: adopted_of_def not_less)
      qed
    qed
  qed
qed

lemma start_view_good:
  assumes "replica_inv s" and "try_handle_start_view xxh3 header suffix_body applied_at s = Some (r, s')"
  shows "good s s'"
  using assms(2)
proof (cases rule: start_view_cases)
  case commit
  then show ?thesis
    using advance_commit_max_good [OF assms(1)] by blast
next
  case (conflict suffix)
  show ?thesis
    unfolding conflict(4) by (rule footprint_good [OF assms(1)]) simp
next
  case (adopt suffix adopted a)
  then show ?thesis
    using adopts_good [OF assms(1) adopt_start_view_adopts] by auto
qed (use assms(1) good_refl in blast)+

lemma handle_commit_good:
  assumes "replica_inv s" and "handle_commit header s = Some (outcome, s')"
  shows "good s s'"
proof -
  let ?t = "if heartbeat_less (vc_heartbeat_watermark s) (fr_view header, ch_timestamp_monotonic header)
    then reset_timeout NormalHeartbeat (s\<lparr>vc_heartbeat_watermark := (fr_view header, ch_timestamp_monotonic header)\<rparr>)
    else s"
  have "footprint ?t = footprint s"
    by (simp add: footprint_defs reset_timeout_def)
  then have "good s ?t"
    by (rule footprint_good [OF assms(1)])
  have "s' = s \<or> s' = observe_newer_view (fr_view header) s \<or> advance_commit_max (ch_commit header) ?t = Some s'"
    using assms(2) by (auto simp: handle_commit_def bind_eq_Some_conv Let_def split: if_splits)
  then show ?thesis
    using good_refl [OF assms(1)] footprint_good [OF assms(1) note_footprint(9)]
      good_trans [OF \<open>good s ?t\<close> advance_commit_max_good [OF goodD [OF \<open>good s ?t\<close>]]]
    by auto
qed

section \<open>Runs of a replica\<close>

text \<open>
  One step of a replica is one call of its interface. A protocol message is from another member of
  the group; the view number has room left; a state transfer lands at most on the known commit point.
\<close>

inductive replica_step :: "(bytes \<Rightarrow> u64) \<Rightarrow> 'g VsrConsensus \<Rightarrow> 'g VsrConsensus \<Rightarrow> bool" for xxh3 where
  tick: "tick_with_history_fence random_range fenced s = Some (actions, s') \<Longrightarrow> view_room 3 s \<Longrightarrow> replica_step xxh3 s s'"
| start_view_change: "handle_start_view_change svc s = Some (actions, s') \<Longrightarrow> fr_replica svc < vc_replica_count s \<Longrightarrow>
    fr_replica svc \<noteq> vc_replica s \<Longrightarrow> replica_step xxh3 s s'"
| do_view_change: "handle_do_view_change xxh3 dvc body s = Some (actions, s') \<Longrightarrow>
    fr_replica dvc < vc_replica_count s \<Longrightarrow> replica_step xxh3 s s'"
| view_started: "start_pending_view s = (actions, s') \<Longrightarrow> replica_step xxh3 s s'"
| view_requested: "handle_request_start_view rsv s = Some (actions, s') \<Longrightarrow> view_room 1 s \<Longrightarrow> replica_step xxh3 s s'"
| start_view: "try_handle_start_view xxh3 sv body applied_at s = Some (reply, s') \<Longrightarrow> replica_step xxh3 s s'"
| commit_heard: "handle_commit commit s = Some (outcome, s') \<Longrightarrow> replica_step xxh3 s s'"
| prepare_ok: "ack_quorum_reached ack s = Some (advanced, s') \<Longrightarrow> replica_step xxh3 s s'"
| late_prepare_ok: "replica_step xxh3 s (handle_late_prepare_ok ack s)"
| prepare_checked: "replicate_preflight header s = Some (verdict, s') \<Longrightarrow> replica_step xxh3 s s'"
| prepare_acknowledged: "send_prepare_ok xxh3 header persisted s = Some (s', sent) \<Longrightarrow> replica_step xxh3 s s'"
| prepared: "pipeline_message_with_order header sender order s = Some s' \<Longrightarrow> replica_step xxh3 s s'"
| replicated: "pipeline_prepare_common header s = Some s' \<Longrightarrow> replica_step xxh3 s s'"
| rolled_back: "rollback_pipelined_prepare header s = (verdict, s') \<Longrightarrow> replica_step xxh3 s s'"
| queued: "push_queued_request now request s = Ok s' \<Longrightarrow> replica_step xxh3 s s'"
| popped: "pop_committed_prepare s = (head, s') \<Longrightarrow> replica_step xxh3 s s'"
| cleared: "replica_step xxh3 s (clear_pipeline s)"
| commit_known: "advance_commit_max commit s = Some s' \<Longrightarrow> replica_step xxh3 s s'"
| applied: "advance_commit_min op s = Some s' \<Longrightarrow> vc_commit_min s \<noteq> - 1 \<Longrightarrow> replica_step xxh3 s s'"
| transferred: "set_commit_floor floor_op s = Some s' \<Longrightarrow> floor_op \<le> vc_commit_max s \<Longrightarrow> replica_step xxh3 s s'"
| transfer_stage: "set_state_transfer_stage stage s = Some s' \<Longrightarrow> replica_step xxh3 s s'"
| log_settled: "replica_step xxh3 s (settle_view_log_proof s)"
| log_fenced: "replica_step xxh3 s (fence_view_log op through s)"
| log_reopened: "replica_step xxh3 s (reopen_view_log_proof s)"
| log_certified: "replica_step xxh3 s (certify_view_log op checksum s)"
| certificate_extended: "replica_step xxh3 s (extend_history_certificate op checksum s)"
| certificate_lowered: "replica_step xxh3 s (lower_history_certificate from_op op checksum s)"
| header_repaired: "replica_step xxh3 s (note_repaired_view_header header evidence s)"
| suffix_noted: "replica_step xxh3 s (set_local_dvc_suffix suffix s)"
| journal_changed: "replica_step xxh3 s (note_journal_mutation s)"
| superblock_written: "replica_step xxh3 s (mark_superblock_durable v lv s)"
| adoption_written: "replica_step xxh3 s (mark_adopted_view_durable written s)"
| primary_transfer: "request_primary_transfer expected target s = (actions, s') \<Longrightarrow> replica_step xxh3 s s'"
| probe: "vc_status s \<noteq> ViewChange \<Longrightarrow> replica_step xxh3 s (begin_view_probe s)"
| loopback_drained: "drain_loopback_into buffer s = (messages, s') \<Longrightarrow> replica_step xxh3 s s'"
| eager_commit: "replica_step xxh3 s (request_eager_commit s)"
| contradictions_taken: "take_applied_log_contradictions s = (taken, s') \<Longrightarrow> replica_step xxh3 s s'"

lemma replica_step_good: "replica_step xxh3 s s' \<Longrightarrow> replica_inv s \<Longrightarrow> good s s'"
proof (induction rule: replica_step.induct)
  case (view_started s actions s')
  then show ?case
    using start_pending_view_good [of s] by simp
next
  case (rolled_back header s verdict s')
  then show ?case
    using rollback_good [of s header] by simp
next
  case (popped s head s')
  then show ?case
    using pop_good [of s] by simp
next
  case (primary_transfer expected target s actions s')
  then show ?case
    using primary_transfer_good [of s expected target] by simp
next
  case (loopback_drained buffer s messages s')
  then show ?case
    using footprint_good [OF _ ack_footprint(6)] by (metis snd_conv)
next
  case (contradictions_taken s taken s')
  then show ?case
    using footprint_good [OF _ ack_footprint(7)] by (metis snd_conv)
qed (auto intro: tick_good handle_svc_good handle_dvc_good handle_rsv_good start_view_good handle_commit_good
    ack_quorum_good preflight_good send_prepare_ok_good pipeline_message_good prepare_common_good enqueue_good
    clear_good advance_commit_max_good advance_commit_min_good set_commit_floor_good settle_good fence_good
    reopen_good certify_good extend_good lower_good probe_good footprint_good
    dest: transfer_footprint)

text \<open>
  A replica comes up from what it kept: the view pair of its superblock, the adopted view, the
  certified history and the commit points of its log.
\<close>

definition boot ::
    "(u64 \<Rightarrow> 'g) \<Rightarrow> u128 \<Rightarrow> u8 \<Rightarrow> u8 \<Rightarrow> u64 \<Rightarrow> nat \<times> nat \<Rightarrow> VsrRestore \<Rightarrow>
     (HistoryRecovery \<times> (u64 \<times> u128) \<times> VsrState option) option \<Rightarrow> AdoptedView option \<Rightarrow> u64 \<times> u64 \<Rightarrow>
     'g VsrConsensus option" where
  "boot seed_from_u64 cluster_id r rcount g depths restore history adopted commits =
     do {
       p \<leftarrow> with_capacities (fst depths) (snd depths);
       s \<leftarrow> restored seed_from_u64 cluster_id r rcount g p restore;
       let s = (case history of None \<Rightarrow> s | Some (recovery, head, recorded) \<Rightarrow> restore_history recovery head recorded s);
       s \<leftarrow> restore_commit_state (fst commits) (snd commits) (restore_adopted_view adopted s);
       resume_adopted_view s
     }"

text \<open>What the recovered data promise; the superblock decoder checks the first two.\<close>

definition boot_data_ok :: "u8 \<Rightarrow> VsrRestore \<Rightarrow>
    (HistoryRecovery \<times> (u64 \<times> u128) \<times> VsrState option) option \<Rightarrow> AdoptedView option \<Rightarrow> bool" where
  "boot_data_ok rcount restore history adopted \<longleftrightarrow>
     unat rcount \<le> REPLICAS_MAX \<and>
     (case rs_durable_view restore of
        None \<Rightarrow> history = None \<and> adopted = None
      | Some (v, lv) \<Rightarrow>
          lv \<le> v \<and> (case adopted of None \<Rightarrow> True | Some a \<Rightarrow> lv \<le> av_view a \<and> av_view a \<le> v) \<and>
          (case history of
             None \<Rightarrow> True
           | Some (Unproven, head, recorded) \<Rightarrow> True
           | Some (Certified cv b, head, recorded) \<Rightarrow>
               cv \<le> lv \<and> (case recorded of None \<Rightarrow> True | Some st \<Rightarrow>
                 (case history_certificate st of None \<Rightarrow> True | Some c \<Rightarrow> hc_view c \<le> lv))))"

inductive reachable :: "(bytes \<Rightarrow> u64) \<Rightarrow> 'g VsrConsensus \<Rightarrow> bool" for xxh3 where
  booted: "boot seed_from_u64 cluster_id r rcount g depths restore history adopted commits = Some s \<Longrightarrow>
    boot_data_ok rcount restore history adopted \<Longrightarrow> reachable xxh3 s"
| stepped: "reachable xxh3 s \<Longrightarrow> replica_step xxh3 s s' \<Longrightarrow> reachable xxh3 s'"

end
