(* ===== verification/Vsr_Boot.thy ===== *)
theory Vsr_Boot
  imports Vsr_Steps
begin

text \<open>
  How a replica comes up from its durable record, the invariant of every reachable state, and the
  claims that survive a crash.
\<close>

section \<open>Coming up\<close>

text \<open>The fields of a replica that has joined, before its history is restored.\<close>

definition joined :: "u8 \<Rightarrow> u8 \<Rightarrow> u64 \<Rightarrow> LocalPipeline \<Rightarrow> 'g VsrConsensus \<Rightarrow> bool" where
  "joined r rcount g p s \<longleftrightarrow>
     vc_replica s = r \<and> vc_replica_count s = rcount \<and> vc_group s = g \<and> r < rcount \<and> vc_commit_min s = 0 \<and>
     vc_commit_max s = 0 \<and> vc_pipeline s = p \<and> vc_adopted_view s = None \<and> vc_pending_view_log s = None \<and>
     \<not> vc_do_view_change_quorum s \<and> vc_do_view_change_from_all_replicas s = dvc_quorum_array_empty \<and>
     \<not> vc_view_log_unproven s \<and> certified_view s = 0"

lemma replica_new_joined:
  assumes "replica_new seed_from_u64 cluster_id r rcount g p = Some s"
  shows "joined r rcount g p s" and "vc_view s = 0" and "vc_log_view s = 0" and "vc_log_view_proven s = 0"
  using assms by (auto simp: replica_new_def joined_def bind_eq_Some_conv Let_def certified_view_def certificate_new_def)

lemma restore_view_joined:
  assumes "joined r rcount g p s"
  shows "joined r rcount g p (restore_view w s)"
  using assms by (simp add: restore_view_def joined_def set_log_view_def mark_superblock_durable_def certified_view_def
    Let_def split: option.splits prod.splits)

lemma restore_view_views:
  assumes "vc_view s = 0" and "vc_log_view s = 0" and "vc_log_view_proven s = 0"
  shows "vr_durable_view w = Some (v, lv) \<Longrightarrow> v \<le> vc_view (restore_view w s) \<and> vc_log_view (restore_view w s) = lv \<and>
      vc_log_view_proven (restore_view w s) = (if vc_group s = METADATA_GROUP then 0 else lv)"
    and "vr_durable_view w = None \<Longrightarrow> vc_log_view (restore_view w s) \<le> vc_view (restore_view w s) \<and>
      vc_log_view_proven (restore_view w s) \<le> vc_log_view (restore_view w s)"
    and "vr_durable_view w = Some (v, lv) \<Longrightarrow> vr_view_fallback w = None \<or> lv \<noteq> 0 \<Longrightarrow> vc_view (restore_view w s) = v"
  using assms by (auto simp: restore_view_def set_log_view_def mark_superblock_durable_def Let_def split: option.splits)

lemma join_group_joined:
  assumes "join_group mode s = Some s'"
  shows "joined r rcount g p s' = joined r rcount g p s" "vc_view s' = vc_view s" "vc_log_view s' = vc_log_view s"
    "vc_log_view_proven s' = vc_log_view_proven s" "vc_status s' \<noteq> ViewChange" "vc_group s' = vc_group s"
proof -
  obtain st b c t pa stage where "s' = s\<lparr>vc_status := st, vc_rejoined_on_recovered_log := b, vc_ceded_primaryship := c,
      vc_timeouts := t, vc_probe_attempts := pa, vc_state_transfer_stage := stage\<rparr>" "st \<noteq> ViewChange"
  proof (cases mode)
    case Init
    then have "s' = s\<lparr>vc_status := Normal, vc_rejoined_on_recovered_log := False,
        vc_ceded_primaryship := vc_ceded_primaryship s, vc_timeouts := vc_timeouts s',
        vc_probe_attempts := vc_probe_attempts s', vc_state_transfer_stage := vc_state_transfer_stage s\<rparr>"
      using assms by (auto simp: join_group_def init_replica_def start_timeout_def Let_def)
    then show ?thesis
      using that by blast
  next
    case (ProbeAsBackup await)
    then have "s' = s\<lparr>vc_status := Recovering, vc_rejoined_on_recovered_log := True, vc_ceded_primaryship := True,
        vc_timeouts := vc_timeouts s', vc_probe_attempts := vc_probe_attempts s',
        vc_state_transfer_stage := vc_state_transfer_stage s'\<rparr>"
      using assms
      by (auto simp: join_group_def init_as_backup_def begin_view_probe_def set_state_transfer_stage_def
        start_timeout_def stop_timeout_def bind_eq_Some_conv Let_def split: if_splits)
    then show ?thesis
      using that by blast
  qed
  then show "joined r rcount g p s' = joined r rcount g p s" "vc_view s' = vc_view s" "vc_log_view s' = vc_log_view s"
    "vc_log_view_proven s' = vc_log_view_proven s" "vc_status s' \<noteq> ViewChange" "vc_group s' = vc_group s"
    by (simp_all add: joined_def certified_view_def)
qed

lemma restored_joined:
  assumes "restored seed_from_u64 cluster_id r rcount g p restore = Some s"
  shows "joined r rcount g p s" and "vc_status s \<noteq> ViewChange"
    and "rs_durable_view restore = Some (v, lv) \<Longrightarrow> v \<le> vc_view s \<and> vc_log_view s = lv \<and>
      vc_log_view_proven s = (if g = METADATA_GROUP then 0 else lv)"
    and "rs_durable_view restore = None \<Longrightarrow> vc_log_view s \<le> vc_view s \<and> vc_log_view_proven s \<le> vc_log_view s"
    and "rs_durable_view restore = Some (v, lv) \<Longrightarrow> rs_view_fallback restore = None \<or> lv \<noteq> 0 \<Longrightarrow> vc_view s = v"
proof -
  obtain s0 where s0: "replica_new seed_from_u64 cluster_id r rcount g p = Some s0"
    using assms by (auto simp: restored_def bind_eq_Some_conv)
  define t where "t = (let s = apply_timers (rs_timers restore) s0
    in case rs_incarnation restore of None \<Rightarrow> s | Some i \<Rightarrow> s\<lparr>vc_incarnation := i\<rparr>)"
  define w where "w = \<lparr>vr_durable_view = rs_durable_view restore, vr_view_fallback = rs_view_fallback restore,
      vr_seed_view = rs_seed_view restore\<rparr>"
  have j: "join_group (rs_join restore) (restore_view w t) = Some s"
    using assms s0 unfolding restored_def by (simp add: bind_eq_Some_conv Let_def t_def w_def)
  have t: "joined r rcount g p t" "vc_view t = 0" "vc_log_view t = 0" "vc_log_view_proven t = 0" "vc_group t = g"
    using replica_new_joined [OF s0]
    by (simp_all add: t_def apply_timers_def joined_def certified_view_def Let_def split: option.splits)
  note join = join_group_joined [OF j]
  show "joined r rcount g p s" "vc_status s \<noteq> ViewChange"
    using join restore_view_joined [OF t(1)] by simp_all
  show "rs_durable_view restore = Some (v, lv) \<Longrightarrow> v \<le> vc_view s \<and> vc_log_view s = lv \<and>
      vc_log_view_proven s = (if g = METADATA_GROUP then 0 else lv)"
    "rs_durable_view restore = None \<Longrightarrow> vc_log_view s \<le> vc_view s \<and> vc_log_view_proven s \<le> vc_log_view s"
    "rs_durable_view restore = Some (v, lv) \<Longrightarrow> rs_view_fallback restore = None \<or> lv \<noteq> 0 \<Longrightarrow> vc_view s = v"
    using restore_view_views [OF t(2-4), of w] t(5) by (simp_all add: join w_def)
qed

lemma fresh_queues: "with_capacities a b = Some p \<Longrightarrow> queues_ok n p"
  by (auto simp: with_capacities_def queues_ok_def pipeline_verify_linked split: if_splits)

lemma joined_inv:
  assumes "joined r rcount g p s" and "queues_ok rcount p" and "unat rcount \<le> REPLICAS_MAX"
    and "vc_status s \<noteq> ViewChange" and "vc_log_view s \<le> vc_view s" and "vc_log_view_proven s \<le> vc_log_view s"
  shows "replica_inv s"
  using assms by (simp add: joined_def replica_inv_def claims_ok_def votes_ok_def array_wf_empty is_primary_elect_def)

text \<open>Restoring the history and the commit points keeps the invariant, the adopted view apart.\<close>

lemma restore_history_view:
  assumes "boot_data_ok rcount restore (Some (recovery, head, recorded)) adopted"
    and "rs_durable_view restore = Some (v, lv)"
  shows "certified_view (restore_history recovery head recorded s) \<le> lv"
  using assms
  by (auto simp: boot_data_ok_def restore_history_def certified_view_def certificate_new_def
    invalidate_local_dvc_suffix_def Let_def split: HistoryRecovery.splits option.splits prod.splits)

lemma restore_history_inv:
  assumes "replica_inv s" and "certified_view (restore_history recovery head recorded s) \<le> vc_log_view s"
  shows "replica_inv (restore_history recovery head recorded s)"
proof -
  obtain c d e u w m l where "restore_history recovery head recorded s =
      s\<lparr>vc_recovery_election_allowed := e, vc_view_log_unproven := u, vc_view_log_unproven_through := w,
        vc_view_log_missing_op := m, vc_local_dvc_suffix := l, vc_history_certificate := c,
        vc_history_certificate_durable := d\<rparr>"
  proof (cases recovery)
    case (Certified cv b)
    then have "restore_history recovery head recorded s =
      s\<lparr>vc_recovery_election_allowed := vc_recovery_election_allowed s, vc_view_log_unproven := vc_view_log_unproven s,
        vc_view_log_unproven_through := vc_view_log_unproven_through s,
        vc_view_log_missing_op := vc_view_log_missing_op s, vc_local_dvc_suffix := vc_local_dvc_suffix s,
        vc_history_certificate := vc_history_certificate (restore_history recovery head recorded s),
        vc_history_certificate_durable := vc_history_certificate_durable (restore_history recovery head recorded s)\<rparr>"
      by (simp add: restore_history_def Let_def)
    then show ?thesis
      using that by blast
  next
    case Unproven
    then show ?thesis
      using that by (simp add: restore_history_def invalidate_local_dvc_suffix_def Let_def)
  qed
  then show ?thesis
    using assms by (simp add: replica_inv_def claims_ok_def votes_ok_def certified_view_def is_primary_elect_def
      view_log_is_pending_def is_primary_def primary_index_def split: option.splits)
qed

lemma commit_state_inv:
  assumes "replica_inv s" and "restore_commit_state cmin cmax s = Some s'"
  shows "replica_inv s'"
proof -
  have "s' = s\<lparr>vc_commit_max := cmax, vc_commit_min := cmin\<rparr>" "cmin \<le> cmax"
    using assms(2) by (auto simp: restore_commit_state_def bind_eq_Some_conv)
  with assms(1) show ?thesis
    by (simp add: inv_defs split: option.splits)
qed

text \<open>A replica with an adopted view of its own: what resuming needs.\<close>

lemma resume_inv:
  assumes "replica_inv s" and "vc_adopted_view s = None" and "\<not> vc_do_view_change_quorum s"
    and adopted: "\<forall>a. adopted = Some a \<longrightarrow> vc_log_view s \<le> av_view a \<and> av_view a \<le> vc_view s"
    and "resume_adopted_view (restore_adopted_view adopted s) = Some s'"
  shows "replica_inv s'"
proof (cases adopted)
  case None
  then show ?thesis
    using assms(1,2,5)
    by (auto simp: resume_adopted_view_def restore_adopted_view_def inv_defs)
next
  case (Some a)
  let ?proven = "if vc_group s = METADATA_GROUP then certified_view s else vc_log_view_proven s"
  let ?t = "s\<lparr>vc_adopted_view := Some a, vc_adopted_view_dirty := False, vc_log_view := av_view a,
      vc_view_log_unproven := True, vc_view_log_unproven_through := - 1, vc_view_log_missing_op := None,
      vc_sequencer := av_op_head a, vc_pending_view_log := Some (merged_log a)\<rparr>"
  have le: "vc_log_view s \<le> av_view a" "av_view a \<le> vc_view s"
    using adopted Some by simp_all
  have t: "replica_inv ?t"
    using assms(1,3) le
    by (simp add: replica_inv_def claims_ok_def votes_ok_def is_primary_elect_def certified_view_def) auto
  have cert: "certified_view (s\<lparr>vc_adopted_view := Some a, vc_adopted_view_dirty := False\<rparr>) = certified_view s"
    by (simp add: certified_view_def)
  consider "av_view a > ?proven" "map_option invalidate_local_dvc_suffix (advance_commit_max (av_commit_max a) ?t) = Some s'"
    | "av_view a \<le> ?proven" "s' = s\<lparr>vc_adopted_view := Some a, vc_adopted_view_dirty := False\<rparr>"
    using assms(5) Some
    by (cases "av_view a > ?proven")
      (auto simp: resume_adopted_view_def restore_adopted_view_def cert Let_def split: if_splits)
  then show ?thesis
  proof cases
    case 1
    then obtain u where "advance_commit_max (av_commit_max a) ?t = Some u" "s' = invalidate_local_dvc_suffix u"
      by auto
    with footprint_good [OF goodD [OF advance_commit_max_good [OF t]] note_footprint(3)] show ?thesis
      by (auto dest: goodD)
  next
    case 2
    then have "av_view a = vc_log_view s"
      using assms(1) le by (auto simp: replica_inv_def claims_ok_def split: if_splits)
    with assms(1-3) show ?thesis
      unfolding 2(2) by (simp add: replica_inv_def claims_ok_def votes_ok_def is_primary_elect_def
        certified_view_def)
  qed
qed

lemma boot_inv:
  assumes "boot seed_from_u64 cluster_id r rcount g depths restore history adopted commits = Some s"
    and ok: "boot_data_ok rcount restore history adopted"
  shows "replica_inv s"
proof -
  obtain p s0 where p: "with_capacities (fst depths) (snd depths) = Some p"
      and s0: "restored seed_from_u64 cluster_id r rcount g p restore = Some s0"
    using assms(1) by (auto simp: boot_def bind_eq_Some_conv)
  define s1 where "s1 = (case history of None \<Rightarrow> s0 | Some (recovery, head, recorded) \<Rightarrow>
      restore_history recovery head recorded s0)"
  obtain s2 where s2: "restore_commit_state (fst commits) (snd commits) (restore_adopted_view adopted s1) = Some s2"
      and s: "resume_adopted_view s2 = Some s"
    using assms(1) p s0 by (auto simp: boot_def bind_eq_Some_conv Let_def s1_def)
  obtain s3 where s3: "restore_commit_state (fst commits) (snd commits) s1 = Some s3" "s2 = restore_adopted_view adopted s3"
    using s2 by (auto simp: restore_commit_state_def restore_adopted_view_def bind_eq_Some_conv)
  note j = restored_joined [OF s0]
  have views: "vc_log_view s0 \<le> vc_view s0" "vc_log_view_proven s0 \<le> vc_log_view s0"
    using j(3,4) ok by (cases "rs_durable_view restore"; fastforce simp: boot_data_ok_def)+
  have i0: "replica_inv s0"
    using joined_inv [OF j(1) fresh_queues [OF p] _ j(2) views] ok by (simp add: boot_data_ok_def)
  have i1: "replica_inv s1"
  proof (cases history)
    case (Some h)
    obtain recovery head recorded where h: "h = (recovery, head, recorded)"
      by (cases h)
    obtain v lv where d: "rs_durable_view restore = Some (v, lv)"
      using ok Some by (auto simp: boot_data_ok_def split: option.splits)
    have "certified_view (restore_history recovery head recorded s0) \<le> vc_log_view s0"
      using restore_history_view [OF ok [unfolded Some h] d] j(3) [OF d] by simp
    then show ?thesis
      using restore_history_inv [OF i0] by (simp add: s1_def Some h)
  qed (simp add: s1_def i0)
  note i3 = commit_state_inv [OF i1 s3(1)]
  have keep: "vc_log_view s3 = vc_log_view s0" "vc_view s3 = vc_view s0" "vc_adopted_view s3 = None"
      "\<not> vc_do_view_change_quorum s3"
    using s3(1) j(1)
    by (auto simp: s1_def restore_commit_state_def restore_history_def invalidate_local_dvc_suffix_def joined_def
      bind_eq_Some_conv Let_def split: option.splits HistoryRecovery.splits)
  have "\<forall>a. adopted = Some a \<longrightarrow> vc_log_view s3 \<le> av_view a \<and> av_view a \<le> vc_view s3"
  proof (intro allI impI)
    fix a
    assume a: "adopted = Some a"
    then obtain v lv where d: "rs_durable_view restore = Some (v, lv)"
      using ok by (auto simp: boot_data_ok_def split: option.splits)
    then have "lv \<le> av_view a" "av_view a \<le> v"
      using ok a by (simp_all add: boot_data_ok_def)
    then show "vc_log_view s3 \<le> av_view a \<and> av_view a \<le> vc_view s3"
      using j(3) [OF d] keep by auto
  qed
  then show ?thesis
    using resume_inv [OF i3 keep(3,4)] s s3(2) by simp
qed

lemma reachable_inv: "reachable xxh3 s \<Longrightarrow> replica_inv s"
  by (induction rule: reachable.induct) (auto intro: boot_inv dest: replica_step_good goodD)

section \<open>A sample replica\<close>

text \<open>The primary of view 3 in a group of three, up to op 6 of its log.\<close>

definition sample_restore :: VsrRestore where
  "sample_restore =
     \<lparr>rs_timers = \<lparr>ct_normal_heartbeat_ticks = 50, ct_commit_message_ticks = 10, ct_prepare_ticks = 5,
        ct_view_change_retransmit_ticks = 5, ct_view_change_status_ticks = 60, ct_request_start_view_ticks = 20,
        ct_probe_attempts_max = 5\<rparr>,
      rs_durable_view = Some (3, 3), rs_view_fallback = None, rs_seed_view = None, rs_incarnation = None,
      rs_join = Init\<rparr>"

definition sample_replica :: "unit VsrConsensus" where
  "sample_replica = the (boot (\<lambda>_. ()) 1 0 3 5 (8, 8) sample_restore None None (2, 6))"

lemma sample_boot: "boot (\<lambda>_. ()) 1 0 3 5 (8, 8) sample_restore None None (2, 6) = Some sample_replica"
  unfolding sample_replica_def by code_simp

lemma sample_data_ok: "boot_data_ok 3 sample_restore None None"
  by code_simp

lemma sample_reachable: "reachable xxh3 sample_replica"
  by (rule booted [OF sample_boot sample_data_ok])

end
