(* ===== verification/Vsr_Safety.thy ===== *)
theory Vsr_Safety
  imports Vsr_Boot
begin

text \<open>
  What the invariant of a replica gives its callers: numbers that never go down along a run, and
  claims that survive a crash.
\<close>

section \<open>Every reachable state\<close>

lemma claim_bound:
  assumes "replica_inv s"
  shows "log_view_claim s \<le> vc_log_view s"
  using assms by (auto simp: log_view_claim_def replica_inv_def claims_ok_def Let_def split: option.splits)



lemma run_good: "(replica_step xxh3)\<^sup>*\<^sup>* s s' \<Longrightarrow> replica_inv s \<Longrightarrow> good s s'"
  by (induction rule: rtranclp_induct) (auto intro: good_refl good_trans dest: replica_step_good goodD)



section \<open>Crash and restart\<close>

lemma boot_claim:
  assumes "boot seed_from_u64 cluster_id r rcount g depths restore None adopted commits = Some t"
    and "rs_durable_view restore = Some (v, lv)" and "g \<noteq> METADATA_GROUP"
  shows "log_view_claim t = (case adopted of None \<Rightarrow> lv | Some a \<Rightarrow> max lv (av_view a))" and "v \<le> vc_view t"
    and "rs_view_fallback restore = None \<or> lv \<noteq> 0 \<Longrightarrow> vc_view t = v"
proof -
  obtain p s0 where s0: "restored seed_from_u64 cluster_id r rcount g p restore = Some s0"
    and rest: "restore_commit_state (fst commits) (snd commits) (restore_adopted_view adopted s0) \<bind> resume_adopted_view = Some t"
    using assms(1) by (auto simp: boot_def bind_eq_Some_conv)
  note j = restored_joined [OF s0]
  have s0': "vc_group s0 = g" "\<not> vc_view_log_unproven s0" "v \<le> vc_view s0" "vc_log_view s0 = lv" "vc_log_view_proven s0 = lv"
    using j(1) j(3) [OF assms(2)] assms(3) by (simp_all add: joined_def)
  define s1 where "s1 = s0\<lparr>vc_adopted_view := adopted, vc_adopted_view_dirty := False, vc_commit_max := snd commits,
      vc_commit_min := fst commits\<rparr>"
  have resume: "resume_adopted_view s1 = Some t"
    using rest by (auto simp: s1_def restore_commit_state_def restore_adopted_view_def bind_eq_Some_conv)
  have t: "log_view_claim t = (case adopted of None \<Rightarrow> lv | Some a \<Rightarrow> max lv (av_view a)) \<and> vc_view t = vc_view s0"
  proof (cases adopted)
    case None
    then show ?thesis
      using resume s0' assms(3) by (auto simp: resume_adopted_view_def s1_def log_view_claim_def)
  next
    case (Some a)
    let ?u = "s1\<lparr>vc_log_view := av_view a, vc_view_log_unproven := True, vc_view_log_unproven_through := - 1,
      vc_view_log_missing_op := None, vc_sequencer := av_op_head a, vc_pending_view_log := Some (merged_log a)\<rparr>"
    show ?thesis
    proof (cases "av_view a > lv")
      case True
      then obtain x where x: "advance_commit_max (av_commit_max a) ?u = Some x" "t = invalidate_local_dvc_suffix x"
        using resume s0' assms(3) Some by (auto simp: resume_adopted_view_def s1_def)
      obtain m where "x = ?u\<lparr>vc_commit_max := max (av_commit_max a) (vc_commit_max ?u), vc_timeouts := m\<rparr>"
        using advance_commit_max_keeps [OF x(1)] by blast
      then show ?thesis
        using x(2) s0' assms(3) Some by (simp add: invalidate_local_dvc_suffix_def log_view_claim_def s1_def)
    next
      case False
      then have "t = s1"
        using resume s0' assms(3) Some by (auto simp: resume_adopted_view_def s1_def)
      then show ?thesis
        using s0' assms(3) Some by (simp add: log_view_claim_def s1_def)
    qed
  qed
  then show "log_view_claim t = (case adopted of None \<Rightarrow> lv | Some a \<Rightarrow> max lv (av_view a))" "v \<le> vc_view t"
    "rs_view_fallback restore = None \<or> lv \<noteq> 0 \<Longrightarrow> vc_view t = v"
    using s0'(3) j(5) [OF assms(2)] by simp_all
qed

lemma vsr_state_views:
  "vs_view (vsr_state op c s) = vc_view s" "vs_log_view (vsr_state op c s) = persisted_log_view s"
  "vs_adopted_view (vsr_state op c s) = vc_adopted_view s" "vs_replica_count (vsr_state op c s) = vc_replica_count s"
  "vs_replica_id (vsr_state op c s) = vc_replica s"
  by (simp_all add: vsr_state_def with_history_certificate_def split: option.splits)



end
