(* ===== verification/Vsr_Commit.thy ===== *)
theory Vsr_Commit
  imports Vsr_Boot
begin

text \<open>
  When a replica may advance its commit point, and what pushing and rolling back a prepare do.
\<close>

section \<open>Commits\<close>

lemma above_word: "(c :: u64) < op \<Longrightarrow> op = c + 1 \<or> c + 1 < op"
proof -
  assume "c < op"
  then have "c \<noteq> - 1"
    using word_order.extremum_strict by auto
  from unat_add_one [OF this] \<open>c < op\<close> show ?thesis
    by (auto simp: word_less_nat_alt word_unat_eq_iff)
qed

lemma next_index:
  assumes "message_by_op p op = Some e" and "message_by_op p (op + 1) = Some e'" and "length (lp_prepare_queue p) < 2 ^ 64"
  shows "unat (op + 1 - ph_op (pe_header (hd (lp_prepare_queue p)))) =
    Suc (unat (op - ph_op (pe_header (hd (lp_prepare_queue p)))))"
proof -
  let ?h = "ph_op (pe_header (hd (lp_prepare_queue p)))"
  have "unat (op - ?h) < length (lp_prepare_queue p)"
    using assms(1) by (cases "lp_prepare_queue p") (auto simp: message_by_op_def get_at_eq_Some split: if_splits)
  with assms(3) have "op - ?h \<noteq> - 1"
    by (auto simp: unat_max_word)
  from unat_add_one [OF this] show ?thesis
    by (simp add: algebra_simps)
qed

text \<open>The walk returns, because it moves along the queue, and it passes only ops marked with a quorum.\<close>

definition quorum_run :: "LocalPipeline \<Rightarrow> u64 \<Rightarrow> u64 \<Rightarrow> bool" where
  "quorum_run p c c' \<longleftrightarrow>
     (\<forall>op. c < op \<and> op \<le> c' \<longrightarrow> (\<exists>e \<in> set (lp_prepare_queue p). ph_op (pe_header e) = op \<and> pe_ok_quorum_received e))"

lemma quorum_run_refl: "quorum_run p c c"
  by (auto simp: quorum_run_def)

lemma quorum_run_step:
  assumes "quorum_run p (c + 1) c'" and "pipeline_verify p" and "message_by_op p (c + 1) = Some e"
    and "pe_ok_quorum_received e"
  shows "quorum_run p c c'"
  using assms local_pipeline.by_op_sound [OF assms(2,3)] above_word unfolding quorum_run_def by metis

lemma quorum_walk_run:
  assumes "length (lp_prepare_queue p) < 2 ^ 64" and "pipeline_verify p"
  shows "\<exists>c'. quorum_walk p c = Some c' \<and> quorum_run p c c'"
proof (induction "length (lp_prepare_queue p) - unat (c + 1 - ph_op (pe_header (hd (lp_prepare_queue p))))"
    arbitrary: c rule: less_induct)
  case less
  let ?h = "ph_op (pe_header (hd (lp_prepare_queue p)))"
  show ?case
  proof (cases "message_by_op p (c + 1)")
    case None
    then show ?thesis
      by (subst quorum_walk.simps) (simp add: quorum_run_refl)
  next
    case found: (Some e)
    have "\<exists>c'. quorum_walk p (c + 1) = Some c' \<and> quorum_run p (c + 1) c'"
    proof (cases "message_by_op p (c + 1 + 1)")
      case None
      then show ?thesis
        by (subst quorum_walk.simps) (simp add: quorum_run_refl)
    next
      case (Some e')
      have "unat (c + 1 - ?h) < length (lp_prepare_queue p)"
        using found by (cases "lp_prepare_queue p") (auto simp: message_by_op_def get_at_eq_Some split: if_splits)
      with next_index [OF found Some assms(1)]
      have "length (lp_prepare_queue p) - unat (c + 1 + 1 - ?h) < length (lp_prepare_queue p) - unat (c + 1 - ?h)"
        by simp
      then show ?thesis
        by (rule less)
    qed
    with quorum_run_step [OF _ assms(2) found] found quorum_run_refl [of p c] show ?thesis
      by (subst quorum_walk.simps) auto
  qed
qed

lemma handle_prepare_ok_total:
  assumes "fr_command ack = CmdPrepareOk" and "fr_replica ack < vc_replica_count s"
  shows "\<exists>outcome t. handle_prepare_ok ack s = Some (outcome, t)"
  using assms by (simp add: handle_prepare_ok_def assert_that_def)

lemma handle_prepare_ok_commit: "handle_prepare_ok ack s = Some (outcome, t) \<Longrightarrow> vc_commit_max t = vc_commit_max s"
  by (auto simp: handle_prepare_ok_def note_backup_ack_def Let_def bind_eq_Some_conv split: if_splits option.splits prod.splits)

text \<open>
  C3. An acknowledgement always comes back with a verdict, and the commit point moves only over ops
  in the pipeline that a replication quorum of distinct members has acknowledged; it moves exactly
  when the verdict says so.
\<close>

theorem commit_needs_quorum:
  assumes "replica_inv s" and "fr_command ack = CmdPrepareOk" and "fr_replica ack < vc_replica_count s"
  shows "\<exists>advanced s'. ack_quorum_reached ack s = Some (advanced, s') \<and>
    (advanced \<longleftrightarrow> vc_commit_max s < vc_commit_max s') \<and>
    (\<forall>op. vc_commit_max s < op \<and> op \<le> vc_commit_max s' \<longrightarrow>
      (\<exists>e \<in> set (lp_prepare_queue (vc_pipeline s')). ph_op (pe_header e) = op \<and>
        pe_ok_from_replicas e \<subseteq> {..<unat (vc_replica_count s)} \<and>
        quorum_replication (vc_replica_count s) \<le> card (pe_ok_from_replicas e)))"
proof -
  obtain outcome t where t: "handle_prepare_ok ack s = Some (outcome, t)"
    using handle_prepare_ok_total [OF assms(2,3)] by blast
  note g = handle_prepare_ok_good [OF assms(1) t] and c = handle_prepare_ok_commit [OF t]
  have q: "queues_ok (vc_replica_count s) (vc_pipeline t)" and n: "vc_replica_count t = vc_replica_count s"
    using replica_inv_queues [OF goodD [OF g]] g by (simp_all add: good_def)
  then have verify: "pipeline_verify (vc_pipeline t)" "length (lp_prepare_queue (vc_pipeline t)) < 2 ^ 64"
    by (auto simp: queues_ok_def pipeline_verify_linked DVC_HEADERS_MAX_def)
  obtain c' where walk: "quorum_walk (vc_pipeline t) (vc_commit_max t) = Some c'"
      and run: "quorum_run (vc_pipeline t) (vc_commit_max t) c'"
    using quorum_walk_run [OF verify(2,1)] by blast
  obtain u where u: "advance_commit_max c' t = Some u"
    using advance_commit_max_total goodD [OF g] by (metis replica_inv_def)
  have u': "vc_commit_max u = max c' (vc_commit_max t)" "vc_pipeline u = vc_pipeline t"
    using advance_commit_max_keeps [OF u] by auto
  have "\<exists>e \<in> set (lp_prepare_queue (vc_pipeline t)). ph_op (pe_header e) = op \<and>
        pe_ok_from_replicas e \<subseteq> {..<unat (vc_replica_count s)} \<and>
        quorum_replication (vc_replica_count s) \<le> card (pe_ok_from_replicas e)"
    if "vc_commit_max s < op" "op \<le> c'" for op
    using run q that c by (fastforce simp: quorum_run_def queues_ok_def acks_ok_def)
  moreover have "ack_quorum_reached ack s =
      (if quorum_reached outcome \<and> vc_commit_max t < c' then Some (True, u) else Some (False, t))"
    using t walk u by (auto simp: ack_quorum_reached_def)
  ultimately show ?thesis
    using c u' by (auto simp: max_def)
qed

declare quorum_walk.simps [code]

definition sample_primary :: "unit VsrConsensus" where
  "sample_primary = sample_replica\<lparr>vc_sequencer := 7, vc_pipeline := (vc_pipeline sample_replica)\<lparr>lp_prepare_queue :=
     [(pipeline_entry (sample_header 7 66 77))\<lparr>pe_ok_from_replicas := {0}\<rparr>]\<rparr>\<rparr>"

definition sample_ack :: PrepareOkHeader where
  "sample_ack = default_PrepareOkHeader\<lparr>fr_command := CmdPrepareOk, fr_replica := 1, fr_view := 3, po_op := 7,
     po_prepare_checksum := 77\<rparr>"

theorem commit_needs_quorum_witness:
  "\<exists>s'. ack_quorum_reached sample_ack sample_primary = Some (True, s') \<and> vc_commit_max s' = 7 \<and>
     (\<exists>e \<in> set (lp_prepare_queue (vc_pipeline s')). ph_op (pe_header e) = 7 \<and> 2 \<le> card (pe_ok_from_replicas e))"
proof -
  have "replica_inv sample_primary"
    by code_simp
  moreover have "fr_command sample_ack = CmdPrepareOk" "fr_replica sample_ack < vc_replica_count sample_primary"
    by code_simp+
  ultimately obtain b s' where s': "ack_quorum_reached sample_ack sample_primary = Some (b, s')"
      "b \<longleftrightarrow> vc_commit_max sample_primary < vc_commit_max s'"
    and ops: "\<And>op. vc_commit_max sample_primary < op \<and> op \<le> vc_commit_max s' \<Longrightarrow>
      \<exists>e \<in> set (lp_prepare_queue (vc_pipeline s')). ph_op (pe_header e) = op \<and>
        quorum_replication (vc_replica_count sample_primary) \<le> card (pe_ok_from_replicas e)"
    using commit_needs_quorum [of sample_primary sample_ack] by blast
  have "map_option (\<lambda>(b, s). (b, vc_commit_max s)) (ack_quorum_reached sample_ack sample_primary) = Some (True, 7)"
    by code_simp
  then have "b" "vc_commit_max s' = 7"
    using s'(1) by simp_all
  moreover have "vc_commit_max sample_primary < 7" "quorum_replication (vc_replica_count sample_primary) = 2"
    by code_simp+
  ultimately show ?thesis
    using s' ops [of 7] by auto
qed

section \<open>Undoing a push\<close>

lemma ticking_edge:
  "tm_is_ticking (tm_start k m) k" "\<not> tm_is_ticking (tm_stop k m) k"
  by (simp_all add: manager_simps tm_is_ticking_def timeout_start_def timeout_stop_def)

lemma pushed_entry:
  assumes "push_prepare e p = Some p'"
  shows "remove_prepare_tail (ph_op (pe_header e)) (fr_checksum (pe_header e)) p' = (Some e, p)"
  using assms by (auto simp: push_prepare_eq remove_prepare_tail_def last_opt_def)

text \<open>The state after a push, with the timers and the observed timestamp left open.\<close>

lemma pushed_state:
  assumes "pipeline_message_with_order header sender order s = Some t"
  obtains e p m where "pe_header e = header" "push_prepare e (vc_pipeline s) = Some p" "is_primary s"
    "t = s\<lparr>vc_pipeline := p, vc_sequencer := ph_op header, vc_last_prepare_checksum := fr_checksum header,
      vc_last_timestamp := max (ph_timestamp header) (vc_last_timestamp s), vc_timeouts := m\<rparr>"
proof -
  define e where "e = (case sender of None \<Rightarrow> pipeline_entry header | Some ch \<Rightarrow> entry_with_sender header ch)
      \<lparr>pe_local_order := order\<rparr>"
  have e: "pe_header e = header"
    by (simp add: e_def pipeline_entry_def entry_with_sender_def split: option.splits)
  have push: "push_prepare_entry header e s = Some t"
    using assms by (simp add: pipeline_message_with_order_def e_def Let_def)
  then obtain p where p: "push_prepare e (vc_pipeline s) = Some p" "is_primary s"
    by (auto simp: push_prepare_entry_def bind_eq_Some_conv)
  have "t = s\<lparr>vc_pipeline := p, vc_sequencer := ph_op header, vc_last_prepare_checksum := fr_checksum header,
      vc_last_timestamp := max (ph_timestamp header) (vc_last_timestamp s), vc_timeouts := vc_timeouts t\<rparr>"
    using push p
    by (auto simp: push_prepare_entry_def observe_prepare_timestamp_def start_timeout_def bind_eq_Some_conv Let_def max_def
      split: if_splits)
  then show thesis
    by (rule that [OF e p])
qed

text \<open>
  C40. Rolling back the prepare just pushed gives the primary its state back: queue, op number and
  checksum of the previous prepare are as before the push. Only the highest observed timestamp and
  the timers may differ, and the prepare timer runs exactly if work is left.
\<close>

theorem rollback_undoes_push:
  assumes "pipeline_message_with_order header sender order s = Some t"
    and "vc_status s = Normal" and "fr_view header = vc_view s"
    and "ph_op header = vc_sequencer s + 1" and "vc_sequencer s \<noteq> - 1" and "ph_parent header = vc_last_prepare_checksum s"
  shows "\<exists>u. rollback_pipelined_prepare header t = (Unwound, u) \<and>
    u = s\<lparr>vc_last_timestamp := vc_last_timestamp u, vc_timeouts := vc_timeouts u\<rparr> \<and>
    vc_last_timestamp u = max (ph_timestamp header) (vc_last_timestamp s) \<and>
    tm_is_ticking (vc_timeouts u) Prepare = (\<not> pipeline_is_empty (vc_pipeline s))"
proof -
  obtain e p m where e: "pe_header e = header" and p: "push_prepare e (vc_pipeline s) = Some p" and "is_primary s"
    and t: "t = s\<lparr>vc_pipeline := p, vc_sequencer := ph_op header, vc_last_prepare_checksum := fr_checksum header,
      vc_last_timestamp := max (ph_timestamp header) (vc_last_timestamp s), vc_timeouts := m\<rparr>"
    using assms(1) by (rule pushed_state)
  have op: "saturating_sub (ph_op header) 1 = vc_sequencer s"
    using unat_add_one [OF assms(5)] by (simp add: assms(4) saturating_sub_def word_le_nat_alt)
  have "is_primary t"
    using \<open>is_primary s\<close> by (simp add: t is_primary_def primary_index_def)
  then have "rollback_pipelined_prepare header t = (Unwound, sync_prepare_timeout
      (s\<lparr>vc_last_timestamp := max (ph_timestamp header) (vc_last_timestamp s), vc_timeouts := m\<rparr>))"
    using assms(2,3) pushed_entry [OF p, unfolded e]
    by (simp add: rollback_pipelined_prepare_def t op assms(6))
  then show ?thesis
    by (auto simp: sync_prepare_timeout_def start_timeout_def stop_timeout_def ticking_edge)
qed

theorem rollback_undoes_push_witness:
  "\<exists>t u. pipeline_message_with_order ((sample_header 1 0 11)\<lparr>fr_view := 3\<rparr>) None None sample_replica = Some t \<and>
     vc_sequencer t = 1 \<and> rollback_pipelined_prepare ((sample_header 1 0 11)\<lparr>fr_view := 3\<rparr>) t = (Unwound, u) \<and>
     vc_sequencer u = 0"
proof -
  let ?h = "(sample_header 1 0 11)\<lparr>fr_view := 3\<rparr>"
  let ?t = "the (pipeline_message_with_order ?h None None sample_replica)"
  have t: "pipeline_message_with_order ?h None None sample_replica = Some ?t"
    by code_simp
  have at: "vc_status sample_replica = Normal" "fr_view ?h = vc_view sample_replica"
    "ph_op ?h = vc_sequencer sample_replica + 1" "vc_sequencer sample_replica \<noteq> - 1"
    "ph_parent ?h = vc_last_prepare_checksum sample_replica" "vc_sequencer sample_replica = 0" "vc_sequencer ?t = 1"
    by code_simp+
  from rollback_undoes_push [OF t at(1-5)] obtain u where u: "rollback_pipelined_prepare ?h ?t = (Unwound, u)"
      "u = sample_replica\<lparr>vc_last_timestamp := vc_last_timestamp u, vc_timeouts := vc_timeouts u\<rparr>"
    by blast
  from arg_cong [OF u(2), of vc_sequencer] have "vc_sequencer u = 0"
    by (simp add: at(6))
  with t at(7) u(1) show ?thesis
    by blast
qed

end
