(* ===== verification/Vsr_Adopt.thy ===== *)
theory Vsr_Adopt
  imports Vsr_Boot
begin

text \<open>
  What a \<open>StartView\<close> does to a replica.
\<close>

section \<open>Adopting a view\<close>

text \<open>An adopted log contradicts nothing that was applied, and its head covers every commit known here.\<close>

definition adoption_safe ::
    "(u64 \<Rightarrow> PrepareHeader option) \<Rightarrow> StartViewHeader \<Rightarrow> 'g VsrConsensus \<Rightarrow> 'g VsrConsensus \<Rightarrow> bool" where
  "adoption_safe applied_at header s s' \<longleftrightarrow>
     vc_view s' = fr_view header \<and> vc_status s' = Normal \<and>
     primary_index s' (vc_view s') = fr_replica header \<and> fr_replica header \<noteq> vc_replica s' \<and>
     vc_commit_max s \<le> vc_commit_max s' \<and> vc_commit_max s' \<le> vc_sequencer s' \<and>
     (case vc_adopted_view s' of
        None \<Rightarrow> False
      | Some a \<Rightarrow> av_view a = vc_log_view s' \<and> av_op_head a = vc_sequencer s' \<and>
          (\<forall>h \<in> set (av_headers a). \<not> contradicts applied_at (vc_commit_min s') h))"

lemma adopt_safe:
  assumes "adopts header adopted s s'" and "vc_commit_max s \<le> stv_op header"
    and "primary_index s (fr_view header) = fr_replica header" and "fr_replica header \<noteq> vc_replica s"
    and "validate_adopted xxh3 adopted (vc_cluster s) (fr_view header) = Some (Ok ())"
    and "av_view adopted = fr_view header" "av_op_head adopted = stv_op header" "av_commit_max adopted = stv_commit header"
    and "\<not> list_ex (contradicts applied_at (vc_commit_min s)) (av_headers adopted)"
  shows "adoption_safe applied_at header s s'"
proof -
  have "stv_commit header \<le> stv_op header"
    using assms(5,7,8) by (simp add: validate_adopted_def split: if_splits)
  with assms show ?thesis
    by (auto simp: adoption_safe_def adopts_def primary_index_def list_ex_iff)
qed

text \<open>
  C6. What a \<open>StartView\<close> can do to a replica. Evidence that does not decode or validate changes
  nothing. A log that contradicts an op this replica applied is refused, names such an op, and only
  counts the contradiction. Otherwise the replica stays as it is, learns a newer commit point of the
  view it already follows, or adopts the view of another member that leads it; the adopted head
  covers every commit the replica knows, and no adopted entry contradicts an applied op.
\<close>

theorem start_view_outcomes:
  assumes "try_handle_start_view xxh3 header body applied_at s = Some (r, s')"
  shows "case r of
      Inl InvalidEvidence \<Rightarrow> s' = s
    | Inl (ContradictsAppliedLog log) \<Rightarrow>
        (\<exists>h \<in> set (ml_headers log). contradicts applied_at (vc_commit_min s) h) \<and>
        s' = s\<lparr>vc_applied_log_contradictions := vc_applied_log_contradictions s',
              vc_contradiction_reported_view := vc_contradiction_reported_view s'\<rparr>
    | Inr actions \<Rightarrow>
        s' = s \<or>
        (fr_view header = vc_log_view s \<and> vc_commit_max s < stv_commit header \<and>
         s' = s\<lparr>vc_commit_max := stv_commit header, vc_timeouts := vc_timeouts s'\<rparr>) \<or>
        adoption_safe applied_at header s s'"
  using assms
proof (cases rule: start_view_cases)
  case commit
  obtain m where "s' = s\<lparr>vc_commit_max := max (stv_commit header) (vc_commit_max s), vc_timeouts := m\<rparr>"
    using advance_commit_max_keeps [OF commit(5)] by blast
  with commit show ?thesis
    by (simp add: max_def)
next
  case (conflict suffix)
  have "s' = s\<lparr>vc_applied_log_contradictions := vc_applied_log_contradictions s',
              vc_contradiction_reported_view := vc_contradiction_reported_view s'\<rparr>"
    unfolding conflict(4) by (simp add: contradicts_applied_log_def)
  with conflict show ?thesis
    by (simp add: list_ex_iff)
next
  case (adopt suffix adopted a)
  from adopt_safe [OF adopt_start_view_adopts [OF adopt(10)] adopt(2-4,7)] adopt(6,8,9) show ?thesis
    by simp
qed simp_all

definition sample_start_view :: StartViewHeader where
  "sample_start_view =
     \<lparr>fr_checksum = 0, fr_checksum_body = 0, fr_cluster = 1, fr_size = 256, fr_view = 4, fr_release = 0,
      fr_command = CmdStartView, fr_replica = 1, fr_reserved_frame = replicate 66 0, stv_op = 6,
      stv_commit = 6, stv_group = 5, stv_partition_incarnation = 0, stv_reserved = [], stv_incarnation = 0\<rparr>"

theorem start_view_outcomes_witness:
  "\<exists>s' actions. try_handle_start_view (\<lambda>_. 0) sample_start_view [] (\<lambda>_. None) sample_replica = Some (Ok actions, s') \<and>
     adoption_safe (\<lambda>_. None) sample_start_view sample_replica s' \<and> vc_view s' = 4"
proof -
  have "map_option (\<lambda>(r, s). (\<not> isl r, vc_view s)) (try_handle_start_view (\<lambda>_. 0) sample_start_view [] (\<lambda>_. None)
      sample_replica) = Some (True, 4)"
    by code_simp
  then obtain r s' where r: "try_handle_start_view (\<lambda>_. 0) sample_start_view [] (\<lambda>_. None) sample_replica =
      Some (r, s')" "\<not> isl r" "vc_view s' = 4"
    by auto
  then obtain actions where s': "try_handle_start_view (\<lambda>_. 0) sample_start_view [] (\<lambda>_. None) sample_replica =
      Some (Ok actions, s')"
    by (cases r) auto
  have "vc_view sample_replica \<noteq> 4" "fr_view sample_start_view \<noteq> vc_log_view sample_replica"
    by code_simp+
  with s' r(3) start_view_outcomes [OF s'] show ?thesis
    by auto
qed

section \<open>From the votes to the new view\<close>

lemma observe_foldl_keeps:
  "vc_sequencer (foldl (\<lambda>s h. observe_prepare_timestamp (ph_timestamp h) s) s hs) = vc_sequencer s"
  "vc_view (foldl (\<lambda>s h. observe_prepare_timestamp (ph_timestamp h) s) s hs) = vc_view s"
  "vc_group (foldl (\<lambda>s h. observe_prepare_timestamp (ph_timestamp h) s) s hs) = vc_group s"
  using observe_foldl [of s hs] by auto

lemma start_pending_keeps:
  assumes "is_primary_elect s" and "vc_pending_view_log s = Some merged"
  shows "vc_sequencer (snd (start_pending_view s)) = ml_op_head merged"
    and "hd (fst (start_pending_view s)) =
      SendStartView (vc_view s) (ml_op_head merged) (ml_commit_max merged) 0 None (vc_group s) (ml_headers merged)"
    and "fst (start_pending_view s) \<noteq> []"
  using assms
  by (simp_all add: start_pending_view_def Let_def observe_foldl_keeps certify_view_log_def start_timeout_def
    stop_timeout_def redecide_recovery_barrier_def invalidate_local_dvc_suffix_def split: option.splits)

lemma start_pending_status:
  assumes "is_primary_elect s" and "vc_pending_view_log s = Some merged"
  shows "vc_status (snd (start_pending_view s)) = Normal" and "vc_view (snd (start_pending_view s)) = vc_view s"
    and "vc_log_view (snd (start_pending_view s)) = vc_view s"
    and "vc_commit_max (snd (start_pending_view s)) = vc_commit_max s"
  using start_pending_footprint [OF assms]
  by (simp_all add: footprint_def started_def certify_view_log_def split: if_splits)

lemma park_log_elect:
  assumes "vc_do_view_change_quorum s"
  shows "is_primary_elect (park_log log s)" and "vc_pending_view_log (park_log log s) = Some log"
    and "vc_view (park_log log s) = vc_view s" and "vc_group (park_log log s) = vc_group s"
    and "vc_commit_max (park_log log s) = vc_commit_max s"
  using assms by (simp_all add: park_log_def is_primary_elect_def view_log_is_pending_def reopen_view_log_proof_def
    mark_view_log_unproven_def Let_def)

lemma parked_log:
  assumes "complete_view_change_as_primary s = Some s'" and "vc_pending_view_log s = None"
    and "vc_pending_view_log s' = Some log"
  shows "merge_view_change (vc_do_view_change_from_all_replicas s) (merge_quorums (vc_replica_count s)) = Some (Ready log)"
    and "is_primary_elect s'" and "vc_view s' = vc_view s" and "vc_group s' = vc_group s"
    and "vc_commit_max s' = max (ml_commit_max log) (vc_commit_max s)"
proof -
  obtain t where merged: "merge_view_change (vc_do_view_change_from_all_replicas s) (merge_quorums (vc_replica_count s)) =
      Some (Ready log)" and t: "advance_commit_max (ml_commit_max log) (s\<lparr>vc_do_view_change_quorum := True\<rparr>) = Some t"
      and s': "s' = park_log log t"
    using assms(1)
  proof (cases rule: complete_cases)
    case (2 merged t)
    moreover have "merged = log"
      using assms(3)
      by (simp add: 2(3) park_log_def reopen_view_log_proof_def mark_view_log_unproven_def Let_def split: if_splits)
    ultimately show ?thesis
      using that by blast
  qed (use assms(2,3) in simp)
  obtain m where m: "t = s\<lparr>vc_do_view_change_quorum := True, vc_commit_max := max (ml_commit_max log) (vc_commit_max s),
      vc_timeouts := m\<rparr>"
    using advance_commit_max_keeps [OF t] by auto
  show "merge_view_change (vc_do_view_change_from_all_replicas s) (merge_quorums (vc_replica_count s)) = Some (Ready log)"
    "is_primary_elect s'" "vc_view s' = vc_view s" "vc_group s' = vc_group s"
    "vc_commit_max s' = max (ml_commit_max log) (vc_commit_max s)"
    using merged park_log_elect [of t log] by (simp_all add: s' m)
qed


definition sample_candidate :: "unit VsrConsensus" where
  "sample_candidate = sample_replica\<lparr>vc_status := ViewChange, vc_commit_min := 0, vc_commit_max := 1,
     vc_do_view_change_from_all_replicas := sample_votes\<rparr>"

lemma sample_candidate_parts [simp]:
  "vc_do_view_change_from_all_replicas sample_candidate = sample_votes" "vc_replica_count sample_candidate = 3"
  by code_simp+


end
