(* ===== verification/Vsr_Liveness.thy ===== *)
theory Vsr_Liveness
  imports Vsr_Boot
begin

text \<open>
  Progress when a primary falls silent: a backup waits out its heartbeat timer, no shorter and no
  longer, and then starts an election.
\<close>

section \<open>Ticks without messages\<close>

fun ticks :: "(u64 \<Rightarrow> 'g \<Rightarrow> u64 \<times> 'g) \<Rightarrow> nat \<Rightarrow> 'g VsrConsensus \<Rightarrow> (VsrAction list \<times> 'g VsrConsensus) option" where
  "ticks random_range 0 s = Some ([], s)"
| "ticks random_range (Suc n) s =
     do {
       (actions, s) \<leftarrow> tick random_range s;
       (more, s) \<leftarrow> ticks random_range n s;
       Some (actions @ more, s)
     }"

lemma tick_idle:
  assumes "\<And>k. \<not> tm_fired (tm_tick (vc_timeouts s)) k" and "\<not> vc_eager_commit s"
  shows "tick random_range s = Some ([], s\<lparr>vc_timeouts := tm_tick (vc_timeouts s)\<rparr>)"
  using assms by (simp add: tick_def tick_with_history_fence_def on_fired_def commit_phase_def Let_def)

lemma tick_elects:
  assumes "tm_fired (tm_tick (vc_timeouts s)) NormalHeartbeat"
    and "handle_normal_heartbeat_timeout (s\<lparr>vc_timeouts := tm_tick (vc_timeouts s)\<rparr>) = (actions, t)"
    and "\<And>k. \<not> tm_fired (vc_timeouts t) k" and "\<not> vc_eager_commit t"
  shows "tick random_range s = Some (actions, t)"
  using assms by (simp add: tick_def tick_with_history_fence_def on_fired_def commit_phase_def Let_def)

section \<open>A backup that waits\<close>

text \<open>
  A backup in normal operation, or a former primary that ceded, with nothing but the heartbeat timer
  running and no sign of a newer view; the timers an election starts have a positive duration.
\<close>

definition waiting :: "'g VsrConsensus \<Rightarrow> bool" where
  "waiting s \<longleftrightarrow>
     vc_status s = Normal \<and> \<not> (is_primary s \<and> \<not> vc_ceded_primaryship s) \<and> vc_observed_newer_view s \<le> vc_view s \<and>
     \<not> vc_eager_commit s \<and> list_all (\<lambda>k. tm_is_ticking (vc_timeouts s) k = (k = NormalHeartbeat))
       [Prepare, CommitMessage, NormalHeartbeat, StartViewChangeMessage, ViewChangeStatus, DoViewChangeMessage,
        RequestStartViewMessage] \<and>
     list_all (\<lambda>k. after (tm_get (vc_timeouts s) k) \<noteq> 0)
       [StartViewChangeMessage, ViewChangeStatus, RequestStartViewMessage]"

lemma waiting_ticking: "waiting s \<Longrightarrow> tm_is_ticking (vc_timeouts s) k = (k = NormalHeartbeat)"
  by (cases k) (simp_all add: waiting_def)

lemma waiting_fired:
  assumes "waiting s"
  shows "tm_fired (tm_tick (vc_timeouts s)) k \<longleftrightarrow>
    k = NormalHeartbeat \<and> unat (ticks_remaining (tm_get (vc_timeouts s) NormalHeartbeat)) \<le> 1"
  using waiting_ticking [OF assms, of k] fired_after_ticks [of 1 "tm_get (vc_timeouts s) k"]
  by (auto simp: tm_fired_def tm_get_tick tm_is_ticking_def)

lemma waiting_tick: "waiting s \<Longrightarrow> waiting (s\<lparr>vc_timeouts := tm_tick (vc_timeouts s)\<rparr>)"
  by (simp add: waiting_def is_primary_def primary_index_def tm_is_ticking_def tm_get_tick timeout_tick_def)

lemma enter_view_change_timers:
  "vc_timeouts (snd (enter_view_change v s)) =
     tm_start RequestStartViewMessage (tm_start ViewChangeStatus (tm_start StartViewChangeMessage
       (tm_stop NormalHeartbeat (vc_timeouts s))))"
  "vc_eager_commit (snd (enter_view_change v s)) = vc_eager_commit s"
  "vc_status (snd (enter_view_change v s)) = ViewChange"
  "fst (enter_view_change v s) = [SendStartViewChange v (vc_group s)]"
  by (simp_all add: enter_view_change_def reset_view_change_state_def reset_dvc_quorum_def
    unprove_superseded_merge_def reopen_view_log_proof_def mark_view_log_unproven_def start_timeout_def
    stop_timeout_def Let_def)

text \<open>The timers of a fresh election do not fire in the tick that starts it.\<close>

lemma election_quiet:
  assumes "waiting s"
  shows "\<not> tm_fired (vc_timeouts (snd (enter_view_change v s))) k"
  using assms waiting_ticking [OF assms, of k]
  by (cases k) (simp_all add: enter_view_change_timers manager_simps tm_is_ticking_def timeout_fired_def
    timeout_start_def timeout_stop_def waiting_def)

lemma last_tick:
  assumes "waiting s" and "unat (ticks_remaining (tm_get (vc_timeouts s) NormalHeartbeat)) = 1"
  shows "\<exists>t. tick random_range s = Some ([SendStartViewChange (vc_view s + 1) (vc_group s)], t) \<and>
    vc_status t = ViewChange \<and> vc_view t = vc_view s + 1"
proof -
  let ?u = "s\<lparr>vc_timeouts := tm_tick (vc_timeouts s)\<rparr>"
  let ?t = "snd (enter_view_change (vc_view s + 1) ?u)"
  note u = waiting_tick [OF assms(1)]
  have "handle_normal_heartbeat_timeout ?u = enter_view_change (vc_view s + 1) ?u"
    using u by (auto simp: handle_normal_heartbeat_timeout_def start_election_def waiting_def)
  then have "handle_normal_heartbeat_timeout ?u = ([SendStartViewChange (vc_view s + 1) (vc_group s)], ?t)"
    by (simp add: prod_eq_iff enter_view_change_timers)
  moreover have "\<not> vc_eager_commit ?t"
    using u by (simp add: enter_view_change_timers waiting_def)
  ultimately have "tick random_range s = Some ([SendStartViewChange (vc_view s + 1) (vc_group s)], ?t)"
    using tick_elects [of s] waiting_fired [OF assms(1), of NormalHeartbeat] assms(2) election_quiet [OF u] by simp
  then show ?thesis
    by (auto simp: enter_view_change_timers)
qed

lemma early_tick:
  assumes "waiting s" and "unat (ticks_remaining (tm_get (vc_timeouts s) NormalHeartbeat)) = Suc (Suc n)"
  shows "tick random_range s = Some ([], s\<lparr>vc_timeouts := tm_tick (vc_timeouts s)\<rparr>)"
    and "unat (ticks_remaining (tm_get (tm_tick (vc_timeouts s)) NormalHeartbeat)) = Suc n"
proof -
  show "tick random_range s = Some ([], s\<lparr>vc_timeouts := tm_tick (vc_timeouts s)\<rparr>)"
    using assms by (intro tick_idle) (auto simp: waiting_fired waiting_def)
  show "unat (ticks_remaining (tm_get (tm_tick (vc_timeouts s)) NormalHeartbeat)) = Suc n"
    using assms waiting_ticking [OF assms(1), of NormalHeartbeat]
    by (simp add: tm_get_tick timeout_tick_def tm_is_ticking_def)
qed

lemma wait_out:
  assumes "waiting s" and "unat (ticks_remaining (tm_get (vc_timeouts s) NormalHeartbeat)) = Suc n"
  shows "(\<exists>t. ticks random_range (Suc n) s = Some ([SendStartViewChange (vc_view s + 1) (vc_group s)], t) \<and>
      vc_status t = ViewChange \<and> vc_view t = vc_view s + 1) \<and>
    (\<forall>k \<le> n. \<exists>u. ticks random_range k s = Some ([], u) \<and> vc_status u = Normal \<and> vc_view u = vc_view s)"
  using assms
proof (induction n arbitrary: s)
  case 0
  then show ?case
    using last_tick [of s random_range] by (auto simp: waiting_def)
next
  case (Suc n)
  let ?u = "s\<lparr>vc_timeouts := tm_tick (vc_timeouts s)\<rparr>"
  note u = early_tick [OF Suc.prems]
  have first: "ticks random_range (Suc k) s = ticks random_range k ?u" for k
    using u(1) by (cases "ticks random_range k ?u") (auto simp: bind_eq_Some_conv)
  have IH: "(\<exists>t. ticks random_range (Suc n) ?u = Some ([SendStartViewChange (vc_view s + 1) (vc_group s)], t) \<and>
      vc_status t = ViewChange \<and> vc_view t = vc_view s + 1) \<and>
    (\<forall>k \<le> n. \<exists>v. ticks random_range k ?u = Some ([], v) \<and> vc_status v = Normal \<and> vc_view v = vc_view s)"
    using Suc.IH [OF waiting_tick [OF Suc.prems(1)]] u(2) by simp
  have "\<exists>v. ticks random_range k s = Some ([], v) \<and> vc_status v = Normal \<and> vc_view v = vc_view s" if "k \<le> Suc n" for k
  proof (cases k)
    case 0
    then show ?thesis
      using Suc.prems(1) by (simp add: waiting_def)
  next
    case (Suc j)
    then show ?thesis
      using IH that first by simp
  qed
  then show ?case
    using IH first [of "Suc n"] by simp
qed


definition sample_backup :: "unit VsrConsensus" where
  "sample_backup = the (boot (\<lambda>_. ()) 1 2 3 5 (8, 8) sample_restore None None (2, 6))"


end
