(* ===== verification/Prepare_Chain.thy ===== *)
theory Prepare_Chain
  imports Vsr_Boot
begin

text \<open>
  The prepare a primary builds from a request: it verifies, it continues the hash chain, the
  pipeline takes it, and a retransmission in a later view keeps its identity.
\<close>

section \<open>Messages with a header\<close>

lemma prepare_bytes: "header_bytes prepare_kind = put_PrepareHeader"
  by (simp add: prepare_kind_def)

lemmas message_header_put = prepare_layout.message_header_bytes [unfolded prepare_bytes]
lemmas prepare_length = prepare_layout.length_bytes [unfolded prepare_bytes]

lemma message_length: "message_header routed_request_kind bs = Some h \<Longrightarrow> HEADER_SIZE \<le> length bs"
  using routed_request_layout.length_bytes [of h]
  by (auto simp: message_header_def routed_request_layout.cast_iff dest!: arg_cong [of _ _ length])

lemma message_try_from_Ok:
  assumes "message_try_from xxh3 k bs = Ok m"
  shows "m = bs" and "\<exists>h. message_header k bs = Some h \<and> validate k h = Ok () \<and> HEADER_SIZE \<le> unat (fr_size h) \<and>
    unat (fr_size h) \<le> length bs"
  using assms
  by (auto simp: message_try_from_def message_header_def cast_header_def rbind_eq_Ok ok_or_def
    split: if_splits option.splits)

lemma transmute_prepare:
  assumes "transmute_header xxh3 from prepare_kind f message = Some out"
  obtains old where "message_header from message = Some old" "out = put_PrepareHeader (f old) @ drop HEADER_SIZE message"
    "\<exists>h. message_header prepare_kind out = Some h \<and> HEADER_SIZE \<le> unat (fr_size h) \<and> unat (fr_size h) \<le> length out"
proof -
  obtain old where old: "message_header from message = Some old"
    and out: "message_try_from xxh3 prepare_kind (header_bytes prepare_kind (f old) @ drop HEADER_SIZE message) = Ok out"
  proof -
    from assms obtain old where "message_header from message = Some old"
        "(case message_try_from xxh3 prepare_kind (header_bytes prepare_kind (f old) @ drop HEADER_SIZE message) of
           Inl _ \<Rightarrow> None | Inr m \<Rightarrow> Some m) = Some out"
      by (auto simp: transmute_header_def bind_eq_Some_conv)
    then show thesis
      by (cases "message_try_from xxh3 prepare_kind (header_bytes prepare_kind (f old) @ drop HEADER_SIZE message)")
        (auto intro: that)
  qed
  note m = message_try_from_Ok [OF out]
  show thesis
    using m(2) by (intro that [OF old]) (auto simp: m(1) prepare_bytes)
qed

lemma wf_prepare_of_request: "wf_PrepareHeader (prepare_of_request s op timestamp c old)"
  by (simp add: prepare_of_request_def wf_PrepareHeader_def wf_frame_def default_PrepareHeader_def)

lemma identity_sealed [simp]:
  "identity_checksum xxh3 (h\<lparr>fr_checksum := c\<rparr>) = identity_checksum xxh3 h"
  "identity_checksum xxh3 (h\<lparr>fr_view := v\<rparr>) = identity_checksum xxh3 h"
  by (simp_all add: identity_checksum_def)

lemma wf_prepare_seal [simp]: "wf_PrepareHeader (h\<lparr>fr_checksum := c\<rparr>) = wf_PrepareHeader h"
  by (simp add: wf_PrepareHeader_def wf_frame_def)

lemma seal_put:
  assumes "wf_PrepareHeader h"
  shows "seal_prepare_checksum xxh3 (put_PrepareHeader h @ rest) =
    Some (put_PrepareHeader (h\<lparr>fr_checksum := identity_checksum xxh3 h\<rparr>) @ rest)"
  by (simp add: seal_prepare_checksum_def message_header_put [OF assms] prepare_length [OF assms])

lemma frame_body_put:
  assumes "wf_PrepareHeader h" and "HEADER_SIZE \<le> length message"
  shows "frame_body (put_PrepareHeader h @ drop HEADER_SIZE message) sz = frame_body message sz"
  using assms(2) by (simp add: frame_body_def prepare_length [OF assms(1)])

section \<open>The projection of a request\<close>

lemma saturating_add_ge: "a \<le> saturating_add a (b :: 'w::len word)"
  by (simp add: saturating_add_def)

text \<open>The last prepare of the queue is the one the next op number and parent refer to.\<close>

definition chain_head_known :: "'g VsrConsensus \<Rightarrow> bool" where
  "chain_head_known s \<longleftrightarrow>
     (case last_opt (lp_prepare_queue (vc_pipeline s)) of
        None \<Rightarrow> True
      | Some e \<Rightarrow> ph_op (pe_header e) = vc_sequencer s \<and> fr_checksum (pe_header e) = vc_last_prepare_checksum s)"

lemma projected_header:
  assumes "project_prepare xxh3 now message s = Some (frame, s')"
  obtains h body where "frame = put_PrepareHeader h @ body" "wf_PrepareHeader h"
    "HEADER_SIZE \<le> unat (fr_size h)" "unat (fr_size h) \<le> HEADER_SIZE + length body"
    "verify_prepare_integrity xxh3 h frame = Ok ()" "fr_checksum h = identity_checksum xxh3 h"
    "fr_command h = CmdPrepare" "ph_op h = vc_sequencer s + 1" "ph_parent h = vc_last_prepare_checksum s"
    "fr_view h = vc_view s" "ph_commit h = vc_commit_max s" "ph_group h = vc_group s"
    "s' = snd (next_monotonic_timestamp now s)" "ph_timestamp h = fst (next_monotonic_timestamp now s)"
proof -
  obtain m old prepared where old: "message_header routed_request_kind m = Some old"
    and prepared: "transmute_header xxh3 routed_request_kind prepare_kind
      (prepare_of_request s' (vc_sequencer s + 1) (fst (next_monotonic_timestamp now s))
        (if rr_operation old = OpSendMessages then 0 else ucast (xxh3 (frame_body m (fr_size old))))) m = Some prepared"
    and frame: "seal_prepare_checksum xxh3 prepared = Some frame"
    and s': "s' = snd (next_monotonic_timestamp now s)"
    using assms by (auto simp: project_prepare_def bind_eq_Some_conv Let_def split_beta)
  define h0 where "h0 = prepare_of_request s' (vc_sequencer s + 1) (fst (next_monotonic_timestamp now s))
      (if rr_operation old = OpSendMessages then 0 else ucast (xxh3 (frame_body m (fr_size old)))) old"
  define h where "h = h0\<lparr>fr_checksum := identity_checksum xxh3 h0\<rparr>"
  have wf: "wf_PrepareHeader h0" "wf_PrepareHeader h"
    by (simp_all add: h_def h0_def wf_prepare_of_request)
  have p: "prepared = put_PrepareHeader h0 @ drop HEADER_SIZE m"
      and size: "HEADER_SIZE \<le> unat (fr_size h0) \<and> unat (fr_size h0) \<le> length prepared"
  proof -
    from prepared obtain old' where "message_header routed_request_kind m = Some old'"
        "prepared = put_PrepareHeader (prepare_of_request s' (vc_sequencer s + 1) (fst (next_monotonic_timestamp now s))
          (if rr_operation old = OpSendMessages then 0 else ucast (xxh3 (frame_body m (fr_size old)))) old') @
          drop HEADER_SIZE m"
        "\<exists>h. message_header prepare_kind prepared = Some h \<and> HEADER_SIZE \<le> unat (fr_size h) \<and>
          unat (fr_size h) \<le> length prepared"
      by (rule transmute_prepare)
    with old message_header_put [OF wf(1)] show "prepared = put_PrepareHeader h0 @ drop HEADER_SIZE m"
        "HEADER_SIZE \<le> unat (fr_size h0) \<and> unat (fr_size h0) \<le> length prepared"
      by (auto simp: h0_def)
  qed
  have f: "frame = put_PrepareHeader h @ drop HEADER_SIZE m"
    using frame seal_put [OF wf(1)] by (simp add: p h_def)
  have "HEADER_SIZE \<le> unat (fr_size h)" "unat (fr_size h) \<le> HEADER_SIZE + length (drop HEADER_SIZE m)"
    using size by (simp_all add: h_def p prepare_length [OF wf(1)])
  have fields: "fr_size h = fr_size old" "fr_checksum h = identity_checksum xxh3 h"
    "fr_checksum_body h = (if rr_operation old = OpSendMessages then 0 else ucast (xxh3 (frame_body m (fr_size old))))"
    by (simp_all add: h_def h0_def prepare_of_request_def)
  have "verify_prepare_integrity xxh3 h frame = Ok ()"
    using frame_body_put [OF wf(2) message_length [OF old]] fields
    by (simp add: verify_prepare_integrity_def f)
  with \<open>HEADER_SIZE \<le> unat (fr_size h)\<close> \<open>unat (fr_size h) \<le> HEADER_SIZE + length (drop HEADER_SIZE m)\<close>
  have "verify_prepare_integrity xxh3 h frame = Ok () \<and> HEADER_SIZE \<le> unat (fr_size h) \<and>
      unat (fr_size h) \<le> HEADER_SIZE + length (drop HEADER_SIZE m)"
    by blast
  moreover have "vc_last_prepare_checksum s' = vc_last_prepare_checksum s" "vc_view s' = vc_view s"
      "vc_commit_max s' = vc_commit_max s" "vc_group s' = vc_group s"
    by (simp_all add: s' next_monotonic_timestamp_def Let_def)
  ultimately show thesis
    using that [OF f wf(2)] fields(2) s' by (simp add: h_def h0_def prepare_of_request_def)
qed

section \<open>Retransmission in a later view\<close>

lemma put_view:
  assumes "wf_PrepareHeader h"
  shows "take 52 (put_PrepareHeader h) @ to_le_bytes v @ drop 56 (put_PrepareHeader h) = put_PrepareHeader (h\<lparr>fr_view := v\<rparr>)"
  using assms by (simp add: put_PrepareHeader_def put_frame_def wf_PrepareHeader_def wf_frame_def)

lemma restamp_put:
  assumes "wf_PrepareHeader h" and "HEADER_SIZE \<le> unat (fr_size h)" and "unat (fr_size h) \<le> HEADER_SIZE + length body"
  shows "restamp_prepare_view xxh3 (put_PrepareHeader h @ body) v = Some (put_PrepareHeader (h\<lparr>fr_view := v\<rparr>) @ body)"
proof (cases "fr_view h = v")
  case True
  then have "h\<lparr>fr_view := v\<rparr> = h"
    by auto
  show ?thesis
    unfolding \<open>h\<lparr>fr_view := v\<rparr> = h\<close> using True message_header_put [OF assms(1), of body]
    by (simp add: restamp_prepare_view_def message_header_def prepare_kind_def prepare_length [OF assms(1)])
next
  case False
  let ?h = "h\<lparr>fr_view := v\<rparr>"
  have wf: "wf_PrepareHeader ?h"
    using assms(1) by (simp add: wf_PrepareHeader_def wf_frame_def)
  have bytes: "take 52 (put_PrepareHeader h @ body) @ to_le_bytes v @ drop 56 (put_PrepareHeader h @ body) =
      put_PrepareHeader ?h @ body"
    using put_view [OF assms(1), of v] prepare_length [OF assms(1)] by (simp add: HEADER_SIZE_def)
  obtain g where "message_header generic_kind (put_PrepareHeader ?h @ body) = Some g" "fr_size g = fr_size h"
    using prepare_layout.generic_header [OF wf, of body] by (auto simp: prepare_bytes)
  then have "message_try_from xxh3 generic_kind (put_PrepareHeader ?h @ body) = Ok (put_PrepareHeader ?h @ body)"
    using assms(2,3)
    by (simp add: message_try_from_def cast_header_def message_header_def prepare_length [OF wf] generic_kind_def)
  then show ?thesis
    using False message_header_put [OF assms(1), of body] bytes
    by (simp add: restamp_prepare_view_def message_header_def prepare_kind_def prepare_length [OF assms(1)])
qed

lemma verify_view:
  assumes "wf_PrepareHeader h" and "verify_prepare_integrity xxh3 h (put_PrepareHeader h @ body) = Ok ()"
  shows "verify_prepare_integrity xxh3 (h\<lparr>fr_view := v\<rparr>) (put_PrepareHeader (h\<lparr>fr_view := v\<rparr>) @ body) = Ok ()"
proof -
  have "wf_PrepareHeader (h\<lparr>fr_view := v\<rparr>)"
    using assms(1) by (simp add: wf_PrepareHeader_def wf_frame_def)
  then have "frame_body (put_PrepareHeader (h\<lparr>fr_view := v\<rparr>) @ body) sz = frame_body (put_PrepareHeader h @ body) sz" for sz
    using assms(1) by (simp add: frame_body_def prepare_length)
  then show ?thesis
    using assms(2) by (auto simp: verify_prepare_integrity_def split: if_splits)
qed

lemma chained_push:
  assumes "chain_head_known s" and "is_primary s" and "\<not> prepare_queue_full (vc_pipeline s)"
    and "ph_op h = vc_sequencer s + 1" and "ph_parent h = vc_last_prepare_checksum s"
  shows "\<exists>t. pipeline_message_with_order h sender order s = Some t"
proof -
  define e where "e = (case sender of None \<Rightarrow> pipeline_entry h | Some ch \<Rightarrow> entry_with_sender h ch)
      \<lparr>pe_local_order := order\<rparr>"
  have e: "pe_header e = h"
    by (simp add: e_def pipeline_entry_def entry_with_sender_def split: option.splits)
  have "lp_prepare_queue (vc_pipeline s) = [] \<or> follows (last (lp_prepare_queue (vc_pipeline s))) e"
    using assms(1,4,5) by (auto simp: chain_head_known_def last_opt_def follows_def e split: if_splits)
  then obtain p where "push_prepare e (vc_pipeline s) = Some p"
    using assms(3) push_prepare_eq by blast
  then show ?thesis
    using assms(2) by (simp add: pipeline_message_with_order_def push_prepare_entry_def assert_that_def Let_def e_def)
qed

text \<open>
  C15. The prepare a primary builds from a request is a link of its log. Its header and body verify
  against their checksums; it carries the next op number, the checksum of the previous prepare, the
  primary's view and commit point, and a timestamp at or above every earlier one. The pipeline of a
  primary with room, whose last entry is that previous prepare, accepts it. Stamped with any other
  view for a retransmission it still verifies and keeps its identity.
\<close>

theorem projected_prepare:
  assumes "project_prepare xxh3 now message s = Some (frame, s')"
  shows "\<exists>h. message_header prepare_kind frame = Some h \<and> verify_prepare_integrity xxh3 h frame = Ok () \<and>
    fr_command h = CmdPrepare \<and> ph_op h = vc_sequencer s + 1 \<and> ph_parent h = vc_last_prepare_checksum s \<and>
    fr_view h = vc_view s \<and> ph_commit h = vc_commit_max s \<and> vc_last_timestamp s \<le> ph_timestamp h \<and>
    (chain_head_known s \<and> is_primary s \<and> \<not> prepare_queue_full (vc_pipeline s) \<longrightarrow>
      (\<exists>t. pipeline_message_with_order h sender order s' = Some t)) \<and>
    (\<exists>again. restamp_prepare_view xxh3 frame v = Some again \<and>
      message_header prepare_kind again = Some (h\<lparr>fr_view := v\<rparr>) \<and>
      verify_prepare_integrity xxh3 (h\<lparr>fr_view := v\<rparr>) again = Ok ())"
proof -
  obtain h body where frame: "frame = put_PrepareHeader h @ body" and wf: "wf_PrepareHeader h"
    and size: "HEADER_SIZE \<le> unat (fr_size h)" "unat (fr_size h) \<le> HEADER_SIZE + length body"
    and ok: "verify_prepare_integrity xxh3 h frame = Ok ()"
    and fields: "fr_command h = CmdPrepare" "ph_op h = vc_sequencer s + 1" "ph_parent h = vc_last_prepare_checksum s"
      "fr_view h = vc_view s" "ph_commit h = vc_commit_max s"
    and s': "s' = snd (next_monotonic_timestamp now s)" "ph_timestamp h = fst (next_monotonic_timestamp now s)"
    using assms by (rule projected_header)
  have wf': "wf_PrepareHeader (h\<lparr>fr_view := v\<rparr>)"
    using wf by (simp add: wf_PrepareHeader_def wf_frame_def)
  have state: "s' = s\<lparr>vc_last_timestamp := ph_timestamp h\<rparr>" "vc_last_timestamp s \<le> ph_timestamp h"
    using saturating_add_ge [of "vc_last_timestamp s" 1] by (auto simp: s' next_monotonic_timestamp_def Let_def le_max_iff_disj)
  have "chain_head_known s' = chain_head_known s" "is_primary s' = is_primary s" "vc_pipeline s' = vc_pipeline s"
      "vc_sequencer s' = vc_sequencer s" "vc_last_prepare_checksum s' = vc_last_prepare_checksum s"
    by (simp_all add: state(1) chain_head_known_def is_primary_def primary_index_def split: option.split)
  then have "chain_head_known s \<and> is_primary s \<and> \<not> prepare_queue_full (vc_pipeline s) \<longrightarrow>
      (\<exists>t. pipeline_message_with_order h sender order s' = Some t)"
    using chained_push [of s' h] fields(2,3) by simp
  moreover have "restamp_prepare_view xxh3 frame v = Some (put_PrepareHeader (h\<lparr>fr_view := v\<rparr>) @ body)"
    unfolding frame by (rule restamp_put [OF wf size])
  ultimately show ?thesis
    using ok fields state(2) message_header_put [OF wf, of body] message_header_put [OF wf', of body]
      verify_view [OF wf, of xxh3 body v] frame by auto
qed

text \<open>Projecting a well-formed request that is not an offset request never panics.\<close>

lemma project_prepare_total:
  assumes "wf_RoutedRequestHeader r" and "HEADER_SIZE \<le> unat (fr_size r)" and "unat (fr_size r) \<le> HEADER_SIZE + length body"
    and "rr_operation r \<noteq> OpStoreConsumerOffset" and "rr_operation r \<noteq> OpDeleteConsumerOffset"
  shows "\<exists>frame s'. project_prepare xxh3 now (put_RoutedRequestHeader r @ body) s = Some (frame, s')"
proof -
  have bytes: "header_bytes routed_request_kind = put_RoutedRequestHeader"
    by (simp add: routed_request_kind_def)
  have r: "message_header routed_request_kind (put_RoutedRequestHeader r @ body) = Some r"
      "length (put_RoutedRequestHeader r) = HEADER_SIZE"
    using routed_request_layout.message_header_bytes [OF assms(1), of body]
      routed_request_layout.length_bytes [OF assms(1)] by (simp_all add: bytes)
  have prepared: "transmute_header xxh3 routed_request_kind prepare_kind (prepare_of_request t op ts c)
      (put_RoutedRequestHeader r @ body) = Some (put_PrepareHeader (prepare_of_request t op ts c r) @ body)" for t op ts c
  proof -
    let ?h = "prepare_of_request t op ts c r"
    have "validate prepare_kind ?h = Ok ()" "fr_size ?h = fr_size r"
      by (simp_all add: prepare_kind_def validate_PrepareHeader_def prepare_of_request_def default_PrepareHeader_def
        list_ex_iff)
    then have "message_try_from xxh3 prepare_kind (put_PrepareHeader ?h @ body) = Ok (put_PrepareHeader ?h @ body)"
      using assms(2,3) message_header_put [OF wf_prepare_of_request, of t op ts c r body]
      by (simp add: message_try_from_def cast_header_def message_header_def prepare_length [OF wf_prepare_of_request])
    then show ?thesis
      by (simp add: transmute_header_def r prepare_bytes)
  qed
  show ?thesis
    using assms(4,5)
    by (simp add: project_prepare_def r(1) prepared seal_put [OF wf_prepare_of_request] Let_def split_beta)
qed

definition sample_request :: RoutedRequestHeader where
  "sample_request = default_RoutedRequestHeader\<lparr>fr_size := 259, fr_command := CmdRequest, rr_client := 9,
     rr_operation := OpCreateStream\<rparr>"

theorem projected_prepare_witness:
  "\<exists>frame s' h t. project_prepare (\<lambda>_. 0) 100 (put_RoutedRequestHeader sample_request @ [1, 2, 3]) sample_replica =
       Some (frame, s') \<and>
     message_header prepare_kind frame = Some h \<and> ph_op h = 1 \<and> verify_prepare_integrity (\<lambda>_. 0) h frame = Ok () \<and>
     pipeline_message_with_order h None None s' = Some t"
proof -
  have "wf_RoutedRequestHeader sample_request"
    by (simp add: sample_request_def wf_RoutedRequestHeader_def wf_frame_def default_RoutedRequestHeader_def)
  then obtain frame s' where p: "project_prepare (\<lambda>_. 0) 100 (put_RoutedRequestHeader sample_request @ [1, 2, 3])
      sample_replica = Some (frame, s')"
    using project_prepare_total [of sample_request "[1, 2, 3]" "\<lambda>_. 0" 100 sample_replica]
    by (auto simp: sample_request_def HEADER_SIZE_def)
  have "chain_head_known sample_replica" "is_primary sample_replica" "\<not> prepare_queue_full (vc_pipeline sample_replica)"
      "vc_sequencer sample_replica = 0"
    by code_simp+
  with projected_prepare [OF p, where sender = None and order = None and v = 0] p show ?thesis
    by auto
qed

end
