(* ===== verification/Spec2Isabelle.thy ===== *)
theory Spec2Isabelle
  imports State_Transfer Vsr_Timeout Dvc_Safety Vsr_State Client_Table_Safety Client_Table_Slice Client_Table_Codec
    View_Log Vsr_Safety Vsr_Commit Vsr_Adopt Vsr_Liveness Prepare_Chain
begin

text \<open>
  A verification development for the replicated core of Iggy, a persistent message streaming
  server written in Rust. The sources are under \<open>src/\<close>; the part modelled is the viewstamped
  replication (VSR) consensus crate \<open>src/core/consensus\<close> with the wire types it exchanges
  (\<open>src/core/binary_protocol/src/consensus\<close>).
\<close>

end
